theory Spec2Isabelle
  imports Complex_Main "HOL-Library.Word" "HOL-Library.Code_Target_Nat"
begin

unbundle bit_operations_syntax

section \<open>Numbers\<close>

text \<open>
  The engine of \<^verbatim>\<open>src/public/shared/clt-working.js\<close> computes with JavaScript numbers.
  A number is modelled as \<open>NaN\<close>, as one of the two infinities, or as a finite value
  \<open>Fin r\<close> with \<open>r\<close> a real.

  The statistics (\<^verbatim>\<open>mean\<close>, \<^verbatim>\<open>varianceUnbiased\<close>, \<^verbatim>\<open>robustSD\<close>, \<^verbatim>\<open>med\<close> and the
  proportion of \<^verbatim>\<open>computeStat\<close>) are computed in double precision: every operation
  rounds its exact result to the nearest double, ties to even, and overflows to an
  infinity, see \<open>dbl\<close>. Sample arrays are \<open>real list\<close> (the engine fills them with
  bin centres, never with NaN); an array cell holds the double nearest to the list
  element, so the statistics read every element through \<open>dbl\<close>.

  Times, pixel positions and the statistic-to-bin mapping are computed exactly (no
  rounding of fractions). Integer-valued quantities (counters, typed-array cells, the
  generator state and the products compared in the weighted draw) are modelled with their
  exact double-precision behaviour, see \<open>dbl_round\<close>. The sign of a zero is not
  represented: the only divisors that can be zero are array lengths and differences of
  times, which are \<open>+0\<close>, see \<open>div_length\<close> and \<open>clampDiv01\<close>.
\<close>

datatype num = NaN | PInf | NInf | Fin real

datatype error = RangeError

fun isFinite :: "num \<Rightarrow> bool" where
  "isFinite (Fin r) = True"
| "isFinite NaN = False"
| "isFinite PInf = False"
| "isFinite NInf = False"

text \<open>\<^verbatim>\<open>a >= c\<close>, \<^verbatim>\<open>a < c\<close>, \<^verbatim>\<open>a > c\<close> for a number \<open>a\<close> and a finite \<open>c\<close>, and
  \<^verbatim>\<open>a > b\<close> for two numbers: every comparison with NaN is false.\<close>

fun num_ge :: "num \<Rightarrow> real \<Rightarrow> bool" where
  "num_ge (Fin r) c = (r \<ge> c)"
| "num_ge NaN c = False"
| "num_ge PInf c = True"
| "num_ge NInf c = False"

fun num_lt :: "num \<Rightarrow> real \<Rightarrow> bool" where
  "num_lt (Fin r) c = (r < c)"
| "num_lt NaN c = False"
| "num_lt PInf c = False"
| "num_lt NInf c = True"

fun num_gt :: "num \<Rightarrow> real \<Rightarrow> bool" where
  "num_gt (Fin r) c = (r > c)"
| "num_gt NaN c = False"
| "num_gt PInf c = True"
| "num_gt NInf c = False"

fun gt_num :: "num \<Rightarrow> num \<Rightarrow> bool" where
  "gt_num a (Fin c) = num_gt a c"
| "gt_num a NaN = False"
| "gt_num a PInf = False"
| "gt_num a NInf = (a \<noteq> NaN \<and> a \<noteq> NInf)"

text \<open>
  Rounding of a real to the nearest double. \<open>dbl_ulp x\<close> is the spacing of the doubles
  around \<open>x\<close>: \<open>2^(e - 52)\<close> for \<open>2^e \<le> |x| < 2^(e + 1)\<close>, with the exponent \<open>e\<close> no
  smaller than \<open>-1022\<close> (below that the doubles are subnormal, with spacing
  \<open>2^-1074\<close>). \<open>dbl x\<close> is the multiple of that spacing nearest to \<open>x\<close>, the even
  multiple in a tie; a result of magnitude \<open>2^1024\<close> or more is an infinity.
\<close>

definition dbl_ulp :: "real \<Rightarrow> real" where
  "dbl_ulp x = 2 powr real_of_int (max \<lfloor>log 2 \<bar>x\<bar>\<rfloor> (- 1022) - 52)"

definition round_even :: "real \<Rightarrow> int" where
  "round_even q =
     (let f = \<lfloor>q\<rfloor>; d = q - real_of_int f
      in if d < 1 / 2 \<or> (d = 1 / 2 \<and> even f) then f else f + 1)"

definition dbl :: "real \<Rightarrow> num" where
  "dbl x =
     (if x = 0 then Fin 0
      else let r = real_of_int (round_even (x / dbl_ulp x)) * dbl_ulp x
           in if 2 ^ 1024 \<le> r then PInf else if r \<le> - (2 ^ 1024) then NInf else Fin r)"

text \<open>
  Addition, subtraction and multiplication of two numbers. The exact result of an
  operation on finite operands goes through \<open>rnd\<close>, which is \<open>dbl\<close> in the statistics
  and \<open>Fin\<close> where the arithmetic is taken exact; the other cases are those of IEEE 754.
\<close>

fun num_add :: "(real \<Rightarrow> num) \<Rightarrow> num \<Rightarrow> num \<Rightarrow> num" where
  "num_add rnd (Fin x) (Fin y) = rnd (x + y)"
| "num_add rnd NaN b = NaN"
| "num_add rnd a NaN = NaN"
| "num_add rnd PInf NInf = NaN"
| "num_add rnd NInf PInf = NaN"
| "num_add rnd PInf b = PInf"
| "num_add rnd a PInf = PInf"
| "num_add rnd NInf b = NInf"
| "num_add rnd a NInf = NInf"

fun num_neg :: "num \<Rightarrow> num" where
  "num_neg (Fin x) = Fin (- x)"
| "num_neg NaN = NaN"
| "num_neg PInf = NInf"
| "num_neg NInf = PInf"

definition num_sub :: "(real \<Rightarrow> num) \<Rightarrow> num \<Rightarrow> num \<Rightarrow> num" where
  "num_sub rnd a b = num_add rnd a (num_neg b)"

fun num_mul :: "(real \<Rightarrow> num) \<Rightarrow> num \<Rightarrow> num \<Rightarrow> num" where
  "num_mul rnd (Fin x) (Fin y) = rnd (x * y)"
| "num_mul rnd NaN b = NaN"
| "num_mul rnd a NaN = NaN"
| "num_mul rnd PInf b = (if num_gt b 0 then PInf else if num_lt b 0 then NInf else NaN)"
| "num_mul rnd NInf b = (if num_gt b 0 then NInf else if num_lt b 0 then PInf else NaN)"
| "num_mul rnd a PInf = (if num_gt a 0 then PInf else if num_lt a 0 then NInf else NaN)"
| "num_mul rnd a NInf = (if num_gt a 0 then NInf else if num_lt a 0 then PInf else NaN)"

text \<open>\<^verbatim>\<open>a / k\<close> in double precision for an array length \<open>k\<close>.\<close>

definition div_length :: "num \<Rightarrow> nat \<Rightarrow> num" where
  "div_length a k =
     (case a of
        NaN \<Rightarrow> NaN
      | PInf \<Rightarrow> PInf
      | NInf \<Rightarrow> NInf
      | Fin x \<Rightarrow>
          if k = 0 then (if x = 0 then NaN else if 0 < x then PInf else NInf)
          else dbl (x / real k))"

text \<open>\<^verbatim>\<open>Math.sqrt\<close> is correctly rounded.\<close>

fun Math_sqrt :: "num \<Rightarrow> num" where
  "Math_sqrt (Fin r) = (if r < 0 then NaN else dbl (sqrt r))"
| "Math_sqrt NaN = NaN"
| "Math_sqrt PInf = PInf"
| "Math_sqrt NInf = NaN"

text \<open>Rounding of a natural number to the nearest double (53-bit significand, ties to
  even): \<open>dbl_exp m\<close> is the number of low bits that do not fit.\<close>

function dbl_exp :: "nat \<Rightarrow> nat" where
  "dbl_exp m = (if m < 2 ^ 53 then 0 else Suc (dbl_exp (m div 2)))"
  by pat_completeness auto
termination
  by (relation "measure (\<lambda>m. m)") auto

declare dbl_exp.simps [simp del]

definition dbl_round :: "nat \<Rightarrow> nat" where
  "dbl_round m =
     (let e = dbl_exp m; q = m div 2 ^ e; r = m mod 2 ^ e
      in if 2 * r < 2 ^ e \<or> (2 * r = 2 ^ e \<and> even q) then q * 2 ^ e else (q + 1) * 2 ^ e)"

text \<open>The numbers that are not below zero: the finite numbers from 0 on, the positive
  infinity, and NaN (which is not below anything).\<close>

fun nonneg :: "num \<Rightarrow> bool" where
  "nonneg (Fin r) = (0 \<le> r)"
| "nonneg NaN = True"
| "nonneg PInf = True"
| "nonneg NInf = False"

section \<open>Utils\<close>

text \<open>
  \<^verbatim>\<open>rngMulberry32(seed)\<close> returns a closure over the number \<open>t\<close>, initially
  \<^verbatim>\<open>seed >>> 0\<close>. The closure's state is that number: \<^verbatim>\<open>t += 0x6D2B79F5\<close> is a
  double addition (it is not reduced modulo \<open>2^32\<close>), the bitwise operators and
  \<^verbatim>\<open>Math.imul\<close> work on the low 32 bits. \<open>rng_call t\<close> is one call of the closure
  in state \<open>t\<close>: the 32-bit numerator of the returned value and the new state.
\<close>

definition rngMulberry32 :: "int \<Rightarrow> nat" where
  "rngMulberry32 seed = nat (seed mod 4294967296)"

definition rng_call :: "nat \<Rightarrow> 32 word \<times> nat" where
  "rng_call t0 =
     (let t = dbl_round (t0 + 0x6D2B79F5);
          w = (word_of_nat t :: 32 word);
          r1 = (w XOR drop_bit 15 w) * (1 OR w);
          r2 = r1 XOR (r1 + (r1 XOR drop_bit 7 r1) * (61 OR r1))
      in (r2 XOR drop_bit 14 r2, t))"

text \<open>The state of the closure after one call.\<close>

definition rng_advance :: "nat \<Rightarrow> nat" where
  "rng_advance t = snd (rng_call t)"

text \<open>The value \<^verbatim>\<open>(... >>> 0) / 4294967296\<close> returned by the closure.\<close>

definition rng_value :: "32 word \<Rightarrow> real" where
  "rng_value u = real (unat u) / 4294967296"

text \<open>The product \<^verbatim>\<open>rng() * k\<close> for a natural number \<open>k\<close> below \<open>2^22\<close>: the exact
  product has the numerator \<open>unat u * k < 2^54\<close>, which the multiplication rounds to a
  double.\<close>

definition rng_times :: "32 word \<Rightarrow> nat \<Rightarrow> real" where
  "rng_times u k = real (dbl_round (unat u * k)) / 4294967296"

definition clamp :: "real \<Rightarrow> real \<Rightarrow> real \<Rightarrow> real" where
  "clamp x a b = max a (min b x)"

definition clampi :: "int \<Rightarrow> int \<Rightarrow> int \<Rightarrow> int" where
  "clampi x a b = max a (min b x)"

definition mean :: "real list \<Rightarrow> num" where
  "mean a =
     (if length a \<noteq> 0 then div_length (foldl (\<lambda>s v. num_add dbl s (dbl v)) (Fin 0) a) (length a)
      else NaN)"

text \<open>\<^verbatim>\<open>x ** 2\<close> is taken as the correctly rounded square, the value of \<^verbatim>\<open>x * x\<close>.\<close>

definition square :: "num \<Rightarrow> num" where
  "square x = num_mul dbl x x"

definition varianceUnbiased :: "real list \<Rightarrow> num" where
  "varianceUnbiased a =
     (let n = length a
      in if n < 2 then NaN
         else (let m = mean a;
                   s2 = foldl (\<lambda>s2 v. num_add dbl s2 (square (num_sub dbl (dbl v) m))) (Fin 0) a
               in div_length s2 (n - 1)))"

definition robustSD :: "real list \<Rightarrow> num" where
  "robustSD a =
     (let v = varianceUnbiased a
      in if isFinite v \<and> num_ge v 0 then Math_sqrt v else Fin 0)"

definition med :: "real list \<Rightarrow> num" where
  "med a =
     (if length a = 0 then NaN
      else let b = sort a; m = length b div 2
           in if length b mod 2 \<noteq> 0 then dbl (b ! m)
              else num_mul dbl (Fin 0.5) (num_add dbl (dbl (b ! (m - 1))) (dbl (b ! m))))"

record validation =
  valid :: bool
  message :: "string option"

definition validateSampleSize :: "num \<Rightarrow> validation" where
  "validateSampleSize n =
     (if num_lt n 2 then \<lparr>valid = False, message = Some ''Sample size must be at least 2''\<rparr>
      else if num_gt n 1000 then \<lparr>valid = False, message = Some ''Sample size too large (max 1000)''\<rparr>
      else \<lparr>valid = True, message = None\<rparr>)"

section \<open>Constants\<close>

definition COLS :: nat where
  "COLS = 60"

definition STAT_BINS :: nat where
  "STAT_BINS = COLS"

definition PAD :: real where
  "PAD = 16"

definition TOP_UNITS :: real where
  "TOP_UNITS = 30"

definition MID_UNITS :: real where
  "MID_UNITS = 24"

definition BOT_UNITS :: real where
  "BOT_UNITS = 36"

definition TOTAL_UNITS :: real where
  "TOTAL_UNITS = TOP_UNITS + MID_UNITS + BOT_UNITS"


section \<open>Engine state\<close>

text \<open>
  The fields of \<^verbatim>\<open>class Engine\<close>. Typed arrays are lists of words
  (\<^verbatim>\<open>Uint16Array(COLS)\<close>, \<^verbatim>\<open>Uint32Array(STAT_BINS)\<close>); the closure \<^verbatim>\<open>this.rng\<close>
  is its state; \<^verbatim>\<open>this.statistic\<close> and \<^verbatim>\<open>this.speed\<close> are the strings the code
  compares. A bin index computed from a statistic is \<open>None\<close> when the statistic is NaN,
  else \<open>Some\<close> of the integer. The drawing surface is reduced to the number of repaints it
  has received. The label cache \<^verbatim>\<open>this.lines\<close>, written by \<^verbatim>\<open>updateLines\<close> and read
  only by the drawing routines, is not part of the state, so calls of \<^verbatim>\<open>updateLines\<close>
  leave the modelled state as it is.
\<close>

record sampleParticle =
  s_col :: nat
  s_x :: real
  s_y :: real
  s_vy :: real
  s_targetY :: real

record statParticle =
  q_x :: num
  q_y :: real
  q_vy :: real
  q_targetY :: real
  q_bin :: "nat option"

record popFlash =
  f_col :: nat
  f_y :: real
  f_until :: real

record gatherParticle =
  g_sx :: real
  g_sy :: real
  g_x :: num
  g_y :: num

record gatherTarget =
  gt_x :: num
  gt_y :: real
  gt_bin :: "nat option"

record plan =
  p_start :: real
  p_end :: real
  p_total :: nat
  p_emitted :: nat
  p_cols :: "nat list"
  p_xs :: "real list"

record canvas =
  repaints :: nat

record engine =
  ctx :: "canvas option"
  plotW :: real
  gridW :: real
  colW :: real
  BOX :: real
  gridX0 :: real
  H_TOP :: real
  H_MID :: real
  H_BOT :: real
  marginY :: real
  BOX_TOP_Y :: real
  BOX_MID_Y :: real
  BOX_BOT_Y :: real
  popCounts :: "16 word list"
  midCounts :: "16 word list"
  botCounts :: "32 word list"
  sampleParticles :: "sampleParticle list"
  statParticles :: "statParticle list"
  popFlashes :: "popFlash list"
  gatherParticles :: "gatherParticle list"
  gatherTarget :: "gatherTarget option"
  gathering :: bool
  gatherStart :: real
  gatherDur :: real
  emissionPlan :: "plan option"
  lastSample :: "real list"
  statistic :: string
  threshold :: num
  speed :: string
  showParamLine :: bool
  showNormalFit :: bool
  rng :: nat
  needsRedraw :: bool
  lastGatheringSample :: "real list option"


section \<open>Engine: geometry, population, statistics\<close>

definition zeros16 :: "16 word list" where
  "zeros16 = replicate COLS 0"

definition zeros32 :: "32 word list" where
  "zeros32 = replicate STAT_BINS 0"

definition resetGeometry :: "real \<Rightarrow> real \<Rightarrow> real \<Rightarrow> real \<Rightarrow> engine \<Rightarrow> engine" where
  "resetGeometry plotW' topH midH botH e =
     (let innerW = plotW' - 2 * PAD;
          colW' = real_of_int \<lfloor>innerW / real COLS\<rfloor>;
          BOX' = max 6 colW';
          gridW' = BOX' * real COLS
      in e\<lparr>plotW := plotW', colW := colW', BOX := BOX', gridW := gridW',
            gridX0 := real_of_int \<lfloor>(plotW' - gridW') / 2\<rfloor>,
            H_TOP := topH, H_MID := midH, H_BOT := botH, needsRedraw := True\<rparr>)"

definition layoutFromViewport :: "real \<Rightarrow> real \<Rightarrow> engine \<Rightarrow> engine" where
  "layoutFromViewport plotW' canvasH e =
     (let innerW = max 200 (plotW' - 2 * PAD);
          fromWidth = max 6 (real_of_int \<lfloor>innerW / real COLS\<rfloor>);
          fromHeight = max 6 (real_of_int \<lfloor>(canvasH - 2 * 16) / TOTAL_UNITS\<rfloor>);
          BOX' = min fromWidth fromHeight
      in resetGeometry plotW' (TOP_UNITS * BOX') (MID_UNITS * BOX') (BOT_UNITS * BOX') e)"

text \<open>The constructor: the field initialisers, then \<^verbatim>\<open>this.resetGeometry({})\<close> with the
  default arguments.\<close>

definition newEngine :: "canvas option \<Rightarrow> engine" where
  "newEngine c =
     resetGeometry 960 300 240 360
       \<lparr>ctx = c, plotW = 960, gridW = 0, colW = 0, BOX = 8, gridX0 = 0,
        H_TOP = 300, H_MID = 240, H_BOT = 360, marginY = 8,
        BOX_TOP_Y = 8, BOX_MID_Y = 8, BOX_BOT_Y = 8,
        popCounts = zeros16, midCounts = zeros16, botCounts = zeros32,
        sampleParticles = [], statParticles = [], popFlashes = [],
        gatherParticles = [], gatherTarget = None, gathering = False,
        gatherStart = 0, gatherDur = 260, emissionPlan = None,
        lastSample = [], statistic = ''mean'', threshold = Fin 0.5, speed = ''normal'',
        showParamLine = True, showNormalFit = False, rng = rngMulberry32 1234,
        needsRedraw = True, lastGatheringSample = None\<rparr>"

text \<open>The representative value \<^verbatim>\<open>(c + 0.5) / COLS\<close> of a bin.\<close>

definition colValue :: "nat \<Rightarrow> real" where
  "colValue c = (real c + 0.5) / real COLS"

definition generatorWeight :: "string \<Rightarrow> real \<Rightarrow> real" where
  "generatorWeight name x =
     (if name = ''normal'' then (let z = (x - 0.5) / 0.16 in exp (- 0.5 * z * z))
      else if name = ''uniform'' then 1
      else if name = ''bimodal'' then
        (let z1 = (x - 0.32) / 0.07; z2 = (x - 0.72) / 0.07
         in 0.55 * exp (- 0.5 * z1 * z1) + 0.45 * exp (- 0.5 * z2 * z2))
      else if name = ''lognormal'' then
        (let mu = ln 0.3; sig = 0.6; lx = ln (max (1 / 10000) x); z = (lx - mu) / sig
         in exp (- 0.5 * z * z) / max x (1 / 10000))
      else 1)"

text \<open>\<^verbatim>\<open>Math.round(v)\<close> is \<open>\<lfloor>v + 0.5\<rfloor>\<close>; the store into the \<^verbatim>\<open>Uint16Array\<close>
  keeps the low 16 bits.\<close>

definition applyGenerator :: "string \<Rightarrow> engine \<Rightarrow> engine" where
  "applyGenerator name e =
     e\<lparr>popCounts :=
          map (\<lambda>c. word_of_int (max 0 \<lfloor>generatorWeight name (colValue c) * 20 + 0.5\<rfloor>))
            [0..<COLS],
        needsRedraw := True\<rparr>"

definition statDomain :: "engine \<Rightarrow> real \<times> real" where
  "statDomain e = (if statistic e = ''sd'' then (0, 0.5) else (0, 1))"

definition computeStat :: "engine \<Rightarrow> real list \<Rightarrow> num" where
  "computeStat e xs =
     (if length xs = 0 then NaN
      else if statistic e = ''mean'' then mean xs
      else if statistic e = ''median'' then med xs
      else if statistic e = ''sd'' then robustSD xs
      else if statistic e = ''proportion'' then
        div_length (Fin (real (length (filter (\<lambda>v. gt_num (dbl v) (threshold e)) xs))))
          (length xs)
      else NaN)"

text \<open>
  The statistic-to-bin mapping, written inline in \<^verbatim>\<open>calculateWithGather\<close> and in
  \<^verbatim>\<open>handleRepeatTurbo\<close>:
  \<^verbatim>\<open>x01 = clamp((v - min) / (max - min + 1e-9), 0, 1);
  bin = clamp(Math.floor(x01 * STAT_BINS), 0, STAT_BINS - 1)\<close>.
  A NaN statistic gives a NaN bin. \<open>clampDiv01 x d\<close> is \<^verbatim>\<open>clamp(x / d, 0, 1)\<close>:
  where the divisor is zero the quotient is NaN or an infinity, which \<^verbatim>\<open>clamp\<close>
  (\<^verbatim>\<open>Math.max(a, Math.min(b, x))\<close>) turns into NaN, 1 or 0. An infinite statistic
  gives an infinite quotient (of the divisor's sign), which \<^verbatim>\<open>clamp\<close> turns into 1 or 0.
\<close>

definition clampDiv01 :: "real \<Rightarrow> real \<Rightarrow> num" where
  "clampDiv01 x d =
     (if d = 0 then (if x = 0 then NaN else if x > 0 then Fin 1 else Fin 0)
      else Fin (clamp (x / d) 0 1))"

definition x01Of :: "num \<Rightarrow> real \<times> real \<Rightarrow> num" where
  "x01Of v dm =
     (let d = snd dm - fst dm + 1 / 1000000000
      in case v of
           NaN \<Rightarrow> NaN
         | PInf \<Rightarrow> (if d < 0 then Fin 0 else Fin 1)
         | NInf \<Rightarrow> (if d < 0 then Fin 1 else Fin 0)
         | Fin r \<Rightarrow> clampDiv01 (r - fst dm) d)"

definition binOf :: "num \<Rightarrow> real \<times> real \<Rightarrow> nat option" where
  "binOf v dm =
     (case x01Of v dm of
        NaN \<Rightarrow> None
      | PInf \<Rightarrow> Some (STAT_BINS - 1)
      | NInf \<Rightarrow> Some 0
      | Fin x01 \<Rightarrow> Some (nat (clampi \<lfloor>x01 * real STAT_BINS\<rfloor> 0 (int STAT_BINS - 1))))"

section \<open>Engine: sampling\<close>

text \<open>\<^verbatim>\<open>new Array(n)\<close> throws a RangeError unless \<open>n\<close> is an integer in \<open>[0, 2^32 - 1]\<close>.\<close>

definition newArray :: "num \<Rightarrow> error + nat" where
  "newArray n =
     (case n of
        Fin r \<Rightarrow>
          if r = real_of_int \<lfloor>r\<rfloor> \<and> 0 \<le> r \<and> r < 4294967296 then Inr (nat \<lfloor>r\<rfloor>)
          else Inl RangeError
      | _ \<Rightarrow> Inl RangeError)"

definition popTotal :: "16 word list \<Rightarrow> nat" where
  "popTotal weights = foldl (\<lambda>tot i. tot + unat (weights ! i)) 0 [0..<COLS]"

text \<open>The inner loop of the weighted branch, from column \<open>c\<close> with running sum \<open>acc\<close>:
  the first column whose cumulative weight reaches the target, else the initial value
  \<^verbatim>\<open>COLS >> 1\<close> of \<^verbatim>\<open>chosen\<close>.\<close>

function chooseCol :: "real \<Rightarrow> 16 word list \<Rightarrow> nat \<Rightarrow> nat \<Rightarrow> nat" where
  "chooseCol target weights c acc =
     (if c < COLS then
        (let acc' = acc + unat (weights ! c)
         in if target \<le> real acc' then c else chooseCol target weights (c + 1) acc')
      else drop_bit 1 COLS)"
  by pat_completeness auto
termination
  by (relation "measure (\<lambda>(target, weights, c, acc). COLS - c)") auto

declare chooseCol.simps [simp del]

text \<open>The two outer loops, \<open>k\<close> iterations from generator state \<open>t\<close>: the values, the
  bin indices and the generator state after the loop.\<close>

fun sampleUniform :: "nat \<Rightarrow> nat \<Rightarrow> real list \<times> nat list \<times> nat" where
  "sampleUniform 0 t = ([], [], t)"
| "sampleUniform (Suc k) t =
     (let (u, t') = rng_call t;
          col = nat \<lfloor>rng_times u COLS\<rfloor>;
          (xs, cols, t'') = sampleUniform k t'
      in (colValue col # xs, col # cols, t''))"

fun sampleWeighted :: "16 word list \<Rightarrow> nat \<Rightarrow> nat \<Rightarrow> nat \<Rightarrow> real list \<times> nat list \<times> nat" where
  "sampleWeighted weights tot 0 t = ([], [], t)"
| "sampleWeighted weights tot (Suc k) t =
     (let (u, t') = rng_call t;
          target = rng_times u tot;
          chosen = chooseCol target weights 0 0;
          (xs, cols, t'') = sampleWeighted weights tot k t'
      in (colValue chosen # xs, chosen # cols, t''))"

definition sampleN :: "num \<Rightarrow> engine \<Rightarrow> error + (real list \<times> nat list \<times> engine)" where
  "sampleN n e =
     (let weights = popCounts e; tot = popTotal weights
      in case newArray n of
           Inl err \<Rightarrow> Inl err
         | Inr k \<Rightarrow>
             (let (xs, cols, t) =
                    (if tot = 0 then sampleUniform k (rng e)
                     else sampleWeighted weights tot k (rng e))
              in Inr (xs, cols, e\<lparr>rng := t\<rparr>)))"

definition hasActiveAnimations :: "engine \<Rightarrow> bool" where
  "hasActiveAnimations e \<longleftrightarrow>
     emissionPlan e \<noteq> None \<or> length (sampleParticles e) \<noteq> 0 \<or> length (statParticles e) \<noteq> 0
     \<or> gathering e \<or> length (popFlashes e) \<noteq> 0 \<or> length (gatherParticles e) \<noteq> 0"

text \<open>\<^verbatim>\<open>performance.now()\<close> is read by \<^verbatim>\<open>scheduleEmission\<close> and by
  \<^verbatim>\<open>calculateWithGather\<close>; the value read is the parameter \<open>now\<close>.\<close>

definition scheduleEmission :: "real \<Rightarrow> real list \<Rightarrow> nat list \<Rightarrow> real \<Rightarrow> engine \<Rightarrow> engine" where
  "scheduleEmission now xs cols dropMs e =
     e\<lparr>lastSample := xs,
       emissionPlan := Some \<lparr>p_start = now, p_end = now + dropMs, p_total = length cols,
                              p_emitted = 0, p_cols = cols, p_xs = xs\<rparr>\<rparr>"

definition colLeft :: "engine \<Rightarrow> nat \<Rightarrow> real" where
  "colLeft e col = gridX0 e + real col * BOX e"

definition colCenter :: "engine \<Rightarrow> nat \<Rightarrow> real" where
  "colCenter e col = gridX0 e + real col * BOX e + BOX e / 2"


section \<open>Engine: animation\<close>

text \<open>Reads \<^verbatim>\<open>arr[i] || 0\<close> of a typed array (an index out of range reads
  \<^verbatim>\<open>undefined\<close>), and the store of \<^verbatim>\<open>(arr[i] || 0) + 1\<close>, which keeps the low bits;
  a store at an index out of range, or at a NaN index, is ignored.\<close>

definition cell :: "'a::len word list \<Rightarrow> nat \<Rightarrow> nat" where
  "cell arr i = (if i < length arr then unat (arr ! i) else 0)"

definition bump :: "'a::len word list \<Rightarrow> nat \<Rightarrow> 'a word list" where
  "bump arr i = arr[i := word_of_nat (cell arr i + 1)]"

definition bumpBin :: "'a::len word list \<Rightarrow> nat option \<Rightarrow> 'a word list" where
  "bumpBin arr b = (case b of None \<Rightarrow> arr | Some i \<Rightarrow> bump arr i)"

text \<open>\<^verbatim>\<open>q.bin === this.gatherTarget.bin\<close>: NaN is not equal to itself.\<close>

definition binEq :: "nat option \<Rightarrow> nat option \<Rightarrow> bool" where
  "binEq a b = (case (a, b) of (Some i, Some j) \<Rightarrow> i = j | _ \<Rightarrow> False)"

text \<open>\<^verbatim>\<open>this.gridX0 + bin * this.BOX + this.BOX / 2\<close> for a possibly-NaN bin.\<close>

definition binCenterX :: "engine \<Rightarrow> nat option \<Rightarrow> num" where
  "binCenterX e b =
     (case b of None \<Rightarrow> NaN | Some i \<Rightarrow> Fin (gridX0 e + real i * BOX e + BOX e / 2))"

definition inflightOf :: "sampleParticle list \<Rightarrow> 16 word list" where
  "inflightOf ps = foldl (\<lambda>inflight s. inflight[s_col s := inflight ! s_col s + 1]) zeros16 ps"

text \<open>The \<^verbatim>\<open>while (toEmit-- > 0 && p.emitted < p.total)\<close> loop of \<^verbatim>\<open>tick\<close>, with
  \<open>toEmit\<close> iterations left; \<open>p\<close> is the plan object, which the loop updates in place.\<close>

fun emitLoop ::
  "nat \<Rightarrow> real \<Rightarrow> real \<Rightarrow> real \<Rightarrow> 16 word list \<Rightarrow> plan \<Rightarrow> engine \<Rightarrow> plan \<times> engine" where
  "emitLoop 0 now topBase midBase inflight p e = (p, e)"
| "emitLoop (Suc toEmit) now topBase midBase inflight p e =
     (if p_emitted p < p_total p then
        (let col = p_cols p ! p_emitted p;
             pc = cell (popCounts e) col;
             yStart = (if pc > 0 then topBase - (real pc - 1) * BOX_TOP_Y e - BOX_TOP_Y e / 2
                       else BOX_TOP_Y e * 2);
             level = cell (midCounts e) col + unat (inflight ! col);
             targetY = midBase - real level * BOX_MID_Y e - BOX_MID_Y e / 2
         in emitLoop toEmit now topBase midBase (inflight[col := inflight ! col + 1])
              (p\<lparr>p_emitted := p_emitted p + 1\<rparr>)
              (e\<lparr>popFlashes := popFlashes e @ [\<lparr>f_col = col, f_y = yStart, f_until = now + 160\<rparr>],
                 sampleParticles := sampleParticles e @
                   [\<lparr>s_col = col, s_x = colCenter e col, s_y = yStart, s_vy = 0,
                     s_targetY = targetY\<rparr>]\<rparr>))
      else (p, e))"

text \<open>The \<^verbatim>\<open>if (this.emissionPlan)\<close> block. With a NaN fraction \<open>f\<close> the count
  \<open>toEmit\<close> is NaN, and neither \<^verbatim>\<open>toEmit <= 0 && f >= 1\<close> nor \<^verbatim>\<open>toEmit > 0\<close> holds.
  (The fraction is never infinite; an infinite \<open>toEmit\<close> would run the loop until the
  plan is exhausted, or not at all.)\<close>

definition tickEmission :: "real \<Rightarrow> engine \<Rightarrow> engine" where
  "tickEmission now e =
     (case emissionPlan e of
        None \<Rightarrow> e
      | Some p \<Rightarrow>
          (let f = clampDiv01 (now - p_start p) (p_end p - p_start p);
               toEmit =
                 (case f of
                    NaN \<Rightarrow> 0
                  | PInf \<Rightarrow> int (p_total p) - int (p_emitted p)
                  | NInf \<Rightarrow> 0
                  | Fin fr \<Rightarrow>
                      (let toEmit0 = \<lfloor>fr * real (p_total p)\<rfloor> - int (p_emitted p)
                       in if toEmit0 \<le> 0 \<and> fr \<ge> 1 then int (p_total p) - int (p_emitted p)
                          else toEmit0));
               (p', e') =
                 (if toEmit > 0 then
                    emitLoop (nat toEmit) now (marginY e + H_TOP e - 16)
                      (marginY e + H_TOP e + H_MID e - 8) (inflightOf (sampleParticles e)) p e
                  else (p, e))
           in if p_emitted p' \<ge> p_total p' then e'\<lparr>emissionPlan := None\<rparr>
              else e'\<lparr>emissionPlan := Some p'\<rparr>))"

text \<open>The loop over \<^verbatim>\<open>this.sampleParticles\<close>. \<open>fallStep\<close> is the two assignments
  to \<^verbatim>\<open>s.vy\<close> and \<^verbatim>\<open>s.y\<close>, \<open>inFlight\<close> the test \<^verbatim>\<open>s.y < s.targetY - 0.1\<close>:
  a particle that is no longer in flight is counted into \<open>midCounts\<close>, the others
  survive.\<close>

definition fallStep :: "real \<Rightarrow> real \<Rightarrow> sampleParticle \<Rightarrow> sampleParticle" where
  "fallStep g dt s =
     (let vy = s_vy s + g * dt
      in s\<lparr>s_vy := vy, s_y := min (s_y s + vy * dt) (s_targetY s)\<rparr>)"

definition inFlight :: "sampleParticle \<Rightarrow> bool" where
  "inFlight s \<longleftrightarrow> s_y s < s_targetY s - 0.1"

fun fallSamples ::
  "real \<Rightarrow> real \<Rightarrow> sampleParticle list \<Rightarrow> sampleParticle list \<Rightarrow> 16 word list
   \<Rightarrow> sampleParticle list \<times> 16 word list" where
  "fallSamples g dt [] survivors mid = (survivors, mid)"
| "fallSamples g dt (s # ss) survivors mid =
     (let s' = fallStep g dt s
      in if inFlight s' then fallSamples g dt ss (survivors @ [s']) mid
         else fallSamples g dt ss survivors (bump mid (s_col s')))"

definition tickSamples :: "real \<Rightarrow> real \<Rightarrow> engine \<Rightarrow> engine" where
  "tickSamples g dt e =
     (if length (sampleParticles e) \<noteq> 0 then
        (let (survivors, mid) = fallSamples g dt (sampleParticles e) [] (midCounts e)
         in e\<lparr>midCounts := mid, sampleParticles := survivors\<rparr>)
      else e)"

definition tickGather :: "real \<Rightarrow> engine \<Rightarrow> engine" where
  "tickGather now e =
     (case gatherTarget e of
        None \<Rightarrow> e
      | Some gt \<Rightarrow>
          if \<not> gathering e then e
          else
            (let t = clampDiv01 (now - gatherStart e) (gatherDur e);
                 e1 = e\<lparr>gatherParticles :=
                          map (\<lambda>gp. gp\<lparr>g_x := num_add Fin (Fin (g_sx gp))
                                              (num_mul Fin (num_sub Fin (gt_x gt) (Fin (g_sx gp))) t),
                                         g_y := num_add Fin (Fin (g_sy gp))
                                              (num_mul Fin (Fin (gt_y gt - g_sy gp)) t)\<rparr>)
                            (gatherParticles e)\<rparr>
             in if num_ge t 1 then
                  (let botBase = marginY e1 + H_TOP e1 + H_MID e1 + H_BOT e1 - 8;
                       inflightForBin =
                         length (filter (\<lambda>q. binEq (q_bin q) (gt_bin gt)) (statParticles e1));
                       level = (case gt_bin gt of None \<Rightarrow> 0 | Some b \<Rightarrow> cell (botCounts e1) b)
                               + inflightForBin;
                       targetY = botBase - real level * BOX_BOT_Y e1 - BOX_BOT_Y e1 / 2
                   in e1\<lparr>statParticles := statParticles e1 @
                            [\<lparr>q_x = binCenterX e1 (gt_bin gt), q_y = gt_y gt, q_vy = 0,
                              q_targetY = targetY, q_bin = gt_bin gt\<rparr>],
                          gathering := False, gatherTarget := None, gatherParticles := [],
                          lastGatheringSample := None\<rparr>)
                else e1))"

text \<open>The loop over \<^verbatim>\<open>this.statParticles\<close> has the same shape as the one
  over the sample particles, with \<open>botCounts\<close> and the particle's bin.\<close>

definition statStep :: "real \<Rightarrow> real \<Rightarrow> statParticle \<Rightarrow> statParticle" where
  "statStep g dt p =
     (let vy = q_vy p + g * dt
      in p\<lparr>q_vy := vy, q_y := min (q_y p + vy * dt) (q_targetY p)\<rparr>)"

definition statInFlight :: "statParticle \<Rightarrow> bool" where
  "statInFlight p \<longleftrightarrow> q_y p < q_targetY p - 0.1"

fun fallStats ::
  "real \<Rightarrow> real \<Rightarrow> statParticle list \<Rightarrow> statParticle list \<Rightarrow> 32 word list
   \<Rightarrow> statParticle list \<times> 32 word list" where
  "fallStats g dt [] survivors bc = (survivors, bc)"
| "fallStats g dt (p # ps) survivors bc =
     (let p' = statStep g dt p
      in if statInFlight p' then fallStats g dt ps (survivors @ [p']) bc
         else fallStats g dt ps survivors (bumpBin bc (q_bin p')))"

definition tickStats :: "real \<Rightarrow> real \<Rightarrow> engine \<Rightarrow> engine" where
  "tickStats g dt e =
     (if length (statParticles e) \<noteq> 0 then
        (let (survivors, bc) = fallStats g dt (statParticles e) [] (botCounts e)
         in e\<lparr>botCounts := bc, statParticles := survivors\<rparr>)
      else e)"

definition tick :: "real \<Rightarrow> real \<Rightarrow> engine \<Rightarrow> engine" where
  "tick dt now e =
     (let hadAnimations = hasActiveAnimations e;
          g = (if speed e = ''fast'' then 2400 else 1400);
          e1 = tickEmission now e;
          e2 = tickSamples g dt e1;
          e3 = tickGather now e2;
          e4 = tickStats g dt e3;
          e5 = e4\<lparr>popFlashes := filter (\<lambda>f. f_until f > now) (popFlashes e4)\<rparr>
      in if hasActiveAnimations e5 \<or> hadAnimations then e5\<lparr>needsRedraw := True\<rparr> else e5)"


section \<open>Engine: rendering and editing\<close>

definition maxOf :: "nat list \<Rightarrow> nat" where
  "maxOf arr = foldl (\<lambda>m v. if v > m then v else m) 0 arr"

definition stackScale :: "real \<Rightarrow> real \<Rightarrow> nat list \<Rightarrow> real" where
  "stackScale box h counts =
     (let need = real (maxOf counts) * box
      in if need > 0 then min 1 ((h - 28) / need) else 1)"

text \<open>\<^verbatim>\<open>draw\<close>: its effect on the engine is the three scaled box heights and the cleared
  flag; its effect on the drawing surface is one repaint.\<close>

definition draw :: "engine \<Rightarrow> engine" where
  "draw e =
     (case ctx e of
        None \<Rightarrow> e
      | Some c \<Rightarrow>
          if \<not> needsRedraw e then e
          else e\<lparr>BOX_TOP_Y := BOX e * stackScale (BOX e) (H_TOP e) (map unat (popCounts e)),
                 BOX_MID_Y := BOX e * stackScale (BOX e) (H_MID e) (map unat (midCounts e)),
                 BOX_BOT_Y := BOX e * stackScale (BOX e) (H_BOT e) (map unat (botCounts e)),
                 ctx := Some (c\<lparr>repaints := repaints c + 1\<rparr>),
                 needsRedraw := False\<rparr>)"

text \<open>The column under a pointer position; \<open>BOX\<close> is at least 6 after
  \<^verbatim>\<open>resetGeometry\<close>.\<close>

definition pointerCol :: "engine \<Rightarrow> real \<Rightarrow> nat" where
  "pointerCol e xCanvas = nat (clampi \<lfloor>(xCanvas - gridX0 e) / BOX e\<rfloor> 0 (int COLS - 1))"

definition clickPopulation :: "real \<Rightarrow> real \<Rightarrow> engine \<Rightarrow> engine" where
  "clickPopulation xCanvas yCanvas e =
     (if yCanvas > marginY e + H_TOP e then e
      else (let col = pointerCol e xCanvas
            in e\<lparr>popCounts := (popCounts e)
                    [col := word_of_int (clampi (int (cell (popCounts e) col) + 1) 0 10000)],
                  needsRedraw := True\<rparr>))"

definition altClickPopulation :: "real \<Rightarrow> real \<Rightarrow> engine \<Rightarrow> engine" where
  "altClickPopulation xCanvas yCanvas e =
     (if yCanvas > marginY e + H_TOP e then e
      else (let col = pointerCol e xCanvas
            in e\<lparr>popCounts := (popCounts e)
                    [col := word_of_int (clampi (int (cell (popCounts e) col) - 1) 0 10000)],
                  needsRedraw := True\<rparr>))"

section \<open>Engine: sampling requests\<close>

definition startSample :: "real \<Rightarrow> num \<Rightarrow> real \<Rightarrow> engine \<Rightarrow> error + engine" where
  "startSample now n dropMs e =
     (case sampleN n e of
        Inl err \<Rightarrow> Inl err
      | Inr (xs, cols, e') \<Rightarrow> Inr (scheduleEmission now xs cols dropMs e'))"

definition hasSampleInMid :: "engine \<Rightarrow> bool" where
  "hasSampleInMid e = list_ex (\<lambda>i. cell (midCounts e) i > 0) [0..<COLS]"

text \<open>The values of the landed sample, rebuilt from the sample histogram.\<close>

definition midValues :: "engine \<Rightarrow> real list" where
  "midValues e = concat (map (\<lambda>c. replicate (cell (midCounts e) c) (colValue c)) [0..<COLS])"

definition midGatherParticles :: "engine \<Rightarrow> gatherParticle list" where
  "midGatherParticles e =
     (let midBase = marginY e + H_TOP e + H_MID e - 16
      in concat (map (\<lambda>c. map (\<lambda>r. (let startY = midBase - real r * BOX_MID_Y e - BOX_MID_Y e / 2;
                                       startX = colCenter e c
                                   in \<lparr>g_sx = startX, g_sy = startY,
                                       g_x = Fin startX, g_y = Fin startY\<rparr>))
                          [0..<cell (midCounts e) c])
                   [0..<COLS]))"

definition calculateWithGather :: "real \<Rightarrow> engine \<Rightarrow> engine" where
  "calculateWithGather now e =
     (let xs = lastSample e; hasMid = hasSampleInMid e
      in if length xs = 0 \<and> \<not> hasMid then e
         else
           (let sample = (if length xs \<noteq> 0 then xs else midValues e);
                val = computeStat e sample;
                bin = binOf val (statDomain e);
                gatherX = binCenterX e bin;
                gatherY = marginY e + H_TOP e + H_MID e / 2
            in e\<lparr>lastGatheringSample := Some sample,
                  gatherParticles := midGatherParticles e,
                  midCounts := zeros16,
                  gatherTarget := Some \<lparr>gt_x = gatherX, gt_y = gatherY, gt_bin = bin\<rparr>,
                  gathering := True,
                  gatherStart := now,
                  lastSample := []\<rparr>))"

text \<open>
  \<^verbatim>\<open>drawSampleWithAutoCalculate\<close> either starts the sample itself, or starts a gather and
  registers \<^verbatim>\<open>setTimeout(() => this.startSample(n, dropMs), 100)\<close>. The registered
  callback is returned as \<open>Some (n, dropMs)\<close>; the host runs it later with \<open>timerFire\<close>.
\<close>

definition drawSampleWithAutoCalculate ::
  "real \<Rightarrow> num \<Rightarrow> real \<Rightarrow> engine \<Rightarrow> error + (engine \<times> (num \<times> real) option)" where
  "drawSampleWithAutoCalculate now n dropMs e =
     (if length (lastSample e) \<noteq> 0 \<or> hasSampleInMid e then
        Inr (calculateWithGather now e, Some (n, dropMs))
      else (case startSample now n dropMs e of
              Inl err \<Rightarrow> Inl err
            | Inr e' \<Rightarrow> Inr (e', None)))"

definition timerFire :: "real \<Rightarrow> num \<times> real \<Rightarrow> engine \<Rightarrow> error + engine" where
  "timerFire now cb e = startSample now (fst cb) (snd cb) e"

definition clearTray :: "engine \<Rightarrow> engine" where
  "clearTray e =
     e\<lparr>midCounts := zeros16, lastSample := [], sampleParticles := [], emissionPlan := None,
       gatherParticles := [], gathering := False, needsRedraw := True\<rparr>"

definition resetExperiment :: "engine \<Rightarrow> engine" where
  "resetExperiment e = e\<lparr>botCounts := zeros32, statParticles := [], needsRedraw := True\<rparr>"

text \<open>The body of the \<^verbatim>\<open>for (let i = 0; i < 1000; i++)\<close> loop of
  \<^verbatim>\<open>handleRepeatTurbo\<close>, with \<open>i\<close> iterations left.\<close>

fun turboLoop :: "nat \<Rightarrow> num \<Rightarrow> engine \<Rightarrow> error + engine" where
  "turboLoop 0 n e = Inr e"
| "turboLoop (Suc i) n e =
     (case sampleN n e of
        Inl err \<Rightarrow> Inl err
      | Inr (xs, cols, e') \<Rightarrow>
          (let v = computeStat e' xs;
               bin = binOf v (statDomain e')
           in turboLoop i n (e'\<lparr>botCounts := bumpBin (botCounts e') bin\<rparr>)))"

definition handleRepeatTurbo :: "num \<Rightarrow> engine \<Rightarrow> error + engine" where
  "handleRepeatTurbo n e =
     (case turboLoop 1000 n e of
        Inl err \<Rightarrow> Inl err
      | Inr e' \<Rightarrow> Inr (e'\<lparr>needsRedraw := True\<rparr>))"

section \<open>Control handlers\<close>

text \<open>The listeners that \<^verbatim>\<open>setupControls\<close> and \<^verbatim>\<open>setupCanvas\<close> attach, as far as they
  touch the engine. \<open>n\<close> is the sample size held by the controls
  (\<^verbatim>\<open>parseInt\<close> of the slider value).\<close>

definition statisticSelect_change :: "string \<Rightarrow> engine \<Rightarrow> engine" where
  "statisticSelect_change v e = e\<lparr>statistic := v, needsRedraw := True\<rparr>"

definition thresholdSlider_input :: "num \<Rightarrow> engine \<Rightarrow> engine" where
  "thresholdSlider_input v e = e\<lparr>threshold := v, needsRedraw := True\<rparr>"

definition paramLineCheckbox_change :: "bool \<Rightarrow> engine \<Rightarrow> engine" where
  "paramLineCheckbox_change b e = e\<lparr>showParamLine := b, needsRedraw := True\<rparr>"

definition normalFitCheckbox_change :: "bool \<Rightarrow> engine \<Rightarrow> engine" where
  "normalFitCheckbox_change b e = e\<lparr>showNormalFit := b, needsRedraw := True\<rparr>"

definition speedSelect_change :: "string \<Rightarrow> engine \<Rightarrow> engine" where
  "speedSelect_change v e = e\<lparr>speed := v\<rparr>"

definition seedInput_input :: "int \<Rightarrow> engine \<Rightarrow> engine" where
  "seedInput_input seed e = e\<lparr>rng := rngMulberry32 seed\<rparr>"

definition resizeCanvas :: "real \<Rightarrow> real \<Rightarrow> engine \<Rightarrow> engine" where
  "resizeCanvas plotW' canvasH e = (layoutFromViewport plotW' canvasH e)\<lparr>needsRedraw := True\<rparr>"

definition drawSampleBtn_click ::
  "real \<Rightarrow> num \<Rightarrow> engine \<Rightarrow> error + (engine \<times> (num \<times> real) option)" where
  "drawSampleBtn_click now n e =
     (let validation = validateSampleSize n
      in if \<not> valid validation then Inr (e, None)
         else drawSampleWithAutoCalculate now n 1200 e)"

definition repeat1000Btn_click :: "num \<Rightarrow> engine \<Rightarrow> error + engine" where
  "repeat1000Btn_click n e =
     (let validation = validateSampleSize n
      in if \<not> valid validation then Inr e
         else handleRepeatTurbo n e)"

definition resetBtn_click :: "engine \<Rightarrow> engine" where
  "resetBtn_click e = resetExperiment (clearTray e)"

section \<open>A run with two sampling requests\<close>

text \<open>
  A fresh engine receives a request for a sample of size 2 at time 0 (drop duration
  1200 ms); the host ticks once at time 600; a second request arrives at time 600, while
  the first emission is active; its timer callback runs at time 700. The host then ticks
  every 60 ms, from time 1900 to time 2680, with the step \<open>dt = 0.06\<close> that the
  animation loop passes for frames at least 60 ms apart.
\<close>

definition c2_first :: engine where
  "c2_first =
     (case drawSampleWithAutoCalculate 0 (Fin 2) 1200 (newEngine None) of
        Inr (e, cb) \<Rightarrow> e
      | Inl err \<Rightarrow> newEngine None)"

definition c2_tick :: engine where
  "c2_tick = tick (6 / 100) 600 c2_first"

definition c2_second :: engine where
  "c2_second =
     (case drawSampleWithAutoCalculate 600 (Fin 2) 1200 c2_tick of
        Inr (e, cb) \<Rightarrow> e
      | Inl err \<Rightarrow> c2_tick)"

definition c2_timer :: engine where
  "c2_timer =
     (case timerFire 700 (Fin 2, 1200) c2_second of
        Inr e \<Rightarrow> e
      | Inl err \<Rightarrow> c2_second)"

definition c2_t1 :: engine where
  "c2_t1 = tick (6 / 100) 1900 c2_timer"

definition c2_t2 :: engine where
  "c2_t2 = tick (6 / 100) 1960 c2_t1"

definition c2_t3 :: engine where
  "c2_t3 = tick (6 / 100) 2020 c2_t2"

definition c2_t4 :: engine where
  "c2_t4 = tick (6 / 100) 2080 c2_t3"

definition c2_t5 :: engine where
  "c2_t5 = tick (6 / 100) 2140 c2_t4"

definition c2_t6 :: engine where
  "c2_t6 = tick (6 / 100) 2200 c2_t5"

definition c2_t7 :: engine where
  "c2_t7 = tick (6 / 100) 2260 c2_t6"

definition c2_t8 :: engine where
  "c2_t8 = tick (6 / 100) 2320 c2_t7"

definition c2_t9 :: engine where
  "c2_t9 = tick (6 / 100) 2380 c2_t8"

definition c2_t10 :: engine where
  "c2_t10 = tick (6 / 100) 2440 c2_t9"

definition c2_t11 :: engine where
  "c2_t11 = tick (6 / 100) 2500 c2_t10"

definition c2_t12 :: engine where
  "c2_t12 = tick (6 / 100) 2560 c2_t11"

definition c2_t13 :: engine where
  "c2_t13 = tick (6 / 100) 2620 c2_t12"

definition c2_t14 :: engine where
  "c2_t14 = tick (6 / 100) 2680 c2_t13"

section \<open>A sampling request on an engine at rest\<close>

text \<open>
  An engine in which a sample of two values has landed in the sample tier and has been
  painted, so the redraw flag is clear; and the same engine after
  \<^verbatim>\<open>startSample(2, 1200)\<close> at time 0.
\<close>

definition c7_clean :: engine where
  "c7_clean =
     (newEngine (Some \<lparr>repaints = 1\<rparr>))
       \<lparr>midCounts := zeros16[15 := 1, 45 := 1], lastSample := [colValue 15, colValue 45],
        needsRedraw := False\<rparr>"

definition c7_started :: engine where
  "c7_started =
     (case startSample 0 (Fin 2) 1200 c7_clean of
        Inr e \<Rightarrow> e
      | Inl err \<Rightarrow> c7_clean)"

section \<open>Definitions that follow the specification\<close>

text \<open>The unbiased sample variance as the specification words it: the sum of squared
  deviations from the mean, divided by \<open>n - 1\<close>. The sums, the deviations, the squares
  and the two quotients are in double precision, and a sum adds its terms from left to
  right. For fewer than two values the last quotient is \<open>0 / 0\<close>, so the variance is
  NaN.\<close>

definition dbl_sum :: "num list \<Rightarrow> num" where
  "dbl_sum xs = foldl (num_add dbl) (Fin 0) xs"

definition spec_mean :: "real list \<Rightarrow> num" where
  "spec_mean a = div_length (dbl_sum (map dbl a)) (length a)"

definition spec_unbiasedVariance :: "real list \<Rightarrow> num" where
  "spec_unbiasedVariance a =
     div_length (dbl_sum (map (\<lambda>x. square (num_sub dbl (dbl x) (spec_mean a))) a)) (length a - 1)"

section \<open>Properties\<close>

subsection \<open>Double precision\<close>

lemma dbl_not_NaN: "dbl x \<noteq> NaN"
  by (simp add: dbl_def Let_def)

lemma dbl_zero: "dbl 0 = Fin 0"
  by (simp add: dbl_def)

lemma dbl_ulp_pos: "0 < dbl_ulp x"
  by (simp add: dbl_ulp_def)

lemma round_even_int: "round_even (real_of_int m) = m"
  by (simp add: round_even_def)

lemma round_even_err: "\<bar>real_of_int (round_even q) - q\<bar> \<le> 1 / 2"
  unfolding round_even_def Let_def by (auto simp: abs_if) linarith+

lemma dbl_on_grid:
  assumes "x \<noteq> 0" and "x / dbl_ulp x = real_of_int m"
  shows "dbl x = (if 2 ^ 1024 \<le> x then PInf else if x \<le> - (2 ^ 1024) then NInf else Fin x)"
proof -
  have "round_even (x / dbl_ulp x) = m"
    by (simp only: assms(2) round_even_int)
  moreover have "real_of_int m * dbl_ulp x = x"
    using dbl_ulp_pos [of x] by (simp add: assms(2) [symmetric])
  ultimately have "real_of_int (round_even (x / dbl_ulp x)) * dbl_ulp x = x"
    by simp
  with assms(1) show ?thesis
    by (simp add: dbl_def Let_def)
qed

lemma dbl_exact:
  assumes "x \<noteq> 0" and "\<bar>x\<bar> < 2 ^ 1024" and "x / dbl_ulp x = real_of_int m"
  shows "dbl x = Fin x"
proof -
  have "round_even (x / dbl_ulp x) = m"
    by (simp only: assms(3) round_even_int)
  moreover have "real_of_int m * dbl_ulp x = x"
    using dbl_ulp_pos [of x] by (simp add: assms(3) [symmetric])
  ultimately have "real_of_int (round_even (x / dbl_ulp x)) * dbl_ulp x = x"
    by simp
  with assms(1,2) show ?thesis
    by (simp add: dbl_def Let_def abs_if split: if_splits)
qed

lemma floor_log2_le:
  assumes "x \<noteq> 0" and "\<bar>x\<bar> < 2 powr real_of_int k"
  shows "\<lfloor>log 2 \<bar>x\<bar>\<rfloor> < k"
proof -
  from assms have "log 2 \<bar>x\<bar> < real_of_int k"
    by (simp add: log_less_iff)
  then show ?thesis by (simp add: floor_less_iff)
qed

lemma dbl_ulp_bound:
  assumes "x \<noteq> 0" and "\<bar>x\<bar> \<le> 2 ^ 1023"
  shows "dbl_ulp x \<le> 2 ^ 971"
proof -
  have "\<bar>x\<bar> < 2 powr real_of_int 1024"
    using assms(2) by (simp add: powr_realpow [symmetric] del: powr_numeral) 
  from floor_log2_le [OF assms(1) this] have "\<lfloor>log 2 \<bar>x\<bar>\<rfloor> \<le> 1023" by simp
  then have "real_of_int (max \<lfloor>log 2 \<bar>x\<bar>\<rfloor> (- 1022) - 52) \<le> 971" by simp
  then have "dbl_ulp x \<le> 2 powr 971"
    unfolding dbl_ulp_def by (subst powr_le_cancel_iff) simp_all
  then show ?thesis by simp
qed

lemma dbl_finite:
  assumes "\<bar>x\<bar> \<le> 2 ^ 1023"
  shows "\<exists>r. dbl x = Fin r"
proof (cases "x = 0")
  case True
  then show ?thesis by (simp add: dbl_def)
next
  case False
  define u where "u = dbl_ulp x"
  define q where "q = x / u"
  define r where "r = real_of_int (round_even q) * u"
  have u: "0 < u" "u \<le> 2 ^ 971"
    using dbl_ulp_pos [of x] dbl_ulp_bound [OF False assms] by (simp_all add: u_def)
  have "\<bar>real_of_int (round_even q) - q\<bar> \<le> 1 / 2" by (rule round_even_err)
  then have "\<bar>real_of_int (round_even q) - q\<bar> * u \<le> 1 / 2 * u"
    using u(1) by (intro mult_right_mono) simp_all
  moreover have "\<bar>real_of_int (round_even q) - q\<bar> * u = \<bar>r - x\<bar>"
  proof -
    have "q * u = x" using u(1) by (simp add: q_def)
    then have "r - x = (real_of_int (round_even q) - q) * u"
      by (simp add: r_def left_diff_distrib)
    then show ?thesis using u(1) by (simp add: abs_mult)
  qed
  ultimately have "\<bar>r - x\<bar> \<le> u / 2" by simp
  moreover define A :: real where "A = 2 ^ 971"
  have p: "(2 :: real) ^ 1023 = 4503599627370496 * A" "(2 :: real) ^ 1024 = 9007199254740992 * A"
    "0 < A"
    by (simp_all add: A_def)
  have "u \<le> A" using u(2) by (simp only: A_def)
  moreover have "\<bar>x\<bar> \<le> 4503599627370496 * A" using assms by (simp only: p)
  ultimately have "\<bar>r\<bar> < 9007199254740992 * A" using p(3) by linarith
  then have "\<bar>r\<bar> < 2 ^ 1024" by (simp only: p)
  then have "dbl x = Fin r"
    using False by (simp add: dbl_def Let_def r_def q_def u_def abs_if split: if_splits)
  then show ?thesis by blast
qed

lemma dbl_ulp_eq:
  assumes "2 powr real_of_int k \<le> \<bar>x\<bar>" and "\<bar>x\<bar> < 2 powr (real_of_int k + 1)"
    and "- 1022 \<le> k"
  shows "dbl_ulp x = 2 powr real_of_int (k - 52)"
proof -
  have "0 < \<bar>x\<bar>" using assms(1) powr_gt_zero [of 2 "real_of_int k"] by linarith
  then have "\<lfloor>log 2 \<bar>x\<bar>\<rfloor> = k"
    using assms(1,2) by (subst floor_log_eq_powr_iff) simp_all
  with assms(3) show ?thesis by (simp add: dbl_ulp_def)
qed

lemma dbl_pow2:
  "dbl (2 ^ k) = (if k < 1024 then Fin (2 ^ k) else PInf)"
  "dbl (- (2 ^ k)) = (if k < 1024 then Fin (- (2 ^ k)) else NInf)"
proof -
  have p: "(2 :: real) ^ k = 2 powr real_of_int (int k)"
    by (simp add: powr_realpow)
  have "2 powr real_of_int (int k) \<le> \<bar>(2 :: real) ^ k\<bar>"
    "\<bar>(2 :: real) ^ k\<bar> < 2 powr (real_of_int (int k) + 1)"
    by (simp_all add: powr_realpow powr_add)
  then have u: "dbl_ulp (2 ^ k) = 2 powr real_of_int (int k - 52)"
    by (rule dbl_ulp_eq) simp
  then have u': "dbl_ulp (- (2 ^ k)) = 2 powr real_of_int (int k - 52)"
    by (simp add: dbl_ulp_def)
  have q: "(2 :: real) ^ k / 2 powr real_of_int (int k - 52) = real_of_int (2 ^ 52)"
    by (simp add: p powr_diff [symmetric] del: of_int_of_nat_eq) 
  have g1: "(2 :: real) ^ k / dbl_ulp (2 ^ k) = real_of_int (2 ^ 52)"
    by (simp only: u q)
  have g2: "- ((2 :: real) ^ k) / dbl_ulp (- (2 ^ k)) = real_of_int (- (2 ^ 52))"
    using q by (simp only: u' minus_divide_left [symmetric] of_int_minus)
  have "(2 :: real) ^ 1024 \<le> 2 ^ k \<longleftrightarrow> 1024 \<le> k"
    by (rule power_increasing_iff) simp
  then have c: "(2 :: real) ^ 1024 \<le> 2 ^ k \<longleftrightarrow> \<not> k < 1024"
    by (simp only: not_less)
  have n: "\<not> (2 :: real) ^ 1024 \<le> - (2 ^ k)"
  proof -
    have "- ((2 :: real) ^ k) < 0" by simp
    moreover have "(0 :: real) < 2 ^ 1024" by simp
    ultimately show ?thesis by linarith
  qed
  have n': "\<not> (2 :: real) ^ k \<le> - (2 ^ 1024)"
  proof -
    have "- ((2 :: real) ^ 1024) < 0" by simp
    moreover have "(0 :: real) < 2 ^ k" by simp
    ultimately show ?thesis by linarith
  qed
  show "dbl (2 ^ k) = (if k < 1024 then Fin (2 ^ k) else PInf)"
    using dbl_on_grid [OF _ g1] c n' by (simp del: power_numeral)
  show "dbl (- (2 ^ k)) = (if k < 1024 then Fin (- (2 ^ k)) else NInf)"
    using dbl_on_grid [OF _ g2] c n by (simp del: power_numeral)
qed

lemma dbl_int:
  assumes "\<bar>n\<bar> < 2 ^ 53"
  shows "dbl (real_of_int n) = Fin (real_of_int n)"
proof (cases "n = 0")
  case True
  then show ?thesis by (simp add: dbl_def)
next
  case False
  define x where "x = real_of_int n"
  define e where "e = \<lfloor>log 2 \<bar>x\<bar>\<rfloor>"
  have x0: "x \<noteq> 0" "1 \<le> \<bar>x\<bar>" using False by (simp_all add: x_def)
  have "\<bar>x\<bar> < 2 powr real_of_int 53"
    using assms by (simp add: x_def)
  from floor_log2_le [OF x0(1) this] have e1: "e \<le> 52" by (simp add: e_def)
  have "0 \<le> log 2 \<bar>x\<bar>" using x0(2) by simp
  then have e0: "0 \<le> e" by (simp add: e_def)
  define j where "j = nat (52 - e)"
  have u: "dbl_ulp x = 2 powr (- real j)"
    using e0 e1 by (simp add: dbl_ulp_def e_def [symmetric] j_def)
  have "x / dbl_ulp x = x * 2 ^ j"
    by (simp add: u powr_minus powr_realpow field_simps)
  also have "\<dots> = real_of_int (n * 2 ^ j)" by (simp add: x_def)
  finally have g: "x / dbl_ulp x = real_of_int (n * 2 ^ j)" .
  have "\<bar>x\<bar> < 2 ^ 1024"
  proof -
    have "\<bar>x\<bar> < 2 ^ 53"
      using assms by (simp add: x_def)
    moreover have "(2 :: real) ^ 53 \<le> 2 ^ 1024" by simp
    ultimately show ?thesis by linarith
  qed
  from dbl_exact [OF x0(1) this g] show ?thesis by (simp add: x_def)
qed

lemma dbl_numeral:
  "numeral k < (2 :: int) ^ 53 \<Longrightarrow> dbl (numeral k) = Fin (numeral k)"
  "numeral k < (2 :: int) ^ 53 \<Longrightarrow> dbl (- numeral k) = Fin (- numeral k)"
  "dbl 1 = Fin 1" "dbl (- 1) = Fin (- 1)"
  using dbl_int [of "numeral k"] dbl_int [of "- numeral k"] dbl_int [of 1] dbl_int [of "- 1"]
  by simp_all

lemma dbl_err:
  assumes "x \<noteq> 0"
  shows "\<bar>real_of_int (round_even (x / dbl_ulp x)) * dbl_ulp x - x\<bar> \<le> dbl_ulp x / 2"
proof -
  define u where "u = dbl_ulp x"
  define q where "q = x / u"
  define r where "r = real_of_int (round_even q) * u"
  have u: "0 < u" using dbl_ulp_pos [of x] by (simp add: u_def)
  have "\<bar>real_of_int (round_even q) - q\<bar> \<le> 1 / 2" by (rule round_even_err)
  then have "\<bar>real_of_int (round_even q) - q\<bar> * u \<le> 1 / 2 * u"
    using u by (intro mult_right_mono) simp_all
  moreover have "\<bar>real_of_int (round_even q) - q\<bar> * u = \<bar>r - x\<bar>"
  proof -
    have "q * u = x" using u by (simp add: q_def)
    then have "r - x = (real_of_int (round_even q) - q) * u"
      by (simp add: r_def left_diff_distrib)
    then show ?thesis using u by (simp add: abs_mult)
  qed
  ultimately show ?thesis by (simp add: r_def q_def u_def)
qed

lemma dbl_near:
  assumes "\<bar>x\<bar> \<le> 1"
  shows "\<exists>r. dbl x = Fin r \<and> \<bar>r - x\<bar> \<le> 1 / 9007199254740992"
proof (cases "x = 0")
  case True
  then show ?thesis by (simp add: dbl_def)
next
  case False
  define r where "r = real_of_int (round_even (x / dbl_ulp x)) * dbl_ulp x"
  have "\<bar>x\<bar> < 2 powr real_of_int 1" using assms by simp
  from floor_log2_le [OF False this] have "\<lfloor>log 2 \<bar>x\<bar>\<rfloor> \<le> 0" by simp
  then have "real_of_int (max \<lfloor>log 2 \<bar>x\<bar>\<rfloor> (- 1022) - 52) \<le> - 52" by simp
  then have "dbl_ulp x \<le> 2 powr (- 52)"
    unfolding dbl_ulp_def by (subst powr_le_cancel_iff) simp_all
  then have u: "dbl_ulp x \<le> 1 / 2 ^ 52" by (simp add: powr_minus_divide)
  from dbl_err [OF False] have e: "\<bar>r - x\<bar> \<le> dbl_ulp x / 2" by (simp add: r_def)
  with u have near: "\<bar>r - x\<bar> \<le> 1 / 9007199254740992" by simp
  with assms have "\<bar>r\<bar> \<le> 2" by linarith
  moreover have "(2 :: real) < 2 ^ 1024"
    using power_strict_increasing [of 1 1024 "2 :: real"] by simp
  ultimately have "\<not> 2 ^ 1024 \<le> r" "\<not> r \<le> - (2 ^ 1024)" by linarith+
  then have "dbl x = Fin r"
    using False by (simp add: dbl_def Let_def r_def del: power_numeral)
  with near show ?thesis by blast
qed

subsection \<open>Standard deviation\<close>

lemma mean_eq: "a \<noteq> [] \<Longrightarrow> mean a = spec_mean a"
  by (simp add: mean_def spec_mean_def dbl_sum_def foldl_map)

lemma varianceUnbiased_short: "length a < 2 \<Longrightarrow> varianceUnbiased a = NaN"
  by (simp add: varianceUnbiased_def)

lemma varianceUnbiased_eq:
  assumes "2 \<le> length a"
  shows "varianceUnbiased a = spec_unbiasedVariance a"
proof -
  from assms have ne: "a \<noteq> []" by auto
  with assms show ?thesis
    by (simp add: varianceUnbiased_def mean_eq spec_unbiasedVariance_def dbl_sum_def foldl_map
        Let_def)
qed

lemma robustSD_not_NaN: "robustSD a \<noteq> NaN"
  by (cases "varianceUnbiased a") (simp_all add: robustSD_def dbl_not_NaN)

text \<open>The computed variance is never negative: a square is not negative, a sum of
  such terms is not negative, and rounding keeps the sign.\<close>

lemma round_even_nonneg: "0 \<le> q \<Longrightarrow> 0 \<le> round_even q"
  by (simp add: round_even_def Let_def)

lemma dbl_nonneg:
  assumes "0 \<le> x"
  shows "nonneg (dbl x)"
proof -
  define r where "r = real_of_int (round_even (x / dbl_ulp x)) * dbl_ulp x"
  have "0 \<le> x / dbl_ulp x" using assms dbl_ulp_pos [of x] by simp
  then have "0 \<le> round_even (x / dbl_ulp x)" by (rule round_even_nonneg)
  then have "0 \<le> r" using dbl_ulp_pos [of x] by (simp add: r_def)
  moreover have "- ((2 :: real) ^ 1024) < 0" by simp
  ultimately have "\<not> r \<le> - (2 ^ 1024)" "0 \<le> r" by linarith+
  then show ?thesis
    by (simp add: dbl_def Let_def r_def [symmetric] del: power_numeral)
qed

lemma square_nonneg: "nonneg (square x)"
  by (cases x) (simp_all add: square_def dbl_nonneg)

lemma num_add_nonneg: "nonneg a \<Longrightarrow> nonneg b \<Longrightarrow> nonneg (num_add dbl a b)"
  by (cases a; cases b) (simp_all add: dbl_nonneg)

lemma dbl_sum_nonneg:
  "nonneg z \<Longrightarrow> \<forall>x \<in> set xs. nonneg x \<Longrightarrow> nonneg (foldl (num_add dbl) z xs)"
  by (induction xs arbitrary: z) (simp_all add: num_add_nonneg)

lemma div_length_nonneg: "nonneg a \<Longrightarrow> nonneg (div_length a k)"
  by (cases a) (simp_all add: div_length_def dbl_nonneg)

lemma spec_unbiasedVariance_nonneg: "nonneg (spec_unbiasedVariance a)"
  unfolding spec_unbiasedVariance_def dbl_sum_def
  by (intro div_length_nonneg dbl_sum_nonneg) (simp_all add: square_nonneg)

lemma varianceUnbiased_nonneg: "nonneg (varianceUnbiased a)"
proof (cases "2 \<le> length a")
  case True
  then show ?thesis
    using spec_unbiasedVariance_nonneg [of a] by (simp add: varianceUnbiased_eq)
next
  case False
  then show ?thesis by (simp add: varianceUnbiased_short)
qed

text \<open>Two runs of the statistics: integers small enough for every intermediate result to
  be exact, and two values whose squared deviations overflow.\<close>

lemma variance_small:
  "spec_unbiasedVariance [1, 2, 3] = Fin 1"
  by (simp add: spec_unbiasedVariance_def spec_mean_def dbl_sum_def square_def num_sub_def
      div_length_def dbl_numeral dbl_zero)

lemma variance_overflow:
  "spec_unbiasedVariance [2 ^ 600, - (2 ^ 600)] = PInf"
proof -
  define B :: real where "B = 2 ^ 600"
  have B: "dbl B = Fin B" "dbl (- B) = Fin (- B)" "B \<noteq> 0"
    by (simp_all add: B_def dbl_pow2 del: power_numeral)
  have "B * B = 2 ^ 1200" by (simp add: B_def power_add [symmetric] del: power_numeral)
  then have BB: "dbl (B * B) = PInf" by (simp add: dbl_pow2 del: power_numeral)
  have m: "spec_mean [B, - B] = Fin 0"
    by (simp add: spec_mean_def dbl_sum_def div_length_def B dbl_zero)
  have "spec_unbiasedVariance [B, - B] = PInf"
    by (simp add: spec_unbiasedVariance_def m dbl_sum_def square_def num_sub_def div_length_def
        B BB)
  then show ?thesis by (simp only: B_def)
qed

text \<open>
  Claim C3. \<^verbatim>\<open>robustSD\<close> returns 0, and never NaN, whenever the unbiased variance is
  undefined (fewer than two values, so also for the empty and the one-element array) or
  fails the guard \<^verbatim>\<open>isFinite(v) && v >= 0\<close>. For an array of at least two values the
  variance computed by the two loops of \<^verbatim>\<open>varianceUnbiased\<close> is the sum of squared
  deviations from the mean divided by \<open>n - 1\<close>, in double precision; when that variance
  is finite and not negative, \<^verbatim>\<open>robustSD\<close> returns its square root, rounded to a
  double; when it is not (the squared deviations overflow to an infinity), \<^verbatim>\<open>robustSD\<close>
  returns 0. A finite computed variance is never negative.
\<close>

theorem robustSD_zero_fallback:
  "(length a < 2 \<longrightarrow> robustSD a = Fin 0)
   \<and> (\<not> (isFinite (varianceUnbiased a) \<and> num_ge (varianceUnbiased a) 0) \<longrightarrow> robustSD a = Fin 0)
   \<and> (2 \<le> length a \<longrightarrow> varianceUnbiased a = spec_unbiasedVariance a)
   \<and> (2 \<le> length a \<and> spec_unbiasedVariance a = Fin v \<and> 0 \<le> v \<longrightarrow> robustSD a = dbl (sqrt v))
   \<and> (2 \<le> length a
        \<and> \<not> (isFinite (spec_unbiasedVariance a) \<and> num_ge (spec_unbiasedVariance a) 0) \<longrightarrow>
        robustSD a = Fin 0)
   \<and> (varianceUnbiased a = Fin v \<longrightarrow> 0 \<le> v)
   \<and> robustSD a \<noteq> NaN"
proof (intro conjI impI)
  assume "length a < 2"
  then show "robustSD a = Fin 0"
    by (simp add: robustSD_def varianceUnbiased_short)
next
  assume "\<not> (isFinite (varianceUnbiased a) \<and> num_ge (varianceUnbiased a) 0)"
  then show "robustSD a = Fin 0"
    by (auto simp: robustSD_def Let_def)
next
  assume "2 \<le> length a"
  then show "varianceUnbiased a = spec_unbiasedVariance a"
    by (rule varianceUnbiased_eq)
next
  assume "2 \<le> length a \<and> spec_unbiasedVariance a = Fin v \<and> 0 \<le> v"
  then show "robustSD a = dbl (sqrt v)"
    by (simp add: robustSD_def varianceUnbiased_eq)
next
  assume "2 \<le> length a
    \<and> \<not> (isFinite (spec_unbiasedVariance a) \<and> num_ge (spec_unbiasedVariance a) 0)"
  then show "robustSD a = Fin 0"
    by (auto simp: robustSD_def varianceUnbiased_eq Let_def)
next
  assume "varianceUnbiased a = Fin v"
  with varianceUnbiased_nonneg [of a] show "0 \<le> v" by simp
next
  show "robustSD a \<noteq> NaN" by (rule robustSD_not_NaN)
qed

theorem robustSD_zero_fallback_witness:
  "robustSD [] = Fin 0 \<and> robustSD [7] = Fin 0 \<and> robustSD [1, 2, 3] = Fin 1
   \<and> varianceUnbiased [1, 2, 3] = Fin 1
   \<and> varianceUnbiased [2 ^ 600, - (2 ^ 600)] = PInf
   \<and> robustSD [2 ^ 600, - (2 ^ 600)] = Fin 0"
proof -
  have a: "robustSD [] = Fin 0"
    using robustSD_zero_fallback [of "[]"] by simp
  have b: "robustSD [7] = Fin 0"
    using robustSD_zero_fallback [of "[7]"] by simp
  note t = robustSD_zero_fallback [of "[1, 2, 3]" 1]
  have l: "2 \<le> length [1 :: real, 2, 3]" by simp
  from t l have c1: "varianceUnbiased [1, 2, 3] = spec_unbiasedVariance [1, 2, 3]" by blast
  from t l variance_small have "robustSD [1, 2, 3] = dbl (sqrt 1)" by simp
  then have c2: "robustSD [1, 2, 3] = Fin 1" by (simp add: dbl_numeral)
  note u = robustSD_zero_fallback [of "[2 ^ 600, - (2 ^ 600)]" 0]
  have l': "2 \<le> length [(2 :: real) ^ 600, - (2 ^ 600)]" by simp
  from u l' have d1: "varianceUnbiased [2 ^ 600, - (2 ^ 600)]
      = spec_unbiasedVariance [2 ^ 600, - (2 ^ 600)]"
    by blast
  have "\<not> (isFinite (spec_unbiasedVariance [2 ^ 600, - (2 ^ 600)])
           \<and> num_ge (spec_unbiasedVariance [2 ^ 600, - (2 ^ 600)]) 0)"
    by (simp only: variance_overflow isFinite.simps simp_thms)
  with u l' have d2: "robustSD [2 ^ 600, - (2 ^ 600)] = Fin 0" by blast
  from a b c1 c2 d1 d2 variance_small variance_overflow show ?thesis
    by (simp only: simp_thms)
qed

subsection \<open>Sample-size validation and empty samples\<close>

text \<open>
  Claim C8. \<^verbatim>\<open>validateSampleSize(n)\<close> is invalid exactly when \<open>n < 2\<close> or
  \<open>n > 1000\<close>, so it is valid for every \<open>n\<close> in \<open>[2, 1000]\<close>. It has no access to
  the engine; the click handlers that call it return without touching the engine when
  the result is invalid.
\<close>

theorem validateSampleSize_range:
  "(valid (validateSampleSize (Fin r)) \<longleftrightarrow> 2 \<le> r \<and> r \<le> 1000)
   \<and> (\<not> valid (validateSampleSize n) \<longleftrightarrow> num_lt n 2 \<or> num_gt n 1000)
   \<and> (\<not> valid (validateSampleSize n) \<longrightarrow>
        drawSampleBtn_click now n e = Inr (e, None) \<and> repeat1000Btn_click n e = Inr e)"
  by (cases n) (auto simp: validateSampleSize_def drawSampleBtn_click_def repeat1000Btn_click_def)

theorem validateSampleSize_range_witness:
  "\<not> valid (validateSampleSize (Fin 1)) \<and> \<not> valid (validateSampleSize (Fin 1001))
   \<and> valid (validateSampleSize (Fin 2)) \<and> valid (validateSampleSize (Fin 1000))
   \<and> drawSampleBtn_click 0 (Fin 1) (newEngine None) = Inr (newEngine None, None)
   \<and> repeat1000Btn_click (Fin 1001) (newEngine None) = Inr (newEngine None)"
  using validateSampleSize_range [of 1 "Fin 1" 0 "newEngine None"]
        validateSampleSize_range [of 1001 "Fin 1001" 0 "newEngine None"]
        validateSampleSize_range [of 2 "Fin 2" 0 "newEngine None"]
        validateSampleSize_range [of 1000 "Fin 1000" 0 "newEngine None"]
  by simp

text \<open>
  Claim C9. For every statistic kind \<open>s\<close>, \<^verbatim>\<open>computeStat\<close> of the empty sequence is
  NaN: the guard \<^verbatim>\<open>if (!xs.length) return NaN\<close> comes before the dispatch, so this also
  holds for \<^verbatim>\<open>sd\<close>, although \<^verbatim>\<open>robustSD([])\<close> is 0.
\<close>

theorem computeStat_empty_NaN:
  "computeStat (e\<lparr>statistic := s\<rparr>) [] = NaN
   \<and> computeStat (e\<lparr>statistic := ''sd''\<rparr>) [] = NaN
   \<and> robustSD [] = Fin 0"
  by (simp add: computeStat_def robustSD_def varianceUnbiased_def)


subsection \<open>Statistic-to-bin mapping\<close>

lemma clamp_mono: "x \<le> y \<Longrightarrow> clamp x a b \<le> clamp y a b"
  by (auto simp: clamp_def max_def min_def)

lemma clampi_mono: "x \<le> y \<Longrightarrow> clampi x a b \<le> clampi y a b"
  by (auto simp: clampi_def max_def min_def)

lemma binOf_Fin:
  assumes "fst dm \<le> snd dm"
  shows "binOf (Fin v) dm =
    Some (nat (clampi \<lfloor>clamp ((v - fst dm) / (snd dm - fst dm + 1 / 1000000000)) 0 1 * real STAT_BINS\<rfloor>
                 0 (int STAT_BINS - 1)))"
  using assms by (simp add: binOf_def x01Of_def clampDiv01_def)

lemma binOf_range: "binOf x dm = Some k \<Longrightarrow> k \<le> STAT_BINS - 1"
  by (auto simp: binOf_def clampi_def STAT_BINS_def COLS_def split: num.splits)

lemma binOf_mono:
  assumes dm: "fst dm \<le> snd dm" and vw: "v \<le> w"
  shows "\<exists>i j. binOf (Fin v) dm = Some i \<and> binOf (Fin w) dm = Some j \<and> i \<le> j"
proof -
  let ?d = "snd dm - fst dm + 1 / 1000000000"
  from dm have d: "0 < ?d" by simp
  from vw d have "(v - fst dm) / ?d \<le> (w - fst dm) / ?d"
    by (simp add: divide_right_mono)
  then have "clamp ((v - fst dm) / ?d) 0 1 * real STAT_BINS \<le> clamp ((w - fst dm) / ?d) 0 1 * real STAT_BINS"
    by (intro mult_right_mono clamp_mono) simp_all
  then have "\<lfloor>clamp ((v - fst dm) / ?d) 0 1 * real STAT_BINS\<rfloor> \<le> \<lfloor>clamp ((w - fst dm) / ?d) 0 1 * real STAT_BINS\<rfloor>"
    by (rule floor_mono)
  then have "nat (clampi \<lfloor>clamp ((v - fst dm) / ?d) 0 1 * real STAT_BINS\<rfloor> 0 (int STAT_BINS - 1))
      \<le> nat (clampi \<lfloor>clamp ((w - fst dm) / ?d) 0 1 * real STAT_BINS\<rfloor> 0 (int STAT_BINS - 1))"
    by (intro nat_mono clampi_mono)
  with dm show ?thesis by (simp add: binOf_Fin)
qed

lemma binOf_low:
  assumes dm: "fst dm \<le> snd dm" and v: "v \<le> fst dm"
  shows "binOf (Fin v) dm = Some 0"
proof -
  let ?d = "snd dm - fst dm + 1 / 1000000000"
  from dm have d: "0 < ?d" by simp
  from v d have "(v - fst dm) / ?d \<le> 0"
    by (simp add: divide_le_0_iff)
  then have "clamp ((v - fst dm) / ?d) 0 1 = 0"
    by (simp add: clamp_def)
  with dm show ?thesis
    by (simp add: binOf_Fin clampi_def STAT_BINS_def COLS_def)
qed

lemma clamp_bounds: "a \<le> b \<Longrightarrow> a \<le> clamp x a b \<and> clamp x a b \<le> b"
  by (auto simp: clamp_def max_def min_def)

lemma clamp_ge: "c \<le> x \<Longrightarrow> c \<le> b \<Longrightarrow> c \<le> clamp x a b"
  by (auto simp: clamp_def max_def min_def)

lemma top_bin: "59 / 60 \<le> x \<Longrightarrow> x \<le> 1 \<Longrightarrow> clampi \<lfloor>x * real STAT_BINS\<rfloor> 0 (int STAT_BINS - 1) = 59"
  for x :: real
proof -
  assume "59 / 60 \<le> x" "x \<le> 1"
  then have "59 \<le> x * 60" "x * 60 \<le> 60" by simp_all
  then have "59 \<le> \<lfloor>x * 60\<rfloor>" "\<lfloor>x * 60\<rfloor> \<le> 60"
    by (simp_all add: le_floor_iff floor_le_iff)
  then show ?thesis
    by (simp add: clampi_def STAT_BINS_def COLS_def)
qed

lemma binOf_high:
  assumes dm: "fst dm + 59 / 1000000000 \<le> snd dm" and w: "snd dm \<le> w"
  shows "binOf (Fin w) dm = Some (STAT_BINS - 1)"
proof -
  define d where "d = snd dm - fst dm + 1 / 1000000000"
  define q where "q = (w - fst dm) / d"
  from dm have d: "0 < d" by (simp add: d_def)
  from dm w have "59 * d \<le> 60 * (w - fst dm)" by (simp add: d_def)
  with d have "59 / 60 \<le> q"
    by (simp add: q_def le_divide_eq)
  then have "59 / 60 \<le> clamp q 0 1" "clamp q 0 1 \<le> 1"
    using clamp_ge [of "59 / 60" q 1 0] clamp_bounds [of 0 1 q] by simp_all
  then have "clampi \<lfloor>clamp q 0 1 * real STAT_BINS\<rfloor> 0 (int STAT_BINS - 1) = 59"
    by (rule top_bin)
  moreover from dm have "fst dm \<le> snd dm" by simp
  ultimately show ?thesis
    by (simp add: binOf_Fin q_def d_def STAT_BINS_def COLS_def)
qed

lemma statDomain_width: "fst (statDomain e) + 59 / 1000000000 \<le> snd (statDomain e)"
  by (simp add: statDomain_def)

text \<open>
  Claim C5. The statistic-to-bin mapping returns an index in \<open>[0, STAT_BINS - 1]\<close>
  whenever it returns one, and for a domain \<open>min \<le> max\<close> it returns one for every real
  value, is monotonic non-decreasing in the value, and sends values at or below \<open>min\<close>
  to bin 0; values at or above \<open>max\<close> go to the last bin when the domain is at least
  \<open>59e-9\<close> wide, which both domains of \<^verbatim>\<open>statDomain\<close> are.
\<close>

theorem binOf_monotone_clamped:
  "(binOf x dm = Some k \<longrightarrow> k \<le> STAT_BINS - 1)
   \<and> (fst dm \<le> snd dm \<and> v \<le> w \<longrightarrow>
        (\<exists>i j. binOf (Fin v) dm = Some i \<and> binOf (Fin w) dm = Some j \<and> i \<le> j))
   \<and> (fst dm \<le> snd dm \<and> v \<le> fst dm \<longrightarrow> binOf (Fin v) dm = Some 0)
   \<and> (fst dm + 59 / 1000000000 \<le> snd dm \<and> snd dm \<le> w \<longrightarrow> binOf (Fin w) dm = Some (STAT_BINS - 1))
   \<and> fst (statDomain e) + 59 / 1000000000 \<le> snd (statDomain e)"
  using binOf_range [of x dm k] binOf_mono [of dm v w] binOf_low [of dm v] binOf_high [of dm w]
    statDomain_width [of e]
  by blast

theorem binOf_monotone_clamped_witness:
  "binOf (Fin (1 / 4)) (statDomain (newEngine None)) = Some 14
   \<and> binOf (Fin (- 3)) (statDomain (newEngine None)) = Some 0
   \<and> binOf (Fin 7) (statDomain (newEngine None)) = Some 59
   \<and> binOf (Fin (1 / 4)) (statDomain (newEngine None\<lparr>statistic := ''sd''\<rparr>)) = Some 29"
proof -
  have a: "binOf (Fin (1 / 4)) (0, 1) = Some 14" "binOf (Fin (1 / 4)) (0, 1 / 2) = Some 29"
    by (simp_all add: binOf_def x01Of_def clampDiv01_def clamp_def clampi_def STAT_BINS_def COLS_def)
  have d: "statDomain (newEngine None) = (0, 1)"
    "statDomain (newEngine None\<lparr>statistic := ''sd''\<rparr>) = (0, 1 / 2)"
    by (simp_all add: statDomain_def newEngine_def resetGeometry_def Let_def)
  show ?thesis
    using binOf_monotone_clamped [of "Fin (1 / 4)" "(0, 1)" 14 "- 3" 7 "newEngine None"] a d
    by (simp add: STAT_BINS_def COLS_def)
qed

subsection \<open>Sampling\<close>

lemma newArray_nat: "k < 2 ^ 32 \<Longrightarrow> newArray (Fin (real k)) = Inr k"
  by (simp add: newArray_def)

lemma dbl_exp_small: "m < 2 ^ 53 \<Longrightarrow> dbl_exp m = 0"
  by (subst dbl_exp.simps) simp

lemma dbl_round_small: "m < 2 ^ 53 \<Longrightarrow> dbl_round m = m"
  by (simp add: dbl_round_def dbl_exp_small)

lemma floor_nat_div: "nat \<lfloor>real m / 4294967296\<rfloor> = m div 4294967296"
proof -
  have "real m / 4294967296 = real m / real (4294967296 :: nat)" by simp
  then have "\<lfloor>real m / 4294967296\<rfloor> = int (m div 4294967296)"
    by (simp only: floor_divide_of_nat_eq)
  then show ?thesis by simp
qed

lemma uniform_col_in_range: "nat \<lfloor>rng_times u COLS\<rfloor> < COLS"
proof -
  have u: "unat u < 4294967296"
    using unsigned_less [of u] by simp
  then have small: "unat u * 60 < 2 ^ 53" by simp
  have "nat \<lfloor>rng_times u COLS\<rfloor> = (unat u * 60) div 4294967296"
    unfolding rng_times_def COLS_def dbl_round_small [OF small] by (rule floor_nat_div)
  also from u have "\<dots> < 60" by simp
  finally show ?thesis by (simp add: COLS_def)
qed

lemma chooseCol_in_range: "chooseCol target weights c acc < COLS"
proof (induction target weights c acc rule: chooseCol.induct)
  case (1 target weights c acc)
  show ?case
  proof (cases "c < COLS")
    case True
    with "1.IH" show ?thesis
      by (subst chooseCol.simps) (simp add: Let_def)
  next
    case False
    then show ?thesis
      by (subst chooseCol.simps) (simp add: COLS_def drop_bit_eq_div)
  qed
qed

lemma chooseCol_default:
  "(\<forall>c'. c \<le> c' \<and> c' < COLS \<longrightarrow> \<not> target \<le> real (acc + (\<Sum>i = c..c'. unat (weights ! i))))
   \<Longrightarrow> chooseCol target weights c acc = drop_bit 1 COLS"
proof (induction target weights c acc rule: chooseCol.induct)
  case (1 target weights c acc)
  show ?case
  proof (cases "c < COLS")
    case True
    from "1.prems" True have "\<not> target \<le> real (acc + (\<Sum>i = c..c. unat (weights ! i)))"
      by blast
    then have here: "\<not> target \<le> real (acc + unat (weights ! c))"
      by simp
    have "\<forall>c'. c + 1 \<le> c' \<and> c' < COLS \<longrightarrow>
            \<not> target \<le> real (acc + unat (weights ! c) + (\<Sum>i = c + 1..c'. unat (weights ! i)))"
    proof (intro allI impI)
      fix c' assume c': "c + 1 \<le> c' \<and> c' < COLS"
      then have "(\<Sum>i = c..c'. unat (weights ! i)) = unat (weights ! c) + (\<Sum>i = c + 1..c'. unat (weights ! i))"
        by (simp add: sum.atLeast_Suc_atMost)
      moreover from "1.prems" c' have "\<not> target \<le> real (acc + (\<Sum>i = c..c'. unat (weights ! i)))"
        by simp
      ultimately show "\<not> target \<le> real (acc + unat (weights ! c) + (\<Sum>i = c + 1..c'. unat (weights ! i)))"
        by (simp add: add.assoc)
    qed
    with "1.IH" [OF True refl here] True here show ?thesis
      by (subst chooseCol.simps) (simp add: Let_def)
  next
    case False
    then show ?thesis
      by (subst chooseCol.simps) simp
  qed
qed

lemma colValue_bounds: "c < COLS \<Longrightarrow> 0 < colValue c \<and> colValue c < 1"
  by (simp add: colValue_def COLS_def)

lemma sampleUniform_props:
  "sampleUniform k t = (xs, cols, t') \<Longrightarrow>
     length xs = k \<and> length cols = k \<and> (\<forall>c \<in> set cols. c < COLS) \<and> xs = map colValue cols
     \<and> t' = (rng_advance ^^ k) t"
proof (induction k arbitrary: t xs cols t')
  case 0
  then show ?case by simp
next
  case (Suc k)
  obtain u t1 where r: "rng_call t = (u, t1)" by (cases "rng_call t")
  obtain xs1 cols1 t2 where s: "sampleUniform k t1 = (xs1, cols1, t2)"
    by (cases "sampleUniform k t1")
  from Suc.prems r s have eqs: "xs = colValue (nat \<lfloor>rng_times u COLS\<rfloor>) # xs1"
    "cols = nat \<lfloor>rng_times u COLS\<rfloor> # cols1" "t' = t2"
    by (simp_all add: Let_def)
  from r have t1: "t1 = rng_advance t" by (simp add: rng_advance_def)
  from Suc.IH [OF s] eqs t1 show ?case
    by (simp add: uniform_col_in_range funpow_Suc_right del: funpow.simps)
qed

lemma sampleWeighted_props:
  "sampleWeighted weights tot k t = (xs, cols, t') \<Longrightarrow>
     length xs = k \<and> length cols = k \<and> (\<forall>c \<in> set cols. c < COLS) \<and> xs = map colValue cols
     \<and> t' = (rng_advance ^^ k) t"
proof (induction k arbitrary: t xs cols t')
  case 0
  then show ?case by simp
next
  case (Suc k)
  obtain u t1 where r: "rng_call t = (u, t1)" by (cases "rng_call t")
  obtain xs1 cols1 t2 where s: "sampleWeighted weights tot k t1 = (xs1, cols1, t2)"
    by (cases "sampleWeighted weights tot k t1")
  from Suc.prems r s have eqs: "xs = colValue (chooseCol (rng_times u tot) weights 0 0) # xs1"
    "cols = chooseCol (rng_times u tot) weights 0 0 # cols1" "t' = t2"
    by (simp_all add: Let_def)
  from r have t1: "t1 = rng_advance t" by (simp add: rng_advance_def)
  from Suc.IH [OF s] eqs t1 show ?case
    by (simp add: chooseCol_in_range funpow_Suc_right del: funpow.simps)
qed

lemma sampleN_props:
  assumes k: "k < 2 ^ 32"
  shows "\<exists>xs cols. sampleN (Fin (real k)) e = Inr (xs, cols, e\<lparr>rng := (rng_advance ^^ k) (rng e)\<rparr>)
     \<and> length xs = k \<and> length cols = k \<and> (\<forall>c \<in> set cols. c < COLS) \<and> xs = map colValue cols"
proof (cases "popTotal (popCounts e) = 0")
  case True
  obtain xs cols t' where s: "sampleUniform k (rng e) = (xs, cols, t')"
    by (cases "sampleUniform k (rng e)")
  with True k have "sampleN (Fin (real k)) e = Inr (xs, cols, e\<lparr>rng := t'\<rparr>)"
    by (simp add: sampleN_def newArray_nat)
  with sampleUniform_props [OF s] show ?thesis by simp
next
  case False
  obtain xs cols t' where s: "sampleWeighted (popCounts e) (popTotal (popCounts e)) k (rng e) = (xs, cols, t')"
    by (cases "sampleWeighted (popCounts e) (popTotal (popCounts e)) k (rng e)")
  with False k have "sampleN (Fin (real k)) e = Inr (xs, cols, e\<lparr>rng := t'\<rparr>)"
    by (simp add: sampleN_def newArray_nat Let_def)
  with sampleWeighted_props [OF s] show ?thesis by simp
qed



lemma sampleN_unfold:
  "sampleN n e =
     (case newArray n of
        Inl err \<Rightarrow> Inl err
      | Inr k \<Rightarrow>
          (case (if popTotal (popCounts e) = 0 then sampleUniform k (rng e)
                 else sampleWeighted (popCounts e) (popTotal (popCounts e)) k (rng e)) of
             (xs, cols, t) \<Rightarrow> Inr (xs, cols, e\<lparr>rng := t\<rparr>)))"
  by (simp add: sampleN_def Let_def split: sum.splits)

lemma sampleN_cong:
  assumes "rng e1 = rng e2" "popCounts e1 = popCounts e2"
    and "sampleN n e1 = Inr (xs, cols, e1')"
  shows "sampleN n e2 = Inr (xs, cols, e2\<lparr>rng := rng e1'\<rparr>)"
proof -
  obtain k where k: "newArray n = Inr k"
    using assms(3) by (cases "newArray n") (simp_all add: sampleN_unfold)
  define r where "r = (if popTotal (popCounts e2) = 0 then sampleUniform k (rng e2)
                       else sampleWeighted (popCounts e2) (popTotal (popCounts e2)) k (rng e2))"
  obtain ys cs t where r: "r = (ys, cs, t)" by (cases r)
  have 2: "sampleN n e2 = Inr (ys, cs, e2\<lparr>rng := t\<rparr>)"
    unfolding sampleN_unfold k using r unfolding r_def by simp
  have 1: "sampleN n e1 = Inr (ys, cs, e1\<lparr>rng := t\<rparr>)"
    unfolding sampleN_unfold k assms(1,2) using r unfolding r_def by simp
  from 1 assms(3) have "xs = ys" "cols = cs" "rng e1' = t" by auto
  with 2 show ?thesis by simp
qed

text \<open>
  Claim C1. Two engines freshly seeded with the same seed and holding the same population
  weights, whatever the rest of their state, return the same value sequence and the same
  bin-index sequence from \<^verbatim>\<open>sampleN(k)\<close>, each of length \<open>k\<close>, and each leaves its
  generator in the state reached from the seed by exactly \<open>k\<close> calls; both loops (the
  zero-total one and the weighted one) call the generator once per drawn element.
\<close>

theorem sampleN_deterministic:
  assumes "rng e1 = rngMulberry32 seed" and "rng e2 = rngMulberry32 seed"
    and "popCounts e1 = popCounts e2" and "k < 2 ^ 32"
  shows "\<exists>xs cols.
           sampleN (Fin (real k)) e1 = Inr (xs, cols, e1\<lparr>rng := (rng_advance ^^ k) (rngMulberry32 seed)\<rparr>)
         \<and> sampleN (Fin (real k)) e2 = Inr (xs, cols, e2\<lparr>rng := (rng_advance ^^ k) (rngMulberry32 seed)\<rparr>)
         \<and> length xs = k \<and> length cols = k
         \<and> snd (snd (sampleUniform k (rng e1))) = (rng_advance ^^ k) (rng e1)
         \<and> snd (snd (sampleWeighted (popCounts e1) (popTotal (popCounts e1)) k (rng e1)))
             = (rng_advance ^^ k) (rng e1)"
proof -
  from sampleN_props [OF assms(4), of e1]
  obtain xs cols where 0:
    "sampleN (Fin (real k)) e1 = Inr (xs, cols, e1\<lparr>rng := (rng_advance ^^ k) (rng e1)\<rparr>)"
    "length xs = k" "length cols = k"
    by blast
  from 0(1) have 1: "sampleN (Fin (real k)) e1
      = Inr (xs, cols, e1\<lparr>rng := (rng_advance ^^ k) (rngMulberry32 seed)\<rparr>)"
    by (simp only: assms(1))
  from assms(1,2) have "rng e1 = rng e2" by simp
  from sampleN_cong [OF this assms(3) 1(1)]
  have 2: "sampleN (Fin (real k)) e2 = Inr (xs, cols, e2\<lparr>rng := (rng_advance ^^ k) (rngMulberry32 seed)\<rparr>)"
    by simp
  have 3: "snd (snd (sampleUniform k (rng e1))) = (rng_advance ^^ k) (rng e1)"
    using sampleUniform_props [of k "rng e1"] by (cases "sampleUniform k (rng e1)") simp
  have 4: "snd (snd (sampleWeighted (popCounts e1) (popTotal (popCounts e1)) k (rng e1)))
             = (rng_advance ^^ k) (rng e1)"
    using sampleWeighted_props [of "popCounts e1" "popTotal (popCounts e1)" k "rng e1"]
    by (cases "sampleWeighted (popCounts e1) (popTotal (popCounts e1)) k (rng e1)") simp
  show ?thesis
    by (intro exI [of _ xs] exI [of _ cols] conjI) (fact 0 1 2 3 4)+
qed



theorem sampleN_deterministic_witness:
  "\<exists>xs cols.
     sampleN (Fin 5) (newEngine None)
       = Inr (xs, cols, (newEngine None)\<lparr>rng := (rng_advance ^^ 5) (rngMulberry32 1234)\<rparr>)
   \<and> sampleN (Fin 5) ((newEngine None)\<lparr>statistic := ''median'', needsRedraw := False\<rparr>)
       = Inr (xs, cols, (newEngine None)\<lparr>statistic := ''median'', needsRedraw := False,
                                          rng := (rng_advance ^^ 5) (rngMulberry32 1234)\<rparr>)
   \<and> length xs = 5 \<and> length cols = 5"
proof -
  have a: "rng (newEngine None) = rngMulberry32 1234"
    "rng ((newEngine None)\<lparr>statistic := ''median'', needsRedraw := False\<rparr>) = rngMulberry32 1234"
    "popCounts (newEngine None)
       = popCounts ((newEngine None)\<lparr>statistic := ''median'', needsRedraw := False\<rparr>)"
    by (simp_all add: newEngine_def resetGeometry_def Let_def)
  have b: "(5::nat) < 2 ^ 32" by simp
  from sampleN_deterministic [OF a b] show ?thesis
    by auto
qed

lemma popTotal_cum: "(\<Sum>i = 0..c. f i) = (\<Sum>i\<le>c. f i)" for c :: nat
  by (simp add: atLeast0AtMost)

text \<open>
  Claim C10. For every array length \<open>k\<close> and every population weight array,
  \<^verbatim>\<open>sampleN\<close> returns \<open>k\<close> bin indices, each in \<open>[0, COLS - 1]\<close>, and the values
  \<open>(index + 0.5) / COLS\<close>, each strictly between 0 and 1. The zero-total branch takes
  \<^verbatim>\<open>Math.floor(rng() * COLS)\<close>, which is below \<open>COLS\<close>; the scan of the weighted branch
  returns an index below \<open>COLS\<close> for every target, namely \<^verbatim>\<open>COLS >> 1\<close> = 30 when no
  cumulative weight reaches the target.
\<close>

theorem sampleN_indices_in_range:
  "(k < 2 ^ 32 \<longrightarrow>
      (\<exists>xs cols e'. sampleN (Fin (real k)) e = Inr (xs, cols, e')
         \<and> length cols = k
         \<and> (\<forall>c \<in> set cols. c < COLS)
         \<and> xs = map (\<lambda>c. (real c + 0.5) / real COLS) cols
         \<and> (\<forall>x \<in> set xs. 0 < x \<and> x < 1)))
   \<and> nat \<lfloor>rng_times u COLS\<rfloor> < COLS
   \<and> chooseCol target weights 0 0 < COLS
   \<and> ((\<forall>c < COLS. \<not> target \<le> real (\<Sum>i\<le>c. unat (weights ! i)))
        \<longrightarrow> chooseCol target weights 0 0 = drop_bit 1 COLS)
   \<and> drop_bit 1 COLS = (30 :: nat)"
proof (intro conjI impI)
  assume "k < 2 ^ 32"
  from sampleN_props [OF this, of e] obtain xs cols where p:
    "sampleN (Fin (real k)) e = Inr (xs, cols, e\<lparr>rng := (rng_advance ^^ k) (rng e)\<rparr>)"
    "length cols = k" "\<forall>c \<in> set cols. c < COLS" "xs = map colValue cols"
    by blast
  have v: "colValue = (\<lambda>c. (real c + 0.5) / real COLS)"
    by (rule ext) (simp add: colValue_def)
  from p(3,4) have "\<forall>x \<in> set xs. 0 < x \<and> x < 1"
    using colValue_bounds by auto
  with p v show "\<exists>xs cols e'. sampleN (Fin (real k)) e = Inr (xs, cols, e')
         \<and> length cols = k
         \<and> (\<forall>c \<in> set cols. c < COLS)
         \<and> xs = map (\<lambda>c. (real c + 0.5) / real COLS) cols
         \<and> (\<forall>x \<in> set xs. 0 < x \<and> x < 1)"
    by metis
next
  show "nat \<lfloor>rng_times u COLS\<rfloor> < COLS"
    by (rule uniform_col_in_range)
  show "chooseCol target weights 0 0 < COLS"
    by (rule chooseCol_in_range)
  show "drop_bit 1 COLS = (30 :: nat)"
    by (simp add: COLS_def drop_bit_eq_div)
next
  assume "\<forall>c < COLS. \<not> target \<le> real (\<Sum>i\<le>c. unat (weights ! i))"
  then have "\<forall>c'. 0 \<le> c' \<and> c' < COLS \<longrightarrow> \<not> target \<le> real (0 + (\<Sum>i = 0..c'. unat (weights ! i)))"
    by (simp add: popTotal_cum)
  then show "chooseCol target weights 0 0 = drop_bit 1 COLS"
    by (rule chooseCol_default)
qed

theorem sampleN_indices_in_range_witness:
  "(\<exists>xs cols e'. sampleN (Fin 4) (newEngine None) = Inr (xs, cols, e')
         \<and> length cols = 4
         \<and> (\<forall>c \<in> set cols. c < COLS)
         \<and> xs = map (\<lambda>c. (real c + 0.5) / real COLS) cols
         \<and> (\<forall>x \<in> set xs. 0 < x \<and> x < 1))
   \<and> chooseCol 1 (replicate 60 0) 0 0 = 30"
proof -
  have z: "\<forall>c < COLS. \<not> (1 :: real) \<le> real (\<Sum>i\<le>c. unat (replicate 60 (0 :: 16 word) ! i))"
  proof (intro allI impI)
    fix c assume "c < COLS"
    then have "(\<Sum>i\<le>c. unat (replicate 60 (0 :: 16 word) ! i)) = 0"
      by (simp add: COLS_def)
    then show "\<not> (1 :: real) \<le> real (\<Sum>i\<le>c. unat (replicate 60 (0 :: 16 word) ! i))"
      by simp
  qed
  have k: "(4 :: nat) < 2 ^ 32" by simp
  note t = sampleN_indices_in_range [of 4 "newEngine None" 0 1 "replicate 60 0", unfolded of_nat_numeral]
  from t k have A: "\<exists>xs cols e'. sampleN (Fin 4) (newEngine None) = Inr (xs, cols, e')
         \<and> length cols = 4
         \<and> (\<forall>c \<in> set cols. c < COLS)
         \<and> xs = map (\<lambda>c. (real c + 0.5) / real COLS) cols
         \<and> (\<forall>x \<in> set xs. 0 < x \<and> x < 1)"
    by blast
  from t z have "chooseCol 1 (replicate 60 0) 0 0 = drop_bit 1 COLS" "drop_bit 1 COLS = (30 :: nat)"
    by blast+
  then have B: "chooseCol 1 (replicate 60 0) 0 0 = 30"
    by (rule trans)
  from A B show ?thesis by (rule conjI)
qed

subsection \<open>Turbo repeat\<close>

lemma num_add_not_NaN: "a \<noteq> NaN \<Longrightarrow> num_add dbl a (Fin y) \<noteq> NaN"
  by (cases a) (simp_all add: dbl_not_NaN)

lemma dbl_unit: "\<bar>v\<bar> \<le> 1 \<Longrightarrow> \<exists>r. dbl v = Fin r"
proof -
  assume "\<bar>v\<bar> \<le> 1"
  moreover have "(1 :: real) \<le> 2 ^ 1023" by (rule one_le_power) simp
  ultimately have "\<bar>v\<bar> \<le> 2 ^ 1023" by linarith
  then show ?thesis by (rule dbl_finite)
qed

lemma sum_not_NaN:
  "acc \<noteq> NaN \<Longrightarrow> \<forall>v \<in> set xs. \<bar>v\<bar> \<le> 1 \<Longrightarrow>
     foldl (\<lambda>s v. num_add dbl s (dbl v)) acc xs \<noteq> NaN"
proof (induction xs arbitrary: acc)
  case Nil
  then show ?case by simp
next
  case (Cons x xs)
  from Cons.prems(2) dbl_unit [of x] obtain r where r: "dbl x = Fin r" by auto
  from Cons.prems(1) have "num_add dbl acc (Fin r) \<noteq> NaN" by (rule num_add_not_NaN)
  with Cons.IH [of "num_add dbl acc (Fin r)"] Cons.prems(2) r show ?case by simp
qed

lemma div_length_not_NaN: "a \<noteq> NaN \<Longrightarrow> 0 < k \<Longrightarrow> div_length a k \<noteq> NaN"
  by (cases a) (simp_all add: div_length_def dbl_not_NaN)

lemma mean_not_NaN:
  assumes "xs \<noteq> []" and "\<forall>v \<in> set xs. \<bar>v\<bar> \<le> 1"
  shows "mean xs \<noteq> NaN"
proof -
  have "foldl (\<lambda>s v. num_add dbl s (dbl v)) (Fin 0) xs \<noteq> NaN"
    using assms(2) by (intro sum_not_NaN) simp_all
  then have "div_length (foldl (\<lambda>s v. num_add dbl s (dbl v)) (Fin 0) xs) (length xs) \<noteq> NaN"
    using assms(1) by (intro div_length_not_NaN) simp_all
  with assms(1) show ?thesis by (simp add: mean_def)
qed

lemma half_not_NaN: "a \<noteq> NaN \<Longrightarrow> num_mul dbl (Fin 0.5) a \<noteq> NaN"
  by (cases a) (simp_all add: dbl_not_NaN)

lemma med_not_NaN:
  assumes "xs \<noteq> []" and "\<forall>v \<in> set xs. \<bar>v\<bar> \<le> 1"
  shows "med xs \<noteq> NaN"
proof (cases "length (sort xs) mod 2 \<noteq> 0")
  case True
  with assms(1) show ?thesis by (simp add: med_def Let_def dbl_not_NaN)
next
  case False
  define b where "b = sort xs"
  define m where "m = length b div 2"
  from assms(1) have len: "0 < length b" by (simp add: b_def)
  have "m - 1 < length b" using len by (simp add: m_def less_imp_diff_less)
  then have "b ! (m - 1) \<in> set xs"
    using nth_mem [of "m - 1" b] by (simp add: b_def)
  with assms(2) dbl_unit obtain r where r: "dbl (b ! (m - 1)) = Fin r" by blast
  have "num_add dbl (Fin r) (dbl (b ! m)) \<noteq> NaN"
    by (cases "dbl (b ! m)") (simp_all add: dbl_not_NaN)
  then have "num_mul dbl (Fin 0.5) (num_add dbl (Fin r) (dbl (b ! m))) \<noteq> NaN"
    by (rule half_not_NaN)
  with False assms(1) r show ?thesis
    by (simp add: med_def Let_def b_def [symmetric] m_def [symmetric])
qed

lemma computeStat_not_NaN:
  assumes "statistic e \<in> {''mean'', ''median'', ''sd'', ''proportion''}" and "xs \<noteq> []"
    and "\<forall>v \<in> set xs. \<bar>v\<bar> \<le> 1"
  shows "computeStat e xs \<noteq> NaN"
proof -
  from assms(1) consider "statistic e = ''mean''" | "statistic e = ''median''"
    | "statistic e = ''sd''" | "statistic e = ''proportion''"
    by auto
  then show ?thesis
  proof cases
    case 1
    with assms(2) mean_not_NaN [OF assms(2,3)] show ?thesis by (simp add: computeStat_def)
  next
    case 2
    with assms(2) med_not_NaN [OF assms(2,3)] show ?thesis by (simp add: computeStat_def)
  next
    case 3
    with assms(2) robustSD_not_NaN [of xs] show ?thesis by (simp add: computeStat_def)
  next
    case 4
    with assms(2) show ?thesis by (simp add: computeStat_def div_length_def dbl_not_NaN)
  qed
qed

lemma statDomain_ordered: "fst (statDomain e) \<le> snd (statDomain e)"
  by (simp add: statDomain_def)

lemma binOf_statDomain:
  assumes "v \<noteq> NaN"
  shows "\<exists>b. binOf v (statDomain e) = Some b \<and> b < STAT_BINS"
proof -
  have "\<exists>b. binOf v (statDomain e) = Some b"
  proof (cases v)
    case (Fin r)
    from binOf_mono [where dm = "statDomain e" and v = r and w = r] statDomain_ordered [of e]
    show ?thesis by (auto simp: Fin)
  qed (use assms in \<open>simp_all add: binOf_def x01Of_def statDomain_def\<close>)
  then obtain b where b: "binOf v (statDomain e) = Some b" by blast
  from binOf_range [OF b] have "b < STAT_BINS"
    by (simp add: STAT_BINS_def COLS_def)
  with b show ?thesis by blast
qed

lemma sum_unat_update:
  "i < length arr \<Longrightarrow>
     sum_list (map unat (arr[i := w])) + unat (arr ! i) = sum_list (map unat arr) + unat w"
proof (induction arr arbitrary: i)
  case Nil
  then show ?case by simp
next
  case (Cons a arr)
  then show ?case by (cases i) auto
qed

lemma bump_in_range:
  "i < length arr \<Longrightarrow> bump arr i = arr[i := arr ! i + 1]"
  by (simp add: bump_def cell_def add.commute)

lemma sum_bump:
  fixes arr :: "'a::len word list"
  assumes i: "i < length arr" and bound: "sum_list (map unat arr) + 1 < 2 ^ LENGTH('a)"
  shows "sum_list (map unat (bump arr i)) = sum_list (map unat arr) + 1"
proof -
  from i have "unat (arr ! i) \<le> sum_list (map unat arr)"
    using elem_le_sum_list [of i "map unat arr"] by simp
  with bound have small: "unat (arr ! i) + 1 < 2 ^ LENGTH('a)" by simp
  have "unat (word_of_nat (unat (arr ! i) + 1) :: 'a word) = unat (arr ! i) + 1"
    using small by (simp only: unat_of_nat mod_less)
  with sum_unat_update [OF i, of "word_of_nat (unat (arr ! i) + 1)"] i
  show ?thesis
    by (simp add: bump_def cell_def)
qed

lemma length_bump: "length (bump arr i) = length arr"
  by (simp add: bump_def)

lemma turbo_step:
  assumes st: "statistic e \<in> {''mean'', ''median'', ''sd'', ''proportion''}"
    and k: "1 \<le> k" "k < 2 ^ 32"
  shows "\<exists>b t. b < STAT_BINS
           \<and> turboLoop (Suc i) (Fin (real k)) e
               = turboLoop i (Fin (real k)) (e\<lparr>rng := t, botCounts := bump (botCounts e) b\<rparr>)"
proof -
  from sampleN_props [OF k(2), of e] obtain xs cols where s:
    "sampleN (Fin (real k)) e = Inr (xs, cols, e\<lparr>rng := (rng_advance ^^ k) (rng e)\<rparr>)"
    "length xs = k" "\<forall>c \<in> set cols. c < COLS" "xs = map colValue cols"
    by blast
  define e1 where "e1 = e\<lparr>rng := (rng_advance ^^ k) (rng e)\<rparr>"
  from s(2) k(1) have ne: "xs \<noteq> []" by auto
  have unit: "\<forall>v \<in> set xs. \<bar>v\<bar> \<le> 1"
    using s(3,4) colValue_bounds by fastforce
  have st1: "statistic e1 \<in> {''mean'', ''median'', ''sd'', ''proportion''}"
    using st by (simp add: e1_def)
  define v where "v = computeStat e1 xs"
  from computeStat_not_NaN [OF st1 ne unit] have "v \<noteq> NaN" by (simp add: v_def)
  from binOf_statDomain [OF this, of e1] obtain b where b:
    "binOf v (statDomain e1) = Some b" "b < STAT_BINS" by blast
  have "turboLoop (Suc i) (Fin (real k)) e
      = turboLoop i (Fin (real k)) (e1\<lparr>botCounts := bump (botCounts e1) b\<rparr>)"
    using s(1) b(1) by (simp add: e1_def [symmetric] v_def [symmetric] bumpBin_def)
  also have "e1\<lparr>botCounts := bump (botCounts e1) b\<rparr>
      = e\<lparr>rng := (rng_advance ^^ k) (rng e), botCounts := bump (botCounts e) b\<rparr>"
    by (simp add: e1_def)
  finally show ?thesis using b(2) by blast
qed

lemma turboLoop_sum:
  assumes st: "statistic e \<in> {''mean'', ''median'', ''sd'', ''proportion''}"
    and k: "1 \<le> k" "k < 2 ^ 32"
    and len: "length (botCounts e) = STAT_BINS"
    and bound: "sum_list (map unat (botCounts e)) + i < 2 ^ 32"
  shows "\<exists>t bc. turboLoop i (Fin (real k)) e = Inr (e\<lparr>rng := t, botCounts := bc\<rparr>)
           \<and> length bc = STAT_BINS
           \<and> sum_list (map unat bc) = sum_list (map unat (botCounts e)) + i"
  using st len bound
proof (induction i arbitrary: e)
  case 0
  have "e = e\<lparr>rng := rng e, botCounts := botCounts e\<rparr>" by simp
  with 0 show ?case
    by (metis add.right_neutral turboLoop.simps(1))
next
  case (Suc i)
  from turbo_step [OF Suc.prems(1) k, of i] obtain b t where bt: "b < STAT_BINS"
    "turboLoop (Suc i) (Fin (real k)) e
       = turboLoop i (Fin (real k)) (e\<lparr>rng := t, botCounts := bump (botCounts e) b\<rparr>)"
    by blast
  define e2 where "e2 = e\<lparr>rng := t, botCounts := bump (botCounts e) b\<rparr>"
  have bl: "b < length (botCounts e)" using bt(1) Suc.prems(2) by simp
  have sb: "sum_list (map unat (bump (botCounts e) b)) = sum_list (map unat (botCounts e)) + 1"
    using sum_bump [OF bl] Suc.prems(3) by simp
  have p1: "statistic e2 \<in> {''mean'', ''median'', ''sd'', ''proportion''}"
    using Suc.prems(1) by (simp add: e2_def)
  have p2: "length (botCounts e2) = STAT_BINS"
    using Suc.prems(2) by (simp add: e2_def length_bump)
  have p3: "sum_list (map unat (botCounts e2)) + i < 2 ^ 32"
    using Suc.prems(3) sb by (simp add: e2_def)
  from Suc.IH [OF p1 p2 p3] obtain t' bc where r:
    "turboLoop i (Fin (real k)) e2 = Inr (e2\<lparr>rng := t', botCounts := bc\<rparr>)"
    "length bc = STAT_BINS"
    "sum_list (map unat bc) = sum_list (map unat (botCounts e2)) + i"
    by blast
  have eq: "e2\<lparr>rng := t', botCounts := bc\<rparr> = e\<lparr>rng := t', botCounts := bc\<rparr>"
    by (simp add: e2_def)
  have "turboLoop (Suc i) (Fin (real k)) e = Inr (e\<lparr>rng := t', botCounts := bc\<rparr>)"
    using bt(2) r(1) eq by (simp add: e2_def)
  moreover have "sum_list (map unat bc) = sum_list (map unat (botCounts e)) + Suc i"
    using r(3) sb by (simp add: e2_def)
  ultimately show ?case using r(2) by blast
qed

lemma sum_zeros32: "sum_list (map unat zeros32) = 0"
  by (simp add: zeros32_def)

text \<open>
  Claim C4. From a reset (all-zero) sampling-distribution histogram, with one of the four
  statistics selected and a valid sample size \<open>2 \<le> k \<le> 1000\<close>, \<^verbatim>\<open>handleRepeatTurbo(k)\<close>
  returns normally and changes only the generator state, \<open>botCounts\<close> and the redraw
  flag: the sample histogram, the population and every animation field stay as they were.
  The bin counts then sum to exactly 1000, because each iteration of the loop is one
  \<^verbatim>\<open>sampleN\<close> followed by the increment of exactly one bin below \<open>STAT_BINS\<close>. The
  button handler calls it for every valid \<open>k\<close>.
\<close>

theorem handleRepeatTurbo_adds_1000:
  assumes "botCounts e = zeros32"
    and "statistic e \<in> {''mean'', ''median'', ''sd'', ''proportion''}"
    and "2 \<le> k" and "k \<le> 1000"
  shows "(\<exists>t bc. handleRepeatTurbo (Fin (real k)) e
                    = Inr (e\<lparr>rng := t, botCounts := bc, needsRedraw := True\<rparr>)
               \<and> length bc = STAT_BINS
               \<and> sum_list (map unat bc) = 1000)
       \<and> (\<forall>i (e1 :: engine). statistic e1 = statistic e \<longrightarrow>
             (\<exists>b t. b < STAT_BINS
                \<and> turboLoop (Suc i) (Fin (real k)) e1
                    = turboLoop i (Fin (real k)) (e1\<lparr>rng := t, botCounts := bump (botCounts e1) b\<rparr>)))
       \<and> (\<forall>b arr. b < length arr \<longrightarrow> bump arr b = arr[b := arr ! b + (1 :: 32 word)])
       \<and> repeat1000Btn_click (Fin (real k)) e = handleRepeatTurbo (Fin (real k)) e"
proof (intro conjI allI impI)
  have k: "1 \<le> k" "k < 2 ^ 32" using assms(3,4) by simp_all
  have len: "length (botCounts e) = STAT_BINS" using assms(1) by (simp add: zeros32_def)
  have bound: "sum_list (map unat (botCounts e)) + 1000 < 2 ^ 32"
    using assms(1) by (simp add: sum_zeros32)
  from turboLoop_sum [OF assms(2) k len bound] obtain t bc where r:
    "turboLoop 1000 (Fin (real k)) e = Inr (e\<lparr>rng := t, botCounts := bc\<rparr>)"
    "length bc = STAT_BINS"
    "sum_list (map unat bc) = sum_list (map unat (botCounts e)) + 1000"
    by blast
  from r(1) have "handleRepeatTurbo (Fin (real k)) e
      = Inr (e\<lparr>rng := t, botCounts := bc, needsRedraw := True\<rparr>)"
    by (simp add: handleRepeatTurbo_def)
  moreover from r(3) assms(1) have "sum_list (map unat bc) = 1000"
    by (simp add: sum_zeros32)
  ultimately show "\<exists>t bc. handleRepeatTurbo (Fin (real k)) e
                    = Inr (e\<lparr>rng := t, botCounts := bc, needsRedraw := True\<rparr>)
               \<and> length bc = STAT_BINS
               \<and> sum_list (map unat bc) = 1000"
    using r(2) by blast
next
  fix i and e1 :: engine assume "statistic e1 = statistic e"
  with assms(2) have st: "statistic e1 \<in> {''mean'', ''median'', ''sd'', ''proportion''}" by simp
  have k: "1 \<le> k" "k < 2 ^ 32" using assms(3,4) by simp_all
  from turbo_step [OF st k]
  show "\<exists>b t. b < STAT_BINS
                \<and> turboLoop (Suc i) (Fin (real k)) e1
                    = turboLoop i (Fin (real k)) (e1\<lparr>rng := t, botCounts := bump (botCounts e1) b\<rparr>)"
    by blast
next
  fix b and arr :: "32 word list" assume "b < length arr"
  then show "bump arr b = arr[b := arr ! b + 1]" by (rule bump_in_range)
next
  from assms(3,4) have "valid (validateSampleSize (Fin (real k)))"
    by (simp add: validateSampleSize_def)
  then show "repeat1000Btn_click (Fin (real k)) e = handleRepeatTurbo (Fin (real k)) e"
    by (simp add: repeat1000Btn_click_def)
qed


theorem handleRepeatTurbo_adds_1000_witness:
  "\<exists>t bc. handleRepeatTurbo (Fin 2) (newEngine None)
              = Inr ((newEngine None)\<lparr>rng := t, botCounts := bc, needsRedraw := True\<rparr>)
        \<and> length bc = STAT_BINS
        \<and> sum_list (map unat bc) = 1000"
proof -
  have a: "botCounts (newEngine None) = zeros32"
    "statistic (newEngine None) \<in> {''mean'', ''median'', ''sd'', ''proportion''}"
    by (simp_all add: newEngine_def resetGeometry_def Let_def)
  have b: "(2 :: nat) \<le> 2" "(2 :: nat) \<le> 1000" by simp_all
  from handleRepeatTurbo_adds_1000 [OF a b, unfolded of_nat_numeral]
  show ?thesis by (rule conjunct1)
qed

subsection \<open>Tick and the sample histogram\<close>

lemma emitLoop_frame:
  "emitLoop k now tb mb infl p e = (p', e') \<Longrightarrow>
     midCounts e' = midCounts e \<and> botCounts e' = botCounts e \<and> popCounts e' = popCounts e
     \<and> needsRedraw e' = needsRedraw e \<and> statParticles e' = statParticles e
     \<and> gathering e' = gathering e \<and> gatherTarget e' = gatherTarget e
     \<and> gatherParticles e' = gatherParticles e \<and> lastSample e' = lastSample e"
proof (induction k arbitrary: infl p e)
  case 0
  then show ?case by simp
next
  case (Suc k)
  show ?case
  proof (cases "p_emitted p < p_total p")
    case True
    with Suc.prems have "\<exists>infl2 p2 e2. emitLoop k now tb mb infl2 p2 e2 = (p', e')
        \<and> midCounts e2 = midCounts e \<and> botCounts e2 = botCounts e \<and> popCounts e2 = popCounts e
        \<and> needsRedraw e2 = needsRedraw e \<and> statParticles e2 = statParticles e
        \<and> gathering e2 = gathering e \<and> gatherTarget e2 = gatherTarget e
        \<and> gatherParticles e2 = gatherParticles e \<and> lastSample e2 = lastSample e"
      by (simp add: Let_def) (rule exI, rule exI, rule exI, rule conjI, assumption, simp)
    then obtain infl2 p2 e2 where l: "emitLoop k now tb mb infl2 p2 e2 = (p', e')"
      and f: "midCounts e2 = midCounts e" "botCounts e2 = botCounts e" "popCounts e2 = popCounts e"
        "needsRedraw e2 = needsRedraw e" "statParticles e2 = statParticles e"
        "gathering e2 = gathering e" "gatherTarget e2 = gatherTarget e"
        "gatherParticles e2 = gatherParticles e" "lastSample e2 = lastSample e"
      by blast
    from Suc.IH [OF l] f show ?thesis by simp
  next
    case False
    with Suc.prems show ?thesis by simp
  qed
qed

lemma tickEmission_frame:
  "midCounts (tickEmission now e) = midCounts e \<and> botCounts (tickEmission now e) = botCounts e
   \<and> popCounts (tickEmission now e) = popCounts e
   \<and> needsRedraw (tickEmission now e) = needsRedraw e
   \<and> statParticles (tickEmission now e) = statParticles e
   \<and> gathering (tickEmission now e) = gathering e
   \<and> gatherTarget (tickEmission now e) = gatherTarget e
   \<and> gatherParticles (tickEmission now e) = gatherParticles e
   \<and> lastSample (tickEmission now e) = lastSample e"
proof (cases "emissionPlan e")
  case None
  then show ?thesis by (simp add: tickEmission_def)
next
  case (Some p)
  define toEmit where "toEmit =
    (case clampDiv01 (now - p_start p) (p_end p - p_start p) of
       NaN \<Rightarrow> 0
     | PInf \<Rightarrow> int (p_total p) - int (p_emitted p)
     | NInf \<Rightarrow> 0
     | Fin fr \<Rightarrow>
         (let toEmit0 = \<lfloor>fr * real (p_total p)\<rfloor> - int (p_emitted p)
          in if toEmit0 \<le> 0 \<and> fr \<ge> 1 then int (p_total p) - int (p_emitted p) else toEmit0))"
  define r where "r = (if toEmit > 0 then
                    emitLoop (nat toEmit) now (marginY e + H_TOP e - 16)
                      (marginY e + H_TOP e + H_MID e - 8) (inflightOf (sampleParticles e)) p e
                  else (p, e))"
  obtain p' e' where r: "r = (p', e')" by (cases r)
  have fr: "midCounts e' = midCounts e \<and> botCounts e' = botCounts e \<and> popCounts e' = popCounts e
     \<and> needsRedraw e' = needsRedraw e \<and> statParticles e' = statParticles e
     \<and> gathering e' = gathering e \<and> gatherTarget e' = gatherTarget e
     \<and> gatherParticles e' = gatherParticles e \<and> lastSample e' = lastSample e"
  proof (cases "toEmit > 0")
    case True
    with r have "emitLoop (nat toEmit) now (marginY e + H_TOP e - 16)
                      (marginY e + H_TOP e + H_MID e - 8) (inflightOf (sampleParticles e)) p e = (p', e')"
      by (simp add: r_def)
    then show ?thesis by (rule emitLoop_frame)
  next
    case False
    with r show ?thesis by (simp add: r_def)
  qed
  have "tickEmission now e = (if p_emitted p' \<ge> p_total p' then e'\<lparr>emissionPlan := None\<rparr>
              else e'\<lparr>emissionPlan := Some p'\<rparr>)"
    using Some r unfolding tickEmission_def r_def toEmit_def by (simp add: Let_def)
  with fr show ?thesis by simp
qed

lemma fallSamples_eq:
  "fallSamples g dt ps sv mid =
     (sv @ filter inFlight (map (fallStep g dt) ps),
      foldl bump mid (map s_col (filter (\<lambda>s. \<not> inFlight s) (map (fallStep g dt) ps))))"
  by (induction ps arbitrary: sv mid) (simp_all add: Let_def)

lemma tickSamples_eq:
  "tickSamples g dt e =
     e\<lparr>midCounts := foldl bump (midCounts e)
          (map s_col (filter (\<lambda>s. \<not> inFlight s) (map (fallStep g dt) (sampleParticles e)))),
       sampleParticles := filter inFlight (map (fallStep g dt) (sampleParticles e))\<rparr>"
proof (cases "sampleParticles e = []")
  case True
  have "e\<lparr>midCounts := midCounts e, sampleParticles := sampleParticles e\<rparr> = e"
    by simp
  then have "e\<lparr>midCounts := midCounts e, sampleParticles := []\<rparr> = e"
    unfolding True .
  with True show ?thesis by (simp add: tickSamples_def)
next
  case False
  then show ?thesis by (simp add: tickSamples_def fallSamples_eq)
qed


lemma fallStats_eq:
  "fallStats g dt ps sv bc =
     (sv @ filter statInFlight (map (statStep g dt) ps),
      foldl bumpBin bc (map q_bin (filter (\<lambda>p. \<not> statInFlight p) (map (statStep g dt) ps))))"
  by (induction ps arbitrary: sv bc) (simp_all add: Let_def)

lemma tickStats_eq:
  "tickStats g dt e =
     e\<lparr>botCounts := foldl bumpBin (botCounts e)
          (map q_bin (filter (\<lambda>p. \<not> statInFlight p) (map (statStep g dt) (statParticles e)))),
       statParticles := filter statInFlight (map (statStep g dt) (statParticles e))\<rparr>"
proof (cases "statParticles e = []")
  case True
  have "e\<lparr>botCounts := botCounts e, statParticles := statParticles e\<rparr> = e"
    by simp
  then have "e\<lparr>botCounts := botCounts e, statParticles := []\<rparr> = e"
    unfolding True .
  with True show ?thesis by (simp add: tickStats_def)
next
  case False
  then show ?thesis by (simp add: tickStats_def fallStats_eq)
qed

lemma tickGather_frame:
  "midCounts (tickGather now e) = midCounts e
   \<and> sampleParticles (tickGather now e) = sampleParticles e
   \<and> botCounts (tickGather now e) = botCounts e
   \<and> popCounts (tickGather now e) = popCounts e
   \<and> emissionPlan (tickGather now e) = emissionPlan e
   \<and> needsRedraw (tickGather now e) = needsRedraw e"
  by (simp add: tickGather_def Let_def split: option.splits)

lemma tickGather_idle:
  "\<not> gathering e \<Longrightarrow> tickGather now e = e"
  by (simp add: tickGather_def split: option.splits)

lemma tick_idle:
  assumes "\<not> hasActiveAnimations e"
  shows "tick dt now e = e"
proof -
  from assms have a: "emissionPlan e = None" "sampleParticles e = []" "statParticles e = []"
    "\<not> gathering e" "popFlashes e = []" "gatherParticles e = []"
    by (simp_all add: hasActiveAnimations_def)
  have 1: "tickEmission now e = e" using a(1) by (simp add: tickEmission_def)
  have 2: "tickSamples g dt e = e" for g using a(2) by (simp add: tickSamples_def)
  have 3: "tickGather now e = e" using a(4) by (rule tickGather_idle)
  have 4: "tickStats g dt e = e" for g using a(3) by (simp add: tickStats_def)
  have "e\<lparr>popFlashes := popFlashes e\<rparr> = e" by simp
  then have 5: "e\<lparr>popFlashes := []\<rparr> = e" unfolding a(5) .
  show ?thesis
    using assms by (simp add: tick_def Let_def 1 2 3 4 5 a(5))
qed

lemma tick_needsRedraw:
  "needsRedraw (tick dt now e) \<longleftrightarrow>
     needsRedraw e \<or> hasActiveAnimations e
     \<or> hasActiveAnimations
          ((tickStats (if speed e = ''fast'' then 2400 else 1400) dt
             (tickGather now (tickSamples (if speed e = ''fast'' then 2400 else 1400) dt
               (tickEmission now e))))
           \<lparr>popFlashes := filter (\<lambda>f. f_until f > now)
              (popFlashes (tickStats (if speed e = ''fast'' then 2400 else 1400) dt
                (tickGather now (tickSamples (if speed e = ''fast'' then 2400 else 1400) dt
                  (tickEmission now e)))))\<rparr>)"
proof -
  have "needsRedraw (tickStats g dt (tickGather now (tickSamples g dt (tickEmission now e))))
      = needsRedraw e" for g
    by (simp add: tickStats_eq tickGather_frame tickSamples_eq tickEmission_frame)
  then show ?thesis
    by (auto simp: tick_def Let_def)
qed

lemma tick_sample_tier:
  "midCounts (tick dt now e) =
     foldl bump (midCounts e)
       (map s_col (filter (\<lambda>s. \<not> inFlight s)
          (map (fallStep (if speed e = ''fast'' then 2400 else 1400) dt)
             (sampleParticles (tickEmission now e)))))
   \<and> sampleParticles (tick dt now e) =
       filter inFlight (map (fallStep (if speed e = ''fast'' then 2400 else 1400) dt)
          (sampleParticles (tickEmission now e)))"
proof -
  define g :: real where "g = (if speed e = ''fast'' then 2400 else 1400)"
  define e2 where "e2 = tickSamples g dt (tickEmission now e)"
  define e4 where "e4 = tickStats g dt (tickGather now e2)"
  have m4: "midCounts e4 = midCounts e2" "sampleParticles e4 = sampleParticles e2"
    by (simp_all add: e4_def tickStats_eq tickGather_frame)
  have t: "midCounts (tick dt now e) = midCounts e4"
    "sampleParticles (tick dt now e) = sampleParticles e4"
    by (simp_all add: tick_def Let_def e4_def e2_def g_def)
  have m2: "midCounts e2 = foldl bump (midCounts e)
       (map s_col (filter (\<lambda>s. \<not> inFlight s)
          (map (fallStep g dt) (sampleParticles (tickEmission now e)))))"
    "sampleParticles e2 = filter inFlight (map (fallStep g dt) (sampleParticles (tickEmission now e)))"
    by (simp_all add: e2_def tickSamples_eq tickEmission_frame)
  from t m4 m2 show ?thesis by (simp add: g_def)
qed

lemma cell_bump_same:
  fixes arr :: "'a::len word list"
  assumes "i < length arr" and "cell arr i + 1 < 2 ^ LENGTH('a)"
  shows "cell (bump arr i) i = cell arr i + 1"
proof -
  from assms(1) have c: "cell arr i = unat (arr ! i)" by (simp add: cell_def)
  have "unat (word_of_nat (unat (arr ! i) + 1) :: 'a word) = unat (arr ! i) + 1"
    using assms(2) c by (simp only: unat_of_nat mod_less)
  with assms(1) c show ?thesis
    by (simp add: bump_def cell_def)
qed

lemma cell_bump_other: "j \<noteq> i \<Longrightarrow> cell (bump arr i) j = cell arr j"
  by (simp add: bump_def cell_def)

lemma fallStep_reaches:
  "s_y (fallStep g dt s) \<le> s_targetY s \<and> s_targetY (fallStep g dt s) = s_targetY s
   \<and> s_col (fallStep g dt s) = s_col s
   \<and> (\<not> inFlight (fallStep g dt s) \<longleftrightarrow> s_targetY s - 0.1 \<le> s_y (fallStep g dt s))"
  by (auto simp: fallStep_def inFlight_def Let_def)


text \<open>
  Claim C6. Releasing particles from the emission plan leaves the sample histogram as it
  is. Over a whole \<^verbatim>\<open>tick\<close> the sample histogram changes only by landings: the new
  \<open>midCounts\<close> is the old one with one increment, at the particle's bin, for each
  particle that after its fall step is no longer in flight, that is, whose position has
  come within 0.1 of its target; exactly those particles are removed from
  \<open>sampleParticles\<close>. One such increment raises that bin's count by exactly one (the
  cell is a \<^verbatim>\<open>Uint16\<close>, so this is below the wrap at 65535) and changes no other
  bin.
\<close>

theorem midCounts_changes_only_on_landing:
  fixes mid :: "16 word list"
  shows
  "midCounts (tickEmission now e) = midCounts e
   \<and> midCounts (tick dt now e) =
       foldl bump (midCounts e)
         (map s_col (filter (\<lambda>s. \<not> inFlight s)
            (map (fallStep (if speed e = ''fast'' then 2400 else 1400) dt)
               (sampleParticles (tickEmission now e)))))
   \<and> sampleParticles (tick dt now e) =
       filter inFlight (map (fallStep (if speed e = ''fast'' then 2400 else 1400) dt)
          (sampleParticles (tickEmission now e)))
   \<and> (\<not> inFlight (fallStep g dt s) \<longleftrightarrow> s_targetY s - 0.1 \<le> s_y (fallStep g dt s))
   \<and> s_col (fallStep g dt s) = s_col s
   \<and> (i < length mid \<and> cell mid i < 65535 \<longrightarrow> cell (bump mid i) i = cell mid i + 1)
   \<and> (j \<noteq> i \<longrightarrow> cell (bump mid i) j = cell mid j)
   \<and> length (bump mid i) = length mid"
proof -
  have "i < length mid \<and> cell mid i < 65535 \<longrightarrow> cell (bump mid i) i = cell mid i + 1"
    using cell_bump_same [of i mid] by simp
  then show ?thesis
    using tickEmission_frame [of now e] tick_sample_tier [of dt now e] fallStep_reaches [of g dt s]
      cell_bump_other [of j i mid] length_bump [of mid i]
    by blast
qed

theorem midCounts_changes_only_on_landing_witness:
  "midCounts (tick (6 / 100) 0
      ((newEngine None)\<lparr>sampleParticles :=
         [\<lparr>s_col = 3, s_x = 0, s_y = 535, s_vy = 100, s_targetY = 536\<rparr>,
          \<lparr>s_col = 5, s_x = 0, s_y = 16, s_vy = 0, s_targetY = 536\<rparr>]\<rparr>))
     = (replicate 60 0)[3 := 1]
   \<and> sampleParticles (tick (6 / 100) 0
      ((newEngine None)\<lparr>sampleParticles :=
         [\<lparr>s_col = 3, s_x = 0, s_y = 535, s_vy = 100, s_targetY = 536\<rparr>,
          \<lparr>s_col = 5, s_x = 0, s_y = 16, s_vy = 0, s_targetY = 536\<rparr>]\<rparr>))
     = [\<lparr>s_col = 5, s_x = 0, s_y = 2104 / 100, s_vy = 84, s_targetY = 536\<rparr>]
   \<and> cell (bump (replicate 60 (0 :: 16 word)) 3) 3 = 1
   \<and> cell (bump (replicate 60 (0 :: 16 word)) 3) 5 = 0"
proof -
  define e where "e = (newEngine None)\<lparr>sampleParticles :=
         [\<lparr>s_col = 3, s_x = 0, s_y = 535, s_vy = 100, s_targetY = 536\<rparr>,
          \<lparr>s_col = 5, s_x = 0, s_y = 16, s_vy = 0, s_targetY = 536\<rparr>]\<rparr>"
  have f: "emissionPlan e = None" "speed e = ''normal''" "midCounts e = replicate 60 0"
    "sampleParticles e = [\<lparr>s_col = 3, s_x = 0, s_y = 535, s_vy = 100, s_targetY = 536\<rparr>,
          \<lparr>s_col = 5, s_x = 0, s_y = 16, s_vy = 0, s_targetY = 536\<rparr>]"
    by (simp_all add: e_def newEngine_def resetGeometry_def Let_def zeros16_def COLS_def)
  have te: "tickEmission 0 e = e"
    using f(1) by (simp add: tickEmission_def)
  note t = midCounts_changes_only_on_landing [where now = 0 and e = e and dt = "6 / 100" and g = 0
      and s = "\<lparr>s_col = 3, s_x = 0, s_y = 535, s_vy = 100, s_targetY = 536\<rparr>"
      and i = 3 and mid = "replicate 60 0" and j = 5]
  have c: "cell (replicate 60 (0 :: 16 word)) 3 = 0" "cell (replicate 60 (0 :: 16 word)) 5 = 0"
    by (simp_all add: cell_def)
  have h: "3 < length (replicate 60 (0 :: 16 word)) \<and> cell (replicate 60 (0 :: 16 word)) 3 < 65535"
    "(5 :: nat) \<noteq> 3"
    by (simp_all add: cell_def)
  from t h have "cell (bump (replicate 60 (0 :: 16 word)) 3) 3 = cell (replicate 60 (0 :: 16 word)) 3 + 1"
    "cell (bump (replicate 60 (0 :: 16 word)) 3) 5 = cell (replicate 60 (0 :: 16 word)) 5"
    by blast+
  then have 3: "cell (bump (replicate 60 (0 :: 16 word)) 3) 3 = 1"
    "cell (bump (replicate 60 (0 :: 16 word)) 3) 5 = 0"
    by (simp_all only: c)
  have b: "bump (replicate 60 (0 :: 16 word)) 3 = (replicate 60 0)[3 := 1]"
    by (simp add: bump_def cell_def)
  from t have 1: "midCounts (tick (6 / 100) 0 e) = (replicate 60 0)[3 := 1]"
    by (simp add: te f fallStep_def inFlight_def Let_def b)
  from t have 2: "sampleParticles (tick (6 / 100) 0 e)
      = [\<lparr>s_col = 5, s_x = 0, s_y = 2104 / 100, s_vy = 84, s_targetY = 536\<rparr>]"
    by (simp add: te f fallStep_def inFlight_def Let_def)
  from 1 2 3 show ?thesis
    unfolding e_def by simp
qed


subsection \<open>The redraw flag\<close>

lemma sampleN_result:
  "sampleN n e = Inr (xs, cols, e1) \<Longrightarrow> \<exists>t. e1 = e\<lparr>rng := t\<rparr>"
  by (auto simp: sampleN_unfold split: sum.splits prod.splits)

lemma startSample_flag:
  assumes "startSample now n d e = Inr e'"
  shows "needsRedraw e' = needsRedraw e"
proof -
  from assms obtain xs cols e1 where s: "sampleN n e = Inr (xs, cols, e1)"
    and e': "e' = scheduleEmission now xs cols d e1"
    by (auto simp: startSample_def split: sum.splits)
  from sampleN_result [OF s] obtain t where "e1 = e\<lparr>rng := t\<rparr>" by blast
  with e' show ?thesis by (simp add: scheduleEmission_def)
qed

lemma calculateWithGather_flag:
  "needsRedraw (calculateWithGather now e) = needsRedraw e"
  by (simp add: calculateWithGather_def Let_def)

lemma drawSampleWithAutoCalculate_flag:
  assumes "drawSampleWithAutoCalculate now n d e = Inr (e', cb)"
  shows "needsRedraw e' = needsRedraw e"
proof (cases "length (lastSample e) \<noteq> 0 \<or> hasSampleInMid e")
  case True
  with assms have "e' = calculateWithGather now e"
    by (simp add: drawSampleWithAutoCalculate_def)
  then show ?thesis by (simp add: calculateWithGather_flag)
next
  case False
  with assms obtain e2 where "startSample now n d e = Inr e2" "e' = e2"
    by (auto simp: drawSampleWithAutoCalculate_def split: sum.splits)
  then show ?thesis using startSample_flag by blast
qed

lemma handleRepeatTurbo_flag:
  "handleRepeatTurbo n e = Inr e' \<Longrightarrow> needsRedraw e'"
  by (auto simp: handleRepeatTurbo_def split: sum.splits)

lemma tick_changes_set_flag: "tick dt now e = e \<or> needsRedraw (tick dt now e)"
proof (cases "hasActiveAnimations e")
  case True
  then show ?thesis by (simp add: tick_needsRedraw)
next
  case False
  then show ?thesis by (simp add: tick_idle)
qed

lemma draw_clean: "\<not> needsRedraw e \<Longrightarrow> draw e = e"
  by (simp add: draw_def split: option.splits)

lemma draw_dirty:
  "needsRedraw e \<Longrightarrow> ctx e = Some c \<Longrightarrow>
     \<not> needsRedraw (draw e) \<and> ctx (draw e) = Some (c\<lparr>repaints := repaints c + 1\<rparr>)"
  by (simp add: draw_def)

lemma edits_set_flag:
  "needsRedraw (applyGenerator name e)
   \<and> (clickPopulation x y e = e \<or> needsRedraw (clickPopulation x y e))
   \<and> (altClickPopulation x y e = e \<or> needsRedraw (altClickPopulation x y e))
   \<and> needsRedraw (statisticSelect_change s e)
   \<and> needsRedraw (thresholdSlider_input v e)
   \<and> needsRedraw (resetGeometry w h1 h2 h3 e)
   \<and> needsRedraw (layoutFromViewport w h e)
   \<and> needsRedraw (resizeCanvas w h e)"
  by (simp add: applyGenerator_def clickPopulation_def altClickPopulation_def
      statisticSelect_change_def thresholdSlider_input_def resetGeometry_def
      layoutFromViewport_def resizeCanvas_def Let_def)

lemma resets_set_flag:
  "needsRedraw (clearTray e) \<and> needsRedraw (resetExperiment e) \<and> needsRedraw (resetBtn_click e)
   \<and> needsRedraw (paramLineCheckbox_change b1 e) \<and> needsRedraw (normalFitCheckbox_change b2 e)"
  by (simp add: clearTray_def resetExperiment_def resetBtn_click_def paramLineCheckbox_change_def
      normalFitCheckbox_change_def)

lemma requests_keep_flag:
  "needsRedraw (calculateWithGather now e) = needsRedraw e
   \<and> needsRedraw (scheduleEmission now xs cols d e) = needsRedraw e
   \<and> needsRedraw (speedSelect_change sp e) = needsRedraw e
   \<and> needsRedraw (seedInput_input seed e) = needsRedraw e"
  by (simp add: calculateWithGather_flag scheduleEmission_def speedSelect_change_def
      seedInput_input_def)

lemma active_tick_sets_flag: "hasActiveAnimations e \<Longrightarrow> needsRedraw (tick dt now e)"
  by (simp add: tick_needsRedraw)

lemma calculateWithGather_active:
  "calculateWithGather now e = e \<or> hasActiveAnimations (calculateWithGather now e)"
  by (simp add: calculateWithGather_def hasActiveAnimations_def Let_def)

lemma startSample_plan:
  assumes "startSample now n d e = Inr e'"
  shows "emissionPlan e' \<noteq> None"
proof -
  from assms obtain xs cols e1 where "e' = scheduleEmission now xs cols d e1"
    by (auto simp: startSample_def split: sum.splits)
  then show ?thesis by (simp add: scheduleEmission_def)
qed

lemma startSample_active:
  "startSample now n d e = Inr e' \<Longrightarrow> hasActiveAnimations e'"
  using startSample_plan [of now n d e e'] by (simp add: hasActiveAnimations_def)

lemma others_keep_flag:
  assumes "needsRedraw e"
  shows "needsRedraw (tick dt now e) \<and> needsRedraw (clickPopulation x y e)
        \<and> needsRedraw (altClickPopulation x y e)"
  using assms
  by (simp add: tick_needsRedraw clickPopulation_def altClickPopulation_def Let_def)

lemma c7_clean_fields:
  "\<not> needsRedraw c7_clean" "lastSample c7_clean = [colValue 15, colValue 45]"
  "midCounts c7_clean = zeros16[15 := 1, 45 := 1]" "\<not> gathering c7_clean"
  "emissionPlan c7_clean = None" "speed c7_clean = ''normal''" "rng c7_clean = 1234"
  "ctx c7_clean = Some \<lparr>repaints = 1\<rparr>"
  by (simp_all add: c7_clean_def newEngine_def resetGeometry_def Let_def rngMulberry32_def)

lemma c7_started_eq: "startSample 0 (Fin 2) 1200 c7_clean = Inr c7_started"
proof -
  have k: "(2 :: nat) < 2 ^ 32" by simp
  from sampleN_props [OF k, of c7_clean, unfolded of_nat_numeral]
  obtain xs cols e1 where "sampleN (Fin 2) c7_clean = Inr (xs, cols, e1)" by blast
  then show ?thesis by (simp add: c7_started_def startSample_def)
qed

text \<open>
  Claim C7, as stated, fails for the sampling requests and for two of the control
  handlers: they change the engine and leave the flag as it is. On the engine at rest,
  whose flag is clear, \<^verbatim>\<open>calculateWithGather\<close> empties the sample histogram and starts
  a gather, \<^verbatim>\<open>startSample\<close> installs an emission plan, the speed handler changes the
  speed and the seed handler replaces the generator, and after each of them the flag is
  still clear, so that \<^verbatim>\<open>draw\<close> called right after the gather request paints nothing.
\<close>

theorem request_leaves_flag_clear_counterexample:
  "\<not> needsRedraw c7_clean
   \<and> midCounts c7_clean \<noteq> zeros16
   \<and> midCounts (calculateWithGather 0 c7_clean) = zeros16
   \<and> \<not> gathering c7_clean
   \<and> gathering (calculateWithGather 0 c7_clean)
   \<and> \<not> needsRedraw (calculateWithGather 0 c7_clean)
   \<and> draw (calculateWithGather 0 c7_clean) = calculateWithGather 0 c7_clean
   \<and> emissionPlan c7_clean = None
   \<and> startSample 0 (Fin 2) 1200 c7_clean = Inr c7_started
   \<and> emissionPlan c7_started \<noteq> None
   \<and> \<not> needsRedraw c7_started
   \<and> speed c7_clean = ''normal''
   \<and> speed (speedSelect_change ''fast'' c7_clean) = ''fast''
   \<and> \<not> needsRedraw (speedSelect_change ''fast'' c7_clean)
   \<and> rng c7_clean = 1234
   \<and> rng (seedInput_input 7 c7_clean) = 7
   \<and> \<not> needsRedraw (seedInput_input 7 c7_clean)"
proof -
  note f = c7_clean_fields
  have "midCounts c7_clean ! 15 \<noteq> zeros16 ! 15"
    by (simp add: f zeros16_def COLS_def)
  then have 1: "midCounts c7_clean \<noteq> zeros16"
    by (rule contrapos_nn) (simp only:)
  have 2: "midCounts (calculateWithGather 0 c7_clean) = zeros16"
    "gathering (calculateWithGather 0 c7_clean)"
    by (simp_all add: calculateWithGather_def f Let_def)
  have 3: "\<not> needsRedraw (calculateWithGather 0 c7_clean)"
    by (simp add: calculateWithGather_flag f)
  then have 4: "draw (calculateWithGather 0 c7_clean) = calculateWithGather 0 c7_clean"
    by (rule draw_clean)
  note 5 = c7_started_eq
  have 6: "emissionPlan c7_started \<noteq> None"
    using 5 by (rule startSample_plan)
  have 7: "\<not> needsRedraw c7_started"
    using startSample_flag [OF 5] by (simp add: f)
  have 8: "speed (speedSelect_change ''fast'' c7_clean) = ''fast''"
    "\<not> needsRedraw (speedSelect_change ''fast'' c7_clean)"
    "rng (seedInput_input 7 c7_clean) = 7"
    "\<not> needsRedraw (seedInput_input 7 c7_clean)"
    by (simp_all add: speedSelect_change_def seedInput_input_def f rngMulberry32_def)
  from f(1) 1 2(1) f(4) 2(2) 3 4 f(5) 5 6 7 f(6) 8(1,2) f(7) 8(3,4) show ?thesis
    by (intro conjI)
qed

text \<open>
  Claim C7, amended. With \<open>needsRedraw\<close> clear, \<^verbatim>\<open>draw\<close> returns the engine unchanged,
  drawing surface included; with the flag set (and a drawing context) it repaints once
  and clears the flag. The flag is set, whatever it was, by \<^verbatim>\<open>applyGenerator\<close>, by the
  statistic and threshold handlers, by the two overlay checkboxes, by the geometry
  changes, by \<^verbatim>\<open>clearTray\<close>, \<^verbatim>\<open>resetExperiment\<close> and the reset button, and by
  \<^verbatim>\<open>handleRepeatTurbo\<close> when it returns; by a population click unless the click is
  outside the population tier and changes nothing; and by \<^verbatim>\<open>tick\<close> whenever an
  animation is active, while a \<^verbatim>\<open>tick\<close> without one changes nothing. The sampling
  requests (\<^verbatim>\<open>calculateWithGather\<close>, \<^verbatim>\<open>scheduleEmission\<close>, \<^verbatim>\<open>startSample\<close>,
  \<^verbatim>\<open>drawSampleWithAutoCalculate\<close>) and the speed and seed handlers leave the flag as
  it is; a sampling request that changes the engine leaves an animation active, so the
  next \<^verbatim>\<open>tick\<close> sets the flag. No operation other than \<^verbatim>\<open>draw\<close> clears the flag.
\<close>

theorem needsRedraw_gates_draw:
  "(\<not> needsRedraw e \<longrightarrow> draw e = e)
   \<and> (needsRedraw e \<and> ctx e = Some c \<longrightarrow>
        \<not> needsRedraw (draw e) \<and> ctx (draw e) = Some (c\<lparr>repaints := repaints c + 1\<rparr>))
   \<and> needsRedraw (applyGenerator name e)
   \<and> (clickPopulation x y e = e \<or> needsRedraw (clickPopulation x y e))
   \<and> (altClickPopulation x y e = e \<or> needsRedraw (altClickPopulation x y e))
   \<and> needsRedraw (statisticSelect_change s e)
   \<and> needsRedraw (thresholdSlider_input v e)
   \<and> needsRedraw (paramLineCheckbox_change b1 e)
   \<and> needsRedraw (normalFitCheckbox_change b2 e)
   \<and> needsRedraw (resetGeometry w h1 h2 h3 e)
   \<and> needsRedraw (layoutFromViewport w h e)
   \<and> needsRedraw (resizeCanvas w h e)
   \<and> needsRedraw (clearTray e)
   \<and> needsRedraw (resetExperiment e)
   \<and> needsRedraw (resetBtn_click e)
   \<and> (\<forall>e'. handleRepeatTurbo n e = Inr e' \<longrightarrow> needsRedraw e')
   \<and> (hasActiveAnimations e \<longrightarrow> needsRedraw (tick dt now e))
   \<and> (\<not> hasActiveAnimations e \<longrightarrow> tick dt now e = e)
   \<and> needsRedraw (calculateWithGather now e) = needsRedraw e
   \<and> needsRedraw (scheduleEmission now xs cols d e) = needsRedraw e
   \<and> needsRedraw (speedSelect_change sp e) = needsRedraw e
   \<and> needsRedraw (seedInput_input seed e) = needsRedraw e
   \<and> (\<forall>e'. startSample now n d e = Inr e' \<longrightarrow> needsRedraw e' = needsRedraw e)
   \<and> (\<forall>e' cb. drawSampleWithAutoCalculate now n d e = Inr (e', cb) \<longrightarrow>
          needsRedraw e' = needsRedraw e)
   \<and> (calculateWithGather now e = e
        \<or> needsRedraw (tick dt now' (calculateWithGather now e)))
   \<and> (\<forall>e'. startSample now n d e = Inr e' \<longrightarrow> needsRedraw (tick dt now' e'))
   \<and> (needsRedraw e \<longrightarrow>
        needsRedraw (tick dt now e) \<and> needsRedraw (clickPopulation x y e)
        \<and> needsRedraw (altClickPopulation x y e))"
proof -
  have a: "\<not> needsRedraw e \<longrightarrow> draw e = e"
    using draw_clean by blast
  have b: "needsRedraw e \<and> ctx e = Some c \<longrightarrow>
        \<not> needsRedraw (draw e) \<and> ctx (draw e) = Some (c\<lparr>repaints := repaints c + 1\<rparr>)"
    using draw_dirty by blast
  have c: "(\<forall>e'. handleRepeatTurbo n e = Inr e' \<longrightarrow> needsRedraw e')
        \<and> (\<forall>e'. startSample now n d e = Inr e' \<longrightarrow> needsRedraw e' = needsRedraw e)
        \<and> (\<forall>e' cb. drawSampleWithAutoCalculate now n d e = Inr (e', cb) \<longrightarrow>
              needsRedraw e' = needsRedraw e)"
    using startSample_flag drawSampleWithAutoCalculate_flag handleRepeatTurbo_flag by blast
  have d: "(hasActiveAnimations e \<longrightarrow> needsRedraw (tick dt now e))
        \<and> (\<not> hasActiveAnimations e \<longrightarrow> tick dt now e = e)"
    using active_tick_sets_flag [of e dt now] tick_idle [of e dt now] by blast
  have g: "calculateWithGather now e = e
        \<or> needsRedraw (tick dt now' (calculateWithGather now e))"
    using calculateWithGather_active [of now e]
      active_tick_sets_flag [of "calculateWithGather now e" dt now']
    by blast
  have h: "\<forall>e'. startSample now n d e = Inr e' \<longrightarrow> needsRedraw (tick dt now' e')"
    using startSample_active active_tick_sets_flag by blast
  have k: "needsRedraw e \<longrightarrow>
        needsRedraw (tick dt now e) \<and> needsRedraw (clickPopulation x y e)
        \<and> needsRedraw (altClickPopulation x y e)"
    using others_keep_flag [of e dt now x y] by blast
  from a b c d g h k edits_set_flag [of name e x y s v w h1 h2 h3 h]
    resets_set_flag [of e b1 b2] requests_keep_flag [of now e xs cols d sp seed]
  show ?thesis by (intro conjI) blast+
qed

theorem needsRedraw_gates_draw_witness:
  "draw c7_clean = c7_clean
   \<and> \<not> needsRedraw (draw (newEngine (Some \<lparr>repaints = 0\<rparr>)))
   \<and> ctx (draw (newEngine (Some \<lparr>repaints = 0\<rparr>))) = Some \<lparr>repaints = 1\<rparr>
   \<and> tick (6 / 100) 0 c7_clean = c7_clean
   \<and> needsRedraw (clearTray c7_clean)
   \<and> needsRedraw (tick (6 / 100) 16 (calculateWithGather 0 c7_clean))
   \<and> startSample 0 (Fin 2) 1200 c7_clean = Inr c7_started
   \<and> \<not> needsRedraw c7_started
   \<and> needsRedraw (tick (6 / 100) 16 c7_started)
   \<and> needsRedraw (tick (6 / 100) 32 (tick (6 / 100) 16 c7_started))"
proof -
  define e0 where "e0 = newEngine (Some \<lparr>repaints = 0\<rparr>)"
  have f: "needsRedraw e0" "ctx e0 = Some \<lparr>repaints = 0\<rparr>"
    by (simp_all add: e0_def newEngine_def resetGeometry_def Let_def)
  note cf = c7_clean_fields
  have idle: "\<not> hasActiveAnimations c7_clean"
    by (simp add: hasActiveAnimations_def c7_clean_def newEngine_def resetGeometry_def Let_def)
  note t0 = needsRedraw_gates_draw [where e = e0 and c = "\<lparr>repaints = 0\<rparr>" and dt = "6 / 100"
      and now = 0 and now' = 16 and name = "''uniform''" and x = 0 and y = 0 and s = "''sd''"
      and v = NaN and w = 960 and h = 700 and ?h1.0 = 300 and ?h2.0 = 240 and ?h3.0 = 360
      and xs = "[]" and cols = "[]" and d = 1200 and sp = "''fast''" and seed = 7
      and ?b1.0 = True and ?b2.0 = True and n = "Fin 2"]
  from t0 f have 2: "\<not> needsRedraw (draw e0)"
    "ctx (draw e0) = Some (\<lparr>repaints = 0\<rparr>\<lparr>repaints := repaints \<lparr>repaints = 0\<rparr> + 1\<rparr>)"
    by blast+
  note t1 = needsRedraw_gates_draw [where e = c7_clean and c = "\<lparr>repaints = 1\<rparr>"
      and dt = "6 / 100"
      and now = 0 and now' = 16 and name = "''uniform''" and x = 0 and y = 0 and s = "''sd''"
      and v = NaN and w = 960 and h = 700 and ?h1.0 = 300 and ?h2.0 = 240 and ?h3.0 = 360
      and xs = "[]" and cols = "[]" and d = 1200 and sp = "''fast''" and seed = 7
      and ?b1.0 = True and ?b2.0 = True and n = "Fin 2"]
  from t1 cf(1) have 1: "draw c7_clean = c7_clean" by blast
  from t1 idle have 3: "tick (6 / 100) 0 c7_clean = c7_clean" by blast
  from t1 have 4: "needsRedraw (clearTray c7_clean)" by blast
  have "gathering (calculateWithGather 0 c7_clean)"
    by (simp add: calculateWithGather_def cf Let_def)
  with cf(4) have "calculateWithGather 0 c7_clean \<noteq> c7_clean" by auto
  with t1 have 5: "needsRedraw (tick (6 / 100) 16 (calculateWithGather 0 c7_clean))" by blast
  note 6 = c7_started_eq
  from t1 6 cf(1) have 7: "\<not> needsRedraw c7_started" by blast
  from t1 6 have 8: "needsRedraw (tick (6 / 100) 16 c7_started)" by blast
  note t2 = needsRedraw_gates_draw [where e = "tick (6 / 100) 16 c7_started"
      and c = "\<lparr>repaints = 1\<rparr>" and dt = "6 / 100"
      and now = 32 and now' = 16 and name = "''uniform''" and x = 0 and y = 0 and s = "''sd''"
      and v = NaN and w = 960 and h = 700 and ?h1.0 = 300 and ?h2.0 = 240 and ?h3.0 = 360
      and xs = "[]" and cols = "[]" and d = 1200 and sp = "''fast''" and seed = 7
      and ?b1.0 = True and ?b2.0 = True and n = "Fin 2"]
  from t2 8 have 9: "needsRedraw (tick (6 / 100) 32 (tick (6 / 100) 16 c7_started))" by blast
  from 1 2 3 4 5 6 7 8 9 show ?thesis
    unfolding e0_def by simp
qed

subsection \<open>Requests while a sample is current\<close>

lemma cell_zeros16: "cell zeros16 i = 0"
  by (simp add: cell_def zeros16_def)

lemma hasSampleInMid_zeros: "midCounts e = zeros16 \<Longrightarrow> \<not> hasSampleInMid e"
  by (simp add: hasSampleInMid_def list_ex_iff cell_zeros16)

lemma newEngine_fields:
  "lastSample (newEngine c) = []" "midCounts (newEngine c) = zeros16"
  "botCounts (newEngine c) = zeros32" "popCounts (newEngine c) = zeros16"
  "sampleParticles (newEngine c) = []" "statParticles (newEngine c) = []"
  "popFlashes (newEngine c) = []" "gatherParticles (newEngine c) = []"
  "emissionPlan (newEngine c) = None" "\<not> gathering (newEngine c)"
  "gatherTarget (newEngine c) = None" "speed (newEngine c) = ''normal''"
  "marginY (newEngine c) = 8" "H_TOP (newEngine c) = 300" "H_MID (newEngine c) = 240"
  "BOX_TOP_Y (newEngine c) = 8" "BOX_MID_Y (newEngine c) = 8"
  by (simp_all add: newEngine_def resetGeometry_def Let_def)

lemma c2_first_eq:
  "\<exists>xs cols t. c2_first = scheduleEmission 0 xs cols 1200 ((newEngine None)\<lparr>rng := t\<rparr>)
     \<and> length xs = 2 \<and> length cols = 2 \<and> (\<forall>c \<in> set cols. c < COLS)"
proof -
  have k: "(2 :: nat) < 2 ^ 32" by simp
  from sampleN_props [OF k, of "newEngine None", unfolded of_nat_numeral]
  obtain xs cols where s:
    "sampleN (Fin 2) (newEngine None)
       = Inr (xs, cols, (newEngine None)\<lparr>rng := (rng_advance ^^ 2) (rng (newEngine None))\<rparr>)"
    "length xs = 2" "length cols = 2" "\<forall>c \<in> set cols. c < COLS"
    by blast
  have "\<not> hasSampleInMid (newEngine None)"
    by (rule hasSampleInMid_zeros) (rule newEngine_fields)
  then have "c2_first = scheduleEmission 0 xs cols 1200
      ((newEngine None)\<lparr>rng := (rng_advance ^^ 2) (rng (newEngine None))\<rparr>)"
    using s(1) by (simp add: c2_first_def drawSampleWithAutoCalculate_def startSample_def newEngine_fields)
  with s(2,3,4) show ?thesis by blast
qed


lemma tickGather_lastSample: "lastSample (tickGather now e) = lastSample e"
  by (simp add: tickGather_def Let_def split: option.splits)

lemma tick_frame:
  "emissionPlan (tick dt now e) = emissionPlan (tickEmission now e)
   \<and> lastSample (tick dt now e) = lastSample e
   \<and> popCounts (tick dt now e) = popCounts e"
proof -
  define g :: real where "g = (if speed e = ''fast'' then 2400 else 1400)"
  define e2 where "e2 = tickSamples g dt (tickEmission now e)"
  have a: "emissionPlan e2 = emissionPlan (tickEmission now e)" "lastSample e2 = lastSample e"
    "popCounts e2 = popCounts e"
    by (simp_all add: e2_def tickSamples_eq tickEmission_frame)
  have "emissionPlan (tick dt now e) = emissionPlan (tickStats g dt (tickGather now e2))"
    "lastSample (tick dt now e) = lastSample (tickStats g dt (tickGather now e2))"
    "popCounts (tick dt now e) = popCounts (tickStats g dt (tickGather now e2))"
    by (simp_all add: tick_def Let_def e2_def g_def)
  with a show ?thesis
    by (simp add: tickStats_eq tickGather_frame tickGather_lastSample)
qed

lemma tick_no_gather:
  assumes "\<not> gathering e" and "statParticles e = []"
  shows "botCounts (tick dt now e) = botCounts e \<and> statParticles (tick dt now e) = []
       \<and> \<not> gathering (tick dt now e)"
proof -
  define g :: real where "g = (if speed e = ''fast'' then 2400 else 1400)"
  define e2 where "e2 = tickSamples g dt (tickEmission now e)"
  from assms have a: "\<not> gathering e2" "statParticles e2 = []" "botCounts e2 = botCounts e"
    by (simp_all add: e2_def tickSamples_eq tickEmission_frame)
  from a(1) have 3: "tickGather now e2 = e2" by (rule tickGather_idle)
  have "botCounts (tick dt now e) = botCounts (tickStats g dt (tickGather now e2))"
    "statParticles (tick dt now e) = statParticles (tickStats g dt (tickGather now e2))"
    "gathering (tick dt now e) = gathering (tickStats g dt (tickGather now e2))"
    by (simp_all add: tick_def Let_def e2_def g_def)
  with a 3 show ?thesis
    by (simp add: tickStats_eq)
qed

lemma c2_tick_facts:
  "map_option (\<lambda>p. (p_start p, p_end p, p_total p, p_emitted p)) (emissionPlan c2_tick)
     = Some (0, 1200, 2, 1)
   \<and> length (sampleParticles c2_tick) = 1
   \<and> length (lastSample c2_tick) = 2
   \<and> midCounts c2_tick = zeros16 \<and> botCounts c2_tick = zeros32
   \<and> statParticles c2_tick = [] \<and> popCounts c2_tick = zeros16"
proof -
  from c2_first_eq obtain xs cols t where f:
    "c2_first = scheduleEmission 0 xs cols 1200 ((newEngine None)\<lparr>rng := t\<rparr>)"
    "length xs = 2" "length cols = 2" "\<forall>c \<in> set cols. c < COLS"
    by blast
  define c0 where "c0 = cols ! 0"
  from f(3,4) have c0: "c0 < COLS" by (simp add: c0_def)
  then have z: "zeros16 ! (cols ! 0) = 0" by (simp add: zeros16_def c0_def)
  define a0 where "a0 = \<lparr>s_col = c0, s_x = colCenter c2_first c0, s_y = 16, s_vy = 0, s_targetY = 536\<rparr>"
  have fields: "emissionPlan c2_first = Some \<lparr>p_start = 0, p_end = 1200, p_total = 2, p_emitted = 0,
                                  p_cols = cols, p_xs = xs\<rparr>"
    "sampleParticles c2_first = []" "midCounts c2_first = zeros16" "popCounts c2_first = zeros16"
    "botCounts c2_first = zeros32" "statParticles c2_first = []" "\<not> gathering c2_first"
    "lastSample c2_first = xs" "speed c2_first = ''normal''"
    "marginY c2_first = 8" "H_TOP c2_first = 300" "H_MID c2_first = 240"
    "BOX_TOP_Y c2_first = 8" "BOX_MID_Y c2_first = 8"
    using f(3) by (simp_all add: f(1) scheduleEmission_def newEngine_fields)
  have te: "sampleParticles (tickEmission 600 c2_first) = [a0]"
    "emissionPlan (tickEmission 600 c2_first)
       = Some \<lparr>p_start = 0, p_end = 1200, p_total = 2, p_emitted = 1, p_cols = cols, p_xs = xs\<rparr>"
    by (simp_all add: tickEmission_def fields clampDiv01_def clamp_def Let_def inflightOf_def
        cell_zeros16 z a0_def c0_def)
  have fl: "inFlight (fallStep 1400 (3 / 50) a0)"
    by (simp add: inFlight_def fallStep_def a0_def Let_def)
  from tick_sample_tier [of "6 / 100" 600 c2_first]
  have 1: "midCounts c2_tick = zeros16" "sampleParticles c2_tick = [fallStep 1400 (3 / 50) a0]"
    by (simp_all add: c2_tick_def fields te fl)
  from tick_frame [of "6 / 100" 600 c2_first]
  have 2: "emissionPlan c2_tick
       = Some \<lparr>p_start = 0, p_end = 1200, p_total = 2, p_emitted = 1, p_cols = cols, p_xs = xs\<rparr>"
    "lastSample c2_tick = xs" "popCounts c2_tick = zeros16"
    by (simp_all add: c2_tick_def fields te)
  from tick_no_gather [OF fields(7) fields(6), of "6 / 100" 600]
  have 3: "botCounts c2_tick = zeros32" "statParticles c2_tick = []"
    by (simp_all add: c2_tick_def fields)
  have A: "map_option (\<lambda>p. (p_start p, p_end p, p_total p, p_emitted p)) (emissionPlan c2_tick)
     = Some (0, 1200, 2, 1)"
    by (simp add: 2(1))
  have B: "length (sampleParticles c2_tick) = 1"
    by (simp add: 1(2))
  have C: "length (lastSample c2_tick) = 2"
    by (simp add: 2(2) f(2))
  from A B C 1(1) 3(1) 3(2) 2(3) show ?thesis
    by (intro conjI)
qed


lemma calculateWithGather_effect:
  assumes "length (lastSample e) \<noteq> 0 \<or> hasSampleInMid e"
  shows "gathering (calculateWithGather now e)"
    and "gatherStart (calculateWithGather now e) = now"
    and "map_option gt_bin (gatherTarget (calculateWithGather now e))
           = Some (binOf (computeStat e (if length (lastSample e) \<noteq> 0 then lastSample e
                                          else midValues e)) (statDomain e))"
    and "lastSample (calculateWithGather now e) = []"
    and "midCounts (calculateWithGather now e) = zeros16"
    and "botCounts (calculateWithGather now e) = botCounts e"
    and "statParticles (calculateWithGather now e) = statParticles e"
    and "emissionPlan (calculateWithGather now e) = emissionPlan e"
    and "sampleParticles (calculateWithGather now e) = sampleParticles e"
    and "popCounts (calculateWithGather now e) = popCounts e"
    and "rng (calculateWithGather now e) = rng e"
  using assms by (auto simp: calculateWithGather_def Let_def)

lemma drawSample_gather_branch:
  assumes "length (lastSample e) \<noteq> 0 \<or> hasSampleInMid e"
  shows "drawSampleWithAutoCalculate now n dropMs e
           = Inr (calculateWithGather now e, Some (n, dropMs))"
  using assms by (auto simp: drawSampleWithAutoCalculate_def)

lemma c2_second_eq: "c2_second = calculateWithGather 600 c2_tick"
proof -
  from c2_tick_facts have "length (lastSample c2_tick) \<noteq> 0 \<or> hasSampleInMid c2_tick" by simp
  then show ?thesis
    by (simp add: c2_second_def drawSample_gather_branch)
qed

lemma startSample_effect:
  assumes "k < 2 ^ 32"
  shows "\<exists>xs cols t. startSample now (Fin (real k)) d e
           = Inr (scheduleEmission now xs cols d (e\<lparr>rng := t\<rparr>))
         \<and> length xs = k \<and> length cols = k"
proof -
  from sampleN_props [OF assms, of e] obtain xs cols where s:
    "sampleN (Fin (real k)) e = Inr (xs, cols, e\<lparr>rng := (rng_advance ^^ k) (rng e)\<rparr>)"
    "length xs = k" "length cols = k"
    by blast
  from s(1) have "startSample now (Fin (real k)) d e
      = Inr (scheduleEmission now xs cols d (e\<lparr>rng := (rng_advance ^^ k) (rng e)\<rparr>))"
    by (simp add: startSample_def)
  with s(2,3) show ?thesis by blast
qed

lemma c2_timer_facts:
  "timerFire 700 (Fin 2, 1200) c2_second = Inr c2_timer
   \<and> map_option (\<lambda>p. (p_start p, p_emitted p, p_total p)) (emissionPlan c2_timer) = Some (700, 0, 2)
   \<and> map_option p_xs (emissionPlan c2_timer) = Some (lastSample c2_timer)
   \<and> sampleParticles c2_timer = sampleParticles c2_second
   \<and> midCounts c2_timer = midCounts c2_second
   \<and> botCounts c2_timer = botCounts c2_second"
proof -
  have k: "(2 :: nat) < 2 ^ 32" by simp
  from startSample_effect [OF k, of 700 1200 c2_second, unfolded of_nat_numeral]
  obtain xs cols t where st:
    "startSample 700 (Fin 2) 1200 c2_second
       = Inr (scheduleEmission 700 xs cols 1200 (c2_second\<lparr>rng := t\<rparr>))"
    "length xs = 2" "length cols = 2"
    by blast
  then have t: "c2_timer = scheduleEmission 700 xs cols 1200 (c2_second\<lparr>rng := t\<rparr>)"
    by (simp add: c2_timer_def timerFire_def)
  have 1: "timerFire 700 (Fin 2, 1200) c2_second = Inr c2_timer"
    using st(1) t by (simp add: timerFire_def)
  have 2: "map_option (\<lambda>p. (p_start p, p_emitted p, p_total p)) (emissionPlan c2_timer) = Some (700, 0, 2)"
    "map_option p_xs (emissionPlan c2_timer) = Some (lastSample c2_timer)"
    "sampleParticles c2_timer = sampleParticles c2_second"
    "midCounts c2_timer = midCounts c2_second"
    "botCounts c2_timer = botCounts c2_second"
    using st(3) by (simp_all add: t scheduleEmission_def)
  from 1 2 show ?thesis by (intro conjI)
qed

lemma mean_sample1: "\<exists>m. mean [3 / 40, 17 / 24] = Fin m \<and> \<bar>m - 47 / 120\<bar> \<le> 1 / 1000"
proof -
  from dbl_near [of "3 / 40"] obtain a where a: "dbl (3 / 40) = Fin a" "\<bar>a - 3 / 40\<bar> \<le> 1 / 9007199254740992"
    by auto
  from dbl_near [of "17 / 24"] obtain b where b: "dbl (17 / 24) = Fin b" "\<bar>b - 17 / 24\<bar> \<le> 1 / 9007199254740992"
    by auto
  from a(2) have "\<bar>0 + a\<bar> \<le> 1" by linarith
  from dbl_near [OF this] obtain s1 where s1: "dbl (0 + a) = Fin s1" "\<bar>s1 - (0 + a)\<bar> \<le> 1 / 9007199254740992"
    by auto
  from a(2) b(2) s1(2) have "\<bar>s1 + b\<bar> \<le> 1" by linarith
  from dbl_near [OF this] obtain s2 where s2: "dbl (s1 + b) = Fin s2" "\<bar>s2 - (s1 + b)\<bar> \<le> 1 / 9007199254740992"
    by auto
  from a(2) b(2) s1(2) s2(2) have "\<bar>s2 / 2\<bar> \<le> 1" by linarith
  from dbl_near [OF this] obtain m where m: "dbl (s2 / 2) = Fin m" "\<bar>m - s2 / 2\<bar> \<le> 1 / 9007199254740992"
    by auto
  have "mean [3 / 40, 17 / 24] = Fin m"
    using a(1) b(1) s1(1) s2(1) m(1) by (simp add: mean_def div_length_def)
  moreover from a(2) b(2) s1(2) s2(2) m(2) have "\<bar>m - 47 / 120\<bar> \<le> 1 / 1000" by linarith
  ultimately show ?thesis by blast
qed

lemma bin_sample1: "binOf (mean [3 / 40, 17 / 24]) (0, 1) = Some 23"
proof -
  from mean_sample1 obtain m where m: "mean [3 / 40, 17 / 24] = Fin m" "\<bar>m - 47 / 120\<bar> \<le> 1 / 1000"
    by blast
  define q where "q = m * 1000000000 / 1000000001"
  from m(2) have "39 / 100 \<le> m" "m \<le> 393 / 1000" by linarith+
  then have "23 / 60 \<le> q" "q < 24 / 60"
    by (simp_all add: q_def field_simps)
  then have c: "clamp q 0 1 = q" "\<lfloor>q * 60\<rfloor> = 23"
    by (simp_all add: clamp_def floor_eq_iff)
  show ?thesis
    using c by (simp add: m(1) binOf_def x01Of_def clampDiv01_def q_def [symmetric] clampi_def
        STAT_BINS_def COLS_def)
qed

lemma rng_outputs:
  "rng_call 1234 = (314799534, 1831567047)"
  "rng_call 1831567047 = (3021131492, 3663132860)"
  by (simp_all add: rng_call_def dbl_round_small Let_def)

lemma unat_outputs:
  "unat (314799534 :: 32 word) = 314799534" "unat (3021131492 :: 32 word) = 3021131492"
  by simp_all

lemma uniform_cols:
  "nat \<lfloor>rng_times 314799534 60\<rfloor> = 4" "nat \<lfloor>rng_times 3021131492 60\<rfloor> = 42"
  by (simp_all add: rng_times_def unat_outputs dbl_round_small floor_nat_div)

lemma sample1: "sampleUniform 2 1234 = ([3 / 40, 17 / 24], [4, 42], 3663132860)"
  by (simp add: numeral_2_eq_2 rng_outputs uniform_cols colValue_def COLS_def Let_def)

lemma foldl_add_nat:
  "foldl (\<lambda>tot i. tot + f i) a xs = a + sum_list (map f xs)" for a :: nat
  by (induction xs arbitrary: a) simp_all

lemma popTotal_zeros: "popTotal zeros16 = 0"
  by (simp add: popTotal_def foldl_add_nat zeros16_def)


lemma newEngine_all:
  "ctx (newEngine c) = c" "plotW (newEngine c) = 960" "gridW (newEngine c) = 900"
  "colW (newEngine c) = 15" "BOX (newEngine c) = 15" "gridX0 (newEngine c) = 30"
  "H_TOP (newEngine c) = 300" "H_MID (newEngine c) = 240" "H_BOT (newEngine c) = 360"
  "marginY (newEngine c) = 8" "BOX_TOP_Y (newEngine c) = 8" "BOX_MID_Y (newEngine c) = 8"
  "BOX_BOT_Y (newEngine c) = 8" "popCounts (newEngine c) = zeros16"
  "midCounts (newEngine c) = zeros16" "botCounts (newEngine c) = zeros32"
  "sampleParticles (newEngine c) = []" "statParticles (newEngine c) = []"
  "popFlashes (newEngine c) = []" "gatherParticles (newEngine c) = []"
  "gatherTarget (newEngine c) = None" "gathering (newEngine c) = False"
  "gatherStart (newEngine c) = 0" "gatherDur (newEngine c) = 260"
  "emissionPlan (newEngine c) = None" "lastSample (newEngine c) = []"
  "statistic (newEngine c) = ''mean''" "threshold (newEngine c) = Fin (1 / 2)"
  "speed (newEngine c) = ''normal''" "rng (newEngine c) = 1234"
  "needsRedraw (newEngine c) = True" "lastGatheringSample (newEngine c) = None"
  by (simp_all add: newEngine_def resetGeometry_def Let_def PAD_def COLS_def rngMulberry32_def)

lemma c2_first_state:
  "c2_first = (newEngine None)
     \<lparr>emissionPlan := Some \<lparr>p_start = 0, p_end = 1200, p_total = 2, p_emitted = 0,
                              p_cols = [4, 42], p_xs = [3 / 40, 17 / 24]\<rparr>,
      lastSample := [3 / 40, 17 / 24], rng := 3663132860\<rparr>"
proof -
  have "\<not> hasSampleInMid (newEngine None)"
    by (rule hasSampleInMid_zeros) (rule newEngine_all)
  moreover have "sampleN (Fin 2) (newEngine None)
      = Inr ([3 / 40, 17 / 24], [4, 42], (newEngine None)\<lparr>rng := 3663132860\<rparr>)"
    by (simp add: sampleN_unfold newArray_def newEngine_all popTotal_zeros sample1)
  ultimately show ?thesis
    by (simp add: c2_first_def drawSampleWithAutoCalculate_def startSample_def scheduleEmission_def
        newEngine_all)
qed


lemma zeros16_nth: "i < 60 \<Longrightarrow> zeros16 ! i = 0"
  by (simp add: zeros16_def COLS_def)

lemma c2_tick_state:
  "c2_tick = (newEngine None)
     \<lparr>sampleParticles := [\<lparr>s_col = 4, s_x = 195 / 2, s_y = 526 / 25, s_vy = 84, s_targetY = 536\<rparr>],
      popFlashes := [\<lparr>f_col = 4, f_y = 16, f_until = 760\<rparr>],
      emissionPlan := Some \<lparr>p_start = 0, p_end = 1200, p_total = 2, p_emitted = 1,
                              p_cols = [4, 42], p_xs = [3 / 40, 17 / 24]\<rparr>,
      lastSample := [3 / 40, 17 / 24], rng := 3663132860\<rparr>"
  by (simp add: c2_tick_def c2_first_state tick_def tickEmission_def tickSamples_def
      tickGather_def tickStats_def hasActiveAnimations_def newEngine_all clampDiv01_def clamp_def
      inflightOf_def cell_zeros16 zeros16_nth colCenter_def fallStep_def inFlight_def Let_def)


lemma midGatherParticles_zeros: "midCounts e = zeros16 \<Longrightarrow> midGatherParticles e = []"
  by (simp add: midGatherParticles_def cell_zeros16 Let_def)

lemma c2_second_state:
  "c2_second = (newEngine None)
     \<lparr>sampleParticles := [\<lparr>s_col = 4, s_x = 195 / 2, s_y = 526 / 25, s_vy = 84, s_targetY = 536\<rparr>],
      popFlashes := [\<lparr>f_col = 4, f_y = 16, f_until = 760\<rparr>],
      gatherTarget := Some \<lparr>gt_x = Fin (765 / 2), gt_y = 428, gt_bin = Some 23\<rparr>,
      gathering := True, gatherStart := 600,
      emissionPlan := Some \<lparr>p_start = 0, p_end = 1200, p_total = 2, p_emitted = 1,
                              p_cols = [4, 42], p_xs = [3 / 40, 17 / 24]\<rparr>,
      rng := 3663132860, lastGatheringSample := Some [3 / 40, 17 / 24]\<rparr>"
proof -
  have m: "midGatherParticles c2_tick = []"
    by (rule midGatherParticles_zeros) (simp add: c2_tick_state newEngine_all)
  show ?thesis
    unfolding c2_second_eq calculateWithGather_def
    by (simp add: m Let_def)
      (simp add: c2_tick_state newEngine_all computeStat_def statDomain_def
        bin_sample1 binCenterX_def)
qed

lemma rng_outputs2:
  "rng_call 3663132860 = (3877737075, 5494698673)"
  "rng_call 5494698673 = (4168477787, 7326264486)"
  by (simp_all add: rng_call_def dbl_round_small Let_def)

lemma unat_outputs2:
  "unat (3877737075 :: 32 word) = 3877737075" "unat (4168477787 :: 32 word) = 4168477787"
  by simp_all

lemma uniform_cols2:
  "nat \<lfloor>rng_times 3877737075 60\<rfloor> = 54" "nat \<lfloor>rng_times 4168477787 60\<rfloor> = 58"
  by (simp_all add: rng_times_def unat_outputs2 dbl_round_small floor_nat_div)

lemma sample2: "sampleUniform 2 3663132860 = ([109 / 120, 39 / 40], [54, 58], 7326264486)"
  by (simp add: numeral_2_eq_2 rng_outputs2 uniform_cols2 colValue_def COLS_def Let_def)

lemma c2_timer_state:
  "c2_timer = (newEngine None)
     \<lparr>sampleParticles := [\<lparr>s_col = 4, s_x = 195 / 2, s_y = 526 / 25, s_vy = 84, s_targetY = 536\<rparr>],
      popFlashes := [\<lparr>f_col = 4, f_y = 16, f_until = 760\<rparr>],
      gatherTarget := Some \<lparr>gt_x = Fin (765 / 2), gt_y = 428, gt_bin = Some 23\<rparr>,
      gathering := True, gatherStart := 600,
      emissionPlan := Some \<lparr>p_start = 700, p_end = 1900, p_total = 2, p_emitted = 0,
                              p_cols = [54, 58], p_xs = [109 / 120, 39 / 40]\<rparr>,
      lastSample := [109 / 120, 39 / 40],
      rng := 7326264486, lastGatheringSample := Some [3 / 40, 17 / 24]\<rparr>"
proof -
  have "sampleN (Fin 2) c2_second
      = Inr ([109 / 120, 39 / 40], [54, 58], c2_second\<lparr>rng := 7326264486\<rparr>)"
    by (simp add: sampleN_unfold newArray_def c2_second_state newEngine_all popTotal_zeros sample2)
  then show ?thesis
    by (simp add: c2_timer_def timerFire_def startSample_def scheduleEmission_def)
      (simp add: c2_second_state)
qed



lemma length_zeros: "length zeros16 = 60" "length zeros32 = 60"
  by (simp_all add: zeros16_def zeros32_def STAT_BINS_def COLS_def)

lemmas tier_eval = fallStep_def inFlight_def bump_def cell_def length_zeros zeros16_nth Let_def

lemma tickGather_speed: "speed (tickGather now e) = speed e"
  by (simp add: tickGather_def Let_def split: option.splits)

lemma tick_after_emission: "speed (tick dt now e) = speed (tickEmission now e)"
  by (simp add: tick_def Let_def tickStats_eq tickGather_speed tickSamples_eq)

lemma tick_tier_idle:
  assumes "emissionPlan e = None" and "speed e = ''normal''"
  shows "emissionPlan (tick dt now e) = None" "speed (tick dt now e) = ''normal''"
    "lastSample (tick dt now e) = lastSample e"
    "midCounts (tick dt now e) =
       foldl bump (midCounts e)
         (map s_col (filter (\<lambda>s. \<not> inFlight s) (map (fallStep 1400 dt) (sampleParticles e))))"
    "sampleParticles (tick dt now e) = filter inFlight (map (fallStep 1400 dt) (sampleParticles e))"
proof -
  have te: "tickEmission now e = e" using assms(1) by (simp add: tickEmission_def)
  show "emissionPlan (tick dt now e) = None" "lastSample (tick dt now e) = lastSample e"
    using tick_frame [of dt now e] by (simp_all add: te assms)
  show "speed (tick dt now e) = ''normal''"
    by (simp add: tick_after_emission te assms)
  show "midCounts (tick dt now e) =
       foldl bump (midCounts e)
         (map s_col (filter (\<lambda>s. \<not> inFlight s) (map (fallStep 1400 dt) (sampleParticles e))))"
    "sampleParticles (tick dt now e) = filter inFlight (map (fallStep 1400 dt) (sampleParticles e))"
    using tick_sample_tier [of dt now e] by (simp_all add: te assms)
qed

lemma c2_timer_fields:
  "speed c2_timer = ''normal''" "midCounts c2_timer = zeros16"
  "lastSample c2_timer = [109 / 120, 39 / 40]"
  by (simp_all add: c2_timer_state newEngine_all)

lemma emitLoop_numeral:
  "emitLoop (numeral k) now tb mb infl p e = emitLoop (Suc (pred_numeral k)) now tb mb infl p e"
  by (simp add: numeral_eq_Suc)

lemma c2_emit:
  "emissionPlan (tickEmission 1900 c2_timer) = None"
  "speed (tickEmission 1900 c2_timer) = ''normal''"
  "sampleParticles (tickEmission 1900 c2_timer) =
      [\<lparr>s_col = 4, s_x = 195 / 2, s_y = 526 / 25, s_vy = 84, s_targetY = 536\<rparr>,
       \<lparr>s_col = 54, s_x = 1695 / 2, s_y = 16, s_vy = 0, s_targetY = 536\<rparr>,
       \<lparr>s_col = 58, s_x = 1815 / 2, s_y = 16, s_vy = 0, s_targetY = 536\<rparr>]"
  by (simp_all add: tickEmission_def c2_timer_state newEngine_all clampDiv01_def clamp_def Let_def
      inflightOf_def cell_def zeros16_nth length_zeros colCenter_def emitLoop_numeral)

lemma c2_t1_tier:
  "emissionPlan c2_t1 = None" "speed c2_t1 = ''normal''"
  "lastSample c2_t1 = [109 / 120, 39 / 40]"
  "midCounts c2_t1 = zeros16"
  "sampleParticles c2_t1 =
      [\<lparr>s_col = 4, s_x = 195 / 2, s_y = 778 / 25, s_vy = 168, s_targetY = 536\<rparr>,
       \<lparr>s_col = 54, s_x = 1695 / 2, s_y = 526 / 25, s_vy = 84, s_targetY = 536\<rparr>,
       \<lparr>s_col = 58, s_x = 1815 / 2, s_y = 526 / 25, s_vy = 84, s_targetY = 536\<rparr>]"
  unfolding c2_t1_def
  using tick_after_emission [of "6 / 100" 1900 c2_timer] tick_sample_tier [of "6 / 100" 1900 c2_timer]
    tick_frame [of "6 / 100" 1900 c2_timer]
  by (simp_all add: c2_emit c2_timer_fields tier_eval)

lemma c2_t2_tier:
  "emissionPlan c2_t2 = None" "speed c2_t2 = ''normal''"
  "lastSample c2_t2 = [109 / 120, 39 / 40]"
  "midCounts c2_t2 = zeros16"
  "sampleParticles c2_t2 =
      [\<lparr>s_col = 4, s_x = 195 / 2, s_y = 1156 / 25, s_vy = 252, s_targetY = 536\<rparr>,
       \<lparr>s_col = 54, s_x = 1695 / 2, s_y = 778 / 25, s_vy = 168, s_targetY = 536\<rparr>,
       \<lparr>s_col = 58, s_x = 1815 / 2, s_y = 778 / 25, s_vy = 168, s_targetY = 536\<rparr>]"
  unfolding c2_t2_def
  using tick_tier_idle [OF c2_t1_tier(1,2), of "6 / 100" "1960"]
  by (simp_all add: c2_t1_tier(3,4,5) tier_eval)

lemma c2_t3_tier:
  "emissionPlan c2_t3 = None" "speed c2_t3 = ''normal''"
  "lastSample c2_t3 = [109 / 120, 39 / 40]"
  "midCounts c2_t3 = zeros16"
  "sampleParticles c2_t3 =
      [\<lparr>s_col = 4, s_x = 195 / 2, s_y = 332 / 5, s_vy = 336, s_targetY = 536\<rparr>,
       \<lparr>s_col = 54, s_x = 1695 / 2, s_y = 1156 / 25, s_vy = 252, s_targetY = 536\<rparr>,
       \<lparr>s_col = 58, s_x = 1815 / 2, s_y = 1156 / 25, s_vy = 252, s_targetY = 536\<rparr>]"
  unfolding c2_t3_def
  using tick_tier_idle [OF c2_t2_tier(1,2), of "6 / 100" "2020"]
  by (simp_all add: c2_t2_tier(3,4,5) tier_eval)

lemma c2_t4_tier:
  "emissionPlan c2_t4 = None" "speed c2_t4 = ''normal''"
  "lastSample c2_t4 = [109 / 120, 39 / 40]"
  "midCounts c2_t4 = zeros16"
  "sampleParticles c2_t4 =
      [\<lparr>s_col = 4, s_x = 195 / 2, s_y = 458 / 5, s_vy = 420, s_targetY = 536\<rparr>,
       \<lparr>s_col = 54, s_x = 1695 / 2, s_y = 332 / 5, s_vy = 336, s_targetY = 536\<rparr>,
       \<lparr>s_col = 58, s_x = 1815 / 2, s_y = 332 / 5, s_vy = 336, s_targetY = 536\<rparr>]"
  unfolding c2_t4_def
  using tick_tier_idle [OF c2_t3_tier(1,2), of "6 / 100" "2080"]
  by (simp_all add: c2_t3_tier(3,4,5) tier_eval)

lemma c2_t5_tier:
  "emissionPlan c2_t5 = None" "speed c2_t5 = ''normal''"
  "lastSample c2_t5 = [109 / 120, 39 / 40]"
  "midCounts c2_t5 = zeros16"
  "sampleParticles c2_t5 =
      [\<lparr>s_col = 4, s_x = 195 / 2, s_y = 3046 / 25, s_vy = 504, s_targetY = 536\<rparr>,
       \<lparr>s_col = 54, s_x = 1695 / 2, s_y = 458 / 5, s_vy = 420, s_targetY = 536\<rparr>,
       \<lparr>s_col = 58, s_x = 1815 / 2, s_y = 458 / 5, s_vy = 420, s_targetY = 536\<rparr>]"
  unfolding c2_t5_def
  using tick_tier_idle [OF c2_t4_tier(1,2), of "6 / 100" "2140"]
  by (simp_all add: c2_t4_tier(3,4,5) tier_eval)

lemma c2_t6_tier:
  "emissionPlan c2_t6 = None" "speed c2_t6 = ''normal''"
  "lastSample c2_t6 = [109 / 120, 39 / 40]"
  "midCounts c2_t6 = zeros16"
  "sampleParticles c2_t6 =
      [\<lparr>s_col = 4, s_x = 195 / 2, s_y = 3928 / 25, s_vy = 588, s_targetY = 536\<rparr>,
       \<lparr>s_col = 54, s_x = 1695 / 2, s_y = 3046 / 25, s_vy = 504, s_targetY = 536\<rparr>,
       \<lparr>s_col = 58, s_x = 1815 / 2, s_y = 3046 / 25, s_vy = 504, s_targetY = 536\<rparr>]"
  unfolding c2_t6_def
  using tick_tier_idle [OF c2_t5_tier(1,2), of "6 / 100" "2200"]
  by (simp_all add: c2_t5_tier(3,4,5) tier_eval)

lemma c2_t7_tier:
  "emissionPlan c2_t7 = None" "speed c2_t7 = ''normal''"
  "lastSample c2_t7 = [109 / 120, 39 / 40]"
  "midCounts c2_t7 = zeros16"
  "sampleParticles c2_t7 =
      [\<lparr>s_col = 4, s_x = 195 / 2, s_y = 4936 / 25, s_vy = 672, s_targetY = 536\<rparr>,
       \<lparr>s_col = 54, s_x = 1695 / 2, s_y = 3928 / 25, s_vy = 588, s_targetY = 536\<rparr>,
       \<lparr>s_col = 58, s_x = 1815 / 2, s_y = 3928 / 25, s_vy = 588, s_targetY = 536\<rparr>]"
  unfolding c2_t7_def
  using tick_tier_idle [OF c2_t6_tier(1,2), of "6 / 100" "2260"]
  by (simp_all add: c2_t6_tier(3,4,5) tier_eval)

lemma c2_t8_tier:
  "emissionPlan c2_t8 = None" "speed c2_t8 = ''normal''"
  "lastSample c2_t8 = [109 / 120, 39 / 40]"
  "midCounts c2_t8 = zeros16"
  "sampleParticles c2_t8 =
      [\<lparr>s_col = 4, s_x = 195 / 2, s_y = 1214 / 5, s_vy = 756, s_targetY = 536\<rparr>,
       \<lparr>s_col = 54, s_x = 1695 / 2, s_y = 4936 / 25, s_vy = 672, s_targetY = 536\<rparr>,
       \<lparr>s_col = 58, s_x = 1815 / 2, s_y = 4936 / 25, s_vy = 672, s_targetY = 536\<rparr>]"
  unfolding c2_t8_def
  using tick_tier_idle [OF c2_t7_tier(1,2), of "6 / 100" "2320"]
  by (simp_all add: c2_t7_tier(3,4,5) tier_eval)

lemma c2_t9_tier:
  "emissionPlan c2_t9 = None" "speed c2_t9 = ''normal''"
  "lastSample c2_t9 = [109 / 120, 39 / 40]"
  "midCounts c2_t9 = zeros16"
  "sampleParticles c2_t9 =
      [\<lparr>s_col = 4, s_x = 195 / 2, s_y = 1466 / 5, s_vy = 840, s_targetY = 536\<rparr>,
       \<lparr>s_col = 54, s_x = 1695 / 2, s_y = 1214 / 5, s_vy = 756, s_targetY = 536\<rparr>,
       \<lparr>s_col = 58, s_x = 1815 / 2, s_y = 1214 / 5, s_vy = 756, s_targetY = 536\<rparr>]"
  unfolding c2_t9_def
  using tick_tier_idle [OF c2_t8_tier(1,2), of "6 / 100" "2380"]
  by (simp_all add: c2_t8_tier(3,4,5) tier_eval)

lemma c2_t10_tier:
  "emissionPlan c2_t10 = None" "speed c2_t10 = ''normal''"
  "lastSample c2_t10 = [109 / 120, 39 / 40]"
  "midCounts c2_t10 = zeros16"
  "sampleParticles c2_t10 =
      [\<lparr>s_col = 4, s_x = 195 / 2, s_y = 8716 / 25, s_vy = 924, s_targetY = 536\<rparr>,
       \<lparr>s_col = 54, s_x = 1695 / 2, s_y = 1466 / 5, s_vy = 840, s_targetY = 536\<rparr>,
       \<lparr>s_col = 58, s_x = 1815 / 2, s_y = 1466 / 5, s_vy = 840, s_targetY = 536\<rparr>]"
  unfolding c2_t10_def
  using tick_tier_idle [OF c2_t9_tier(1,2), of "6 / 100" "2440"]
  by (simp_all add: c2_t9_tier(3,4,5) tier_eval)

lemma c2_t11_tier:
  "emissionPlan c2_t11 = None" "speed c2_t11 = ''normal''"
  "lastSample c2_t11 = [109 / 120, 39 / 40]"
  "midCounts c2_t11 = zeros16"
  "sampleParticles c2_t11 =
      [\<lparr>s_col = 4, s_x = 195 / 2, s_y = 10228 / 25, s_vy = 1008, s_targetY = 536\<rparr>,
       \<lparr>s_col = 54, s_x = 1695 / 2, s_y = 8716 / 25, s_vy = 924, s_targetY = 536\<rparr>,
       \<lparr>s_col = 58, s_x = 1815 / 2, s_y = 8716 / 25, s_vy = 924, s_targetY = 536\<rparr>]"
  unfolding c2_t11_def
  using tick_tier_idle [OF c2_t10_tier(1,2), of "6 / 100" "2500"]
  by (simp_all add: c2_t10_tier(3,4,5) tier_eval)

lemma c2_t12_tier:
  "emissionPlan c2_t12 = None" "speed c2_t12 = ''normal''"
  "lastSample c2_t12 = [109 / 120, 39 / 40]"
  "midCounts c2_t12 = zeros16"
  "sampleParticles c2_t12 =
      [\<lparr>s_col = 4, s_x = 195 / 2, s_y = 11866 / 25, s_vy = 1092, s_targetY = 536\<rparr>,
       \<lparr>s_col = 54, s_x = 1695 / 2, s_y = 10228 / 25, s_vy = 1008, s_targetY = 536\<rparr>,
       \<lparr>s_col = 58, s_x = 1815 / 2, s_y = 10228 / 25, s_vy = 1008, s_targetY = 536\<rparr>]"
  unfolding c2_t12_def
  using tick_tier_idle [OF c2_t11_tier(1,2), of "6 / 100" "2560"]
  by (simp_all add: c2_t11_tier(3,4,5) tier_eval)

lemma c2_t13_tier:
  "emissionPlan c2_t13 = None" "speed c2_t13 = ''normal''"
  "lastSample c2_t13 = [109 / 120, 39 / 40]"
  "midCounts c2_t13 = zeros16[4 := 1]"
  "sampleParticles c2_t13 =
      [\<lparr>s_col = 54, s_x = 1695 / 2, s_y = 11866 / 25, s_vy = 1092, s_targetY = 536\<rparr>,
       \<lparr>s_col = 58, s_x = 1815 / 2, s_y = 11866 / 25, s_vy = 1092, s_targetY = 536\<rparr>]"
  unfolding c2_t13_def
  using tick_tier_idle [OF c2_t12_tier(1,2), of "6 / 100" "2620"]
  by (simp_all add: c2_t12_tier(3,4,5) tier_eval)

lemma c2_t14_tier:
  "emissionPlan c2_t14 = None" "speed c2_t14 = ''normal''"
  "lastSample c2_t14 = [109 / 120, 39 / 40]"
  "midCounts c2_t14 = zeros16[4 := 1, 54 := 1, 58 := 1]"
  "sampleParticles c2_t14 =
      []"
  unfolding c2_t14_def
  using tick_tier_idle [OF c2_t13_tier(1,2), of "6 / 100" "2680"]
  by (simp_all add: c2_t13_tier(3,4,5) tier_eval)


text \<open>
  Claim C2 requires that a sampling request arriving while an emission or a gather is
  active resolves the active operation at once, every pending particle landed and the
  histograms updated synchronously, before the new one starts, so that nothing is
  dropped and the sample tier ends up holding only the second sample. The engine has no
  such step, and the run above shows it. The first sample is drawn in bins 4 and 42.
  When the second request arrives the first emission is active (1 of 2 particles
  released, that one in flight). The request neither completes the emission nor lands
  the particle nor updates a histogram: the plan and the particle are as before, the
  sample histogram is empty and the sampling-distribution histogram is still all zero.
  When the timer then starts the second sample (bins 54 and 58), the first plan is
  replaced by the new one, so the value in bin 42 never becomes a particle, and the
  first sample's in-flight particle is still falling. After the ticks up to time 2680
  no plan and no sample particle is left, and the sample histogram holds three values
  for a sample of size 2: the first sample's value in bin 4 and the second sample's
  values in bins 54 and 58.
\<close>

theorem request_during_emission_not_resolved:
  "map_option (\<lambda>p. (p_emitted p, p_total p)) (emissionPlan c2_tick) = Some (1, 2)
   \<and> map_option p_cols (emissionPlan c2_tick) = Some [4, 42]
   \<and> length (sampleParticles c2_tick) = 1
   \<and> drawSampleWithAutoCalculate 600 (Fin 2) 1200 c2_tick = Inr (c2_second, Some (Fin 2, 1200))
   \<and> emissionPlan c2_second = emissionPlan c2_tick
   \<and> sampleParticles c2_second = sampleParticles c2_tick
   \<and> midCounts c2_second = zeros16 \<and> botCounts c2_second = zeros32
   \<and> statParticles c2_second = []
   \<and> timerFire 700 (Fin 2, 1200) c2_second = Inr c2_timer
   \<and> map_option (\<lambda>p. (p_start p, p_emitted p, p_total p)) (emissionPlan c2_timer) = Some (700, 0, 2)
   \<and> map_option p_cols (emissionPlan c2_timer) = Some [54, 58]
   \<and> map_option p_xs (emissionPlan c2_timer) = Some (lastSample c2_timer)
   \<and> sampleParticles c2_timer = sampleParticles c2_tick
   \<and> map s_col (sampleParticles c2_timer) = [4]
   \<and> midCounts c2_timer = zeros16 \<and> botCounts c2_timer = zeros32
   \<and> emissionPlan c2_t14 = None
   \<and> sampleParticles c2_t14 = []
   \<and> lastSample c2_t14 = [colValue 54, colValue 58]
   \<and> midCounts c2_t14 = zeros16[4 := 1, 54 := 1, 58 := 1]"
proof -
  note f = c2_tick_facts
  from f have cur: "length (lastSample c2_tick) \<noteq> 0 \<or> hasSampleInMid c2_tick" by simp
  have 0: "map_option (\<lambda>p. (p_emitted p, p_total p)) (emissionPlan c2_tick) = Some (1, 2)"
    using f by (cases "emissionPlan c2_tick") simp_all
  have c0: "map_option p_cols (emissionPlan c2_tick) = Some [4, 42]"
    by (simp add: c2_tick_state)
  have 1: "length (sampleParticles c2_tick) = 1" using f by simp
  have 2: "drawSampleWithAutoCalculate 600 (Fin 2) 1200 c2_tick = Inr (c2_second, Some (Fin 2, 1200))"
    using drawSample_gather_branch [OF cur] by (simp add: c2_second_eq)
  have 3: "emissionPlan c2_second = emissionPlan c2_tick"
    "sampleParticles c2_second = sampleParticles c2_tick"
    "midCounts c2_second = zeros16" "botCounts c2_second = zeros32"
    "statParticles c2_second = []"
    using calculateWithGather_effect [OF cur, of 600] f by (simp_all add: c2_second_eq)
  note t = c2_timer_facts
  from t have 4: "timerFire 700 (Fin 2, 1200) c2_second = Inr c2_timer"
    "map_option (\<lambda>p. (p_start p, p_emitted p, p_total p)) (emissionPlan c2_timer) = Some (700, 0, 2)"
    by simp_all
  have c4: "map_option p_cols (emissionPlan c2_timer) = Some [54, 58]"
    by (simp add: c2_timer_state)
  from t have x4: "map_option p_xs (emissionPlan c2_timer) = Some (lastSample c2_timer)"
    by simp
  from t 3 have 5: "sampleParticles c2_timer = sampleParticles c2_tick"
    by simp
  have c5: "map s_col (sampleParticles c2_timer) = [4]"
    by (simp add: c2_timer_state)
  from t 3 have z5: "midCounts c2_timer = zeros16" "botCounts c2_timer = zeros32"
    by simp_all
  have 6: "lastSample c2_t14 = [colValue 54, colValue 58]"
    by (simp add: c2_t14_tier colValue_def COLS_def)
  from 0 c0 1 2 3 4 c4 x4 5 c5 z5 c2_t14_tier(1) c2_t14_tier(5) 6 c2_t14_tier(4)
  show ?thesis by (intro conjI)
qed

theorem request_during_emission_not_resolved_witness:
  "cell (midCounts c2_t14) 4 = 1 \<and> cell (midCounts c2_t14) 54 = 1
   \<and> cell (midCounts c2_t14) 58 = 1 \<and> cell (midCounts c2_t14) 42 = 0
   \<and> length (lastSample c2_t14) = 2
   \<and> emissionPlan c2_t14 = None \<and> sampleParticles c2_t14 = []"
proof -
  note t = request_during_emission_not_resolved
  from t have m: "midCounts c2_t14 = zeros16[4 := 1, 54 := 1, 58 := 1]"
    and l: "lastSample c2_t14 = [colValue 54, colValue 58]"
    and e: "emissionPlan c2_t14 = None" "sampleParticles c2_t14 = []"
    by blast+
  have "cell (midCounts c2_t14) 4 = 1" "cell (midCounts c2_t14) 54 = 1"
    "cell (midCounts c2_t14) 58 = 1" "cell (midCounts c2_t14) 42 = 0"
    by (simp_all add: m cell_def length_zeros zeros16_nth)
  moreover have "length (lastSample c2_t14) = 2" by (simp add: l)
  ultimately show ?thesis using e by (intro conjI)
qed

end
